theory Spec2Isabelle
  imports Main "HOL-Library.Word"
begin

unbundle bit_operations_syntax

text \<open>
  A shallow embedding of three fragments of the Mesa driver stack and the properties
  proved of them: the Vulkan WSI shim of the PowerVR driver, the instruction
  comparison helpers of the Bifrost compiler tests, and the NIR passes of the AMD
  backend that lower the I/O between task and mesh shaders to accesses of two rings in
  memory.  The definitions come first, the properties after them.
\<close>

section \<open>Vulkan WSI shim (src/imagination/vulkan/pvr\_wsi.c)\<close>

text \<open>
  Modelled from the spec: \<open>VkResult\<close> is declared in the Vulkan headers, which are not
  among the sources considered here.  It is a C enum, that is an \<open>int\<close>; the codes below
  are the ones the shim names and two that its callees can hand back, with the numeric
  values of the headers.
\<close>

type_synonym VkResult = int

definition VK_SUCCESS :: VkResult where
  "VK_SUCCESS = 0"

definition VK_SUBOPTIMAL_KHR :: VkResult where
  "VK_SUBOPTIMAL_KHR = 1000001003"

definition VK_ERROR_OUT_OF_HOST_MEMORY :: VkResult where
  "VK_ERROR_OUT_OF_HOST_MEMORY = - 1"

definition VK_ERROR_OUT_OF_DATE_KHR :: VkResult where
  "VK_ERROR_OUT_OF_DATE_KHR = - 1000001004"

text \<open>
  Modelled from the spec: \<open>struct pvr_device\<close> (pvr\_private.h) and \<open>p_atomic_inc\<close>
  (util/u\_atomic.h) are not among the sources considered here.  Of the device only the
  counter that \<open>pvr_QueuePresentKHR\<close> touches is kept; its width in bits is a parameter
  \<open>w\<close>, and \<open>p_atomic_inc\<close> adds one and wraps at that width.
\<close>

record pvr_device =
  global_queue_present_count :: nat

definition p_atomic_inc :: "nat \<Rightarrow> nat \<Rightarrow> nat" where
  "p_atomic_inc w v = (v + 1) mod 2 ^ w"

text \<open>
  \<open>pvr_QueuePresentKHR\<close>.  \<open>result\<close> is what \<open>wsi_common_queue_present\<close> returned;
  whatever that call did to the device has already happened in \<open>device\<close>.
\<close>

definition pvr_QueuePresentKHR ::
  "nat \<Rightarrow> VkResult \<Rightarrow> pvr_device \<Rightarrow> VkResult \<times> pvr_device" where
  "pvr_QueuePresentKHR w result device =
     (if result \<noteq> VK_SUCCESS then (result, device)
      else (VK_SUCCESS,
            device\<lparr>global_queue_present_count :=
                     p_atomic_inc w (global_queue_present_count device)\<rparr>))"

text \<open>
  Modelled from the spec: \<open>vk_sync\<close>, \<open>vk_fence\<close>, \<open>vk_semaphore\<close> and the functions
  \<open>vk_fence_reset_temporary\<close>, \<open>vk_semaphore_reset_temporary\<close> and \<open>vk_sync_create\<close> belong
  to the Vulkan runtime, which is not among the sources considered here.  A sync is
  known here only by its type; a fence and a semaphore each hold a permanent payload
  and an optional temporary one (a NULL pointer is \<open>None\<close>).  Resetting drops the
  temporary payload.  Creating a sync either fails with the code handed back by the
  allocator or by the init hook of the type, leaving the output slot as it was, or
  succeeds and stores the new sync of the requested type in the slot.
\<close>

datatype vk_sync = vk_sync_dummy_type | vk_sync_other_type nat

record vk_fence =
  fence_permanent :: vk_sync
  fence_temporary :: "vk_sync option"

record vk_semaphore =
  sem_permanent :: vk_sync
  sem_temporary :: "vk_sync option"

definition vk_fence_reset_temporary :: "vk_fence \<Rightarrow> vk_fence" where
  "vk_fence_reset_temporary fence = fence\<lparr>fence_temporary := None\<rparr>"

definition vk_semaphore_reset_temporary :: "vk_semaphore \<Rightarrow> vk_semaphore" where
  "vk_semaphore_reset_temporary sem = sem\<lparr>sem_temporary := None\<rparr>"

definition vk_sync_create ::
  "VkResult \<Rightarrow> vk_sync \<Rightarrow> vk_sync option \<Rightarrow> VkResult \<times> vk_sync option" where
  "vk_sync_create outcome type slot =
     (if outcome = VK_SUCCESS then (VK_SUCCESS, Some type) else (outcome, slot))"

text \<open>
  \<open>pvr_AcquireNextImage2KHR\<close>.  \<open>result\<close> is what \<open>wsi_common_acquire_next_image2\<close>
  returned; \<open>create_fence\<close> and \<open>create_sem\<close> are the outcomes of the two
  \<open>vk_sync_create\<close> calls, should they happen.  The fence and the semaphore of
  \<open>pAcquireInfo\<close> are optional handles.
\<close>

definition pvr_AcquireNextImage2KHR ::
  "VkResult \<Rightarrow> VkResult \<Rightarrow> VkResult \<Rightarrow> vk_fence option \<Rightarrow> vk_semaphore option
     \<Rightarrow> VkResult \<times> vk_fence option \<times> vk_semaphore option" where
  "pvr_AcquireNextImage2KHR result create_fence create_sem fence sem =
     (if result \<noteq> VK_SUCCESS \<and> result \<noteq> VK_SUBOPTIMAL_KHR then (result, fence, sem)
      else
        let (ret_f, fence') =
              (case fence of
                 None \<Rightarrow> (VK_SUCCESS, None)
               | Some f \<Rightarrow>
                   let f1 = vk_fence_reset_temporary f;
                       (ret, tmp) = vk_sync_create create_fence vk_sync_dummy_type (fence_temporary f1)
                   in (ret, Some (f1\<lparr>fence_temporary := tmp\<rparr>)))
        in if ret_f \<noteq> VK_SUCCESS then (ret_f, fence', sem)
           else
             let (ret_s, sem') =
                   (case sem of
                      None \<Rightarrow> (VK_SUCCESS, None)
                    | Some s \<Rightarrow>
                        let s1 = vk_semaphore_reset_temporary s;
                            (ret, tmp) = vk_sync_create create_sem vk_sync_dummy_type (sem_temporary s1)
                        in (ret, Some (s1\<lparr>sem_temporary := tmp\<rparr>)))
             in if ret_s \<noteq> VK_SUCCESS then (ret_s, fence', sem')
                else (result, fence', sem'))"


section \<open>Bifrost test helpers (src/panfrost/bifrost/bi\_test.h)\<close>

text \<open>
  The helpers compare instructions as raw memory.  A \<open>bi_instr\<close> object is therefore
  modelled as its byte image: the byte at each offset from the start of the object, the
  \<open>struct list_head link\<close> coming first.  \<open>sizeof (struct list_head)\<close> and
  \<open>sizeof (bi_instr)\<close> depend on the platform and on compiler.h, so they are the
  parameters \<open>lh\<close> and \<open>sz\<close>.  Of a block only its instruction list is read, of a
  shader only its block list; \<open>list_length\<close> is the length of the list.
\<close>

type_synonym uint8_t = "8 word"
type_synonym bi_instr = "nat \<Rightarrow> uint8_t"
type_synonym bi_block = "bi_instr list"
type_synonym bi_context = "bi_block list"

text \<open>
  \<open>memcmp p q n\<close> of the C library: the sign of the first difference among the first
  \<open>n\<close> bytes, bytes compared as unsigned.
\<close>

fun memcmp :: "(nat \<Rightarrow> uint8_t) \<Rightarrow> (nat \<Rightarrow> uint8_t) \<Rightarrow> nat \<Rightarrow> int" where
  "memcmp p q 0 = 0"
| "memcmp p q (Suc n) =
     (if p 0 = q 0 then memcmp (\<lambda>i. p (Suc i)) (\<lambda>i. q (Suc i)) n
      else if p 0 < q 0 then - 1 else 1)"

definition bit_instr_equal :: "nat \<Rightarrow> nat \<Rightarrow> bi_instr \<Rightarrow> bi_instr \<Rightarrow> bool" where
  "bit_instr_equal lh sz A B = (memcmp (\<lambda>i. A (i + lh)) (\<lambda>i. B (i + lh)) (sz - lh) = 0)"

text \<open>
  \<open>list_pair_for_each_entry\<close> walks both lists in step and stops as soon as either
  of them ends.
\<close>

fun bit_block_equal_loop :: "nat \<Rightarrow> nat \<Rightarrow> bi_instr list \<Rightarrow> bi_instr list \<Rightarrow> bool" where
  "bit_block_equal_loop lh sz (insA # as) (insB # bs) =
     (if \<not> bit_instr_equal lh sz insA insB then False else bit_block_equal_loop lh sz as bs)"
| "bit_block_equal_loop lh sz _ _ = True"

definition bit_block_equal :: "nat \<Rightarrow> nat \<Rightarrow> bi_block \<Rightarrow> bi_block \<Rightarrow> bool" where
  "bit_block_equal lh sz A B =
     (if length A \<noteq> length B then False else bit_block_equal_loop lh sz A B)"

fun bit_shader_equal_loop :: "nat \<Rightarrow> nat \<Rightarrow> bi_block list \<Rightarrow> bi_block list \<Rightarrow> bool" where
  "bit_shader_equal_loop lh sz (blockA # as) (blockB # bs) =
     (if \<not> bit_block_equal lh sz blockA blockB then False else bit_shader_equal_loop lh sz as bs)"
| "bit_shader_equal_loop lh sz _ _ = True"

definition bit_shader_equal :: "nat \<Rightarrow> nat \<Rightarrow> bi_context \<Rightarrow> bi_context \<Rightarrow> bool" where
  "bit_shader_equal lh sz A B =
     (if length A \<noteq> length B then False else bit_shader_equal_loop lh sz A B)"

section \<open>NIR: the part of the shader IR the AMD lowering passes work on\<close>

text \<open>
  Modelled from the spec: the NIR data structures (nir.h) are not among the sources
  considered here; what follows is the part of them that
  src/amd/common/ac\_nir\_lower\_taskmesh\_io\_to\_mem.c reads and writes.

  An SSA value is known by its index, which is unique in a function, and carries its
  number of components and its bit size.  An instruction refers to its sources by
  their SSA values.  A function body is the list of its instructions in program
  order; structured control flow is kept as markers in that list (the beginning of an
  if with its condition, its else, its end, the two ends of a loop).
\<close>

type_synonym uint32_t = "32 word"
type_synonym uint64_t = "64 word"

datatype gl_shader_stage = MESA_SHADER_TASK | MESA_SHADER_MESH | MESA_SHADER_OTHER nat

datatype gl_system_value = SYSTEM_VALUE_WORKGROUP_ID | SYSTEM_VALUE_OTHER nat

datatype nir_variable_mode =
    nir_var_shader_out
  | nir_var_mem_task_payload
  | nir_var_mem_ssbo
  | nir_var_mem_global
  | nir_var_other nat

datatype nir_scope = NIR_SCOPE_NONE | NIR_SCOPE_WORKGROUP | NIR_SCOPE_OTHER nat

datatype nir_memory_semantics = NIR_MEMORY_NONE | NIR_MEMORY_ACQ_REL | NIR_MEMORY_OTHER nat

datatype gl_access_qualifier = ACCESS_NON_WRITEABLE | ACCESS_COHERENT | ACCESS_OTHER nat

datatype nir_intrinsic_op =
    nir_intrinsic_store_output
  | nir_intrinsic_store_task_payload
  | nir_intrinsic_load_task_payload
  | nir_intrinsic_load_workgroup_id
  | nir_intrinsic_load_local_invocation_index
  | nir_intrinsic_load_task_ring_entry_amd
  | nir_intrinsic_load_ring_task_draw_amd
  | nir_intrinsic_load_ring_task_payload_amd
  | nir_intrinsic_load_task_ib_stride
  | nir_intrinsic_load_task_ib_addr
  | nir_intrinsic_load_draw_id
  | nir_intrinsic_load_global
  | nir_intrinsic_load_buffer_amd
  | nir_intrinsic_store_buffer_amd
  | nir_intrinsic_scoped_barrier
  | nir_intrinsic_other nat

text \<open>
  Modelled from the spec: the opcodes of the instructions that compute a value, one
  constructor for each builder call of the source.  The instruction records the call
  and, for the \<open>_imm\<close> calls, the immediate operand; how the builder of the library
  folds or splits such a call is not modelled.
\<close>

datatype nir_op =
    op_imm_int uint32_t
  | op_channel nat
  | op_vec3
  | op_iadd
  | op_iadd_nuw
  | op_iadd_imm uint32_t
  | op_imul
  | op_imul_imm uint32_t
  | op_iand_imm uint32_t
  | op_ine
  | op_ieq_imm uint32_t
  | op_ubfe
  | op_u2u64
  | op_pack_64_2x32_split
  | op_other nat

record nir_ssa_def =
  index :: nat
  num_components :: nat
  bit_size :: nat

record nir_intrinsic_instr =
  intrinsic :: nir_intrinsic_op
  dest :: "nir_ssa_def option"
  src :: "nir_ssa_def list"
  nir_intrinsic_base :: int
  nir_intrinsic_write_mask :: nat
  nir_intrinsic_memory_modes :: "nir_variable_mode set"
  nir_intrinsic_access :: "gl_access_qualifier set"
  nir_intrinsic_execution_scope :: nir_scope
  nir_intrinsic_memory_scope :: nir_scope
  nir_intrinsic_memory_semantics :: nir_memory_semantics

datatype nir_instr =
    nir_instr_type_intrinsic nir_intrinsic_instr
  | nir_instr_type_alu nir_op nir_ssa_def "nir_ssa_def list"
  | nir_instr_type_phi nir_ssa_def "nir_ssa_def list"
  | nir_instr_type_other nat "nir_ssa_def option" "nir_ssa_def list"
  | nir_if_begin nir_ssa_def
  | nir_if_else
  | nir_if_end
  | nir_loop_begin
  | nir_loop_end

record nir_shader =
  info_stage :: gl_shader_stage
  info_system_values_read :: "gl_system_value set"
  impl_ssa_alloc :: nat
  impl_body :: "nir_instr list"

text \<open>
  Modelled from the spec: the NIR builder (nir\_builder.h) is not among the sources
  considered here.  A builder knows the stage of the shader it works on
  (\<open>b->shader->info.stage\<close>), the next free SSA index (\<open>b->impl->ssa_alloc\<close>) and what it
  has inserted at its cursor so far, in order.  Where the cursor stands is known to
  whoever made the builder and splices \<open>inserted\<close> there.  Each call below inserts one
  instruction and, when the instruction defines a value, returns that value.
\<close>

record nir_builder =
  shader_stage :: gl_shader_stage
  ssa_alloc :: nat
  inserted :: "nir_instr list"

definition nir_builder_init :: "nir_shader \<Rightarrow> nir_builder" where
  "nir_builder_init shader =
     \<lparr>shader_stage = info_stage shader, ssa_alloc = impl_ssa_alloc shader, inserted = []\<rparr>"

definition nir_builder_instr_insert :: "nir_builder \<Rightarrow> nir_instr \<Rightarrow> nir_builder" where
  "nir_builder_instr_insert b instr = b\<lparr>inserted := inserted b @ [instr]\<rparr>"

definition nir_ssa_dest_init :: "nir_builder \<Rightarrow> nat \<Rightarrow> nat \<Rightarrow> nir_ssa_def \<times> nir_builder" where
  "nir_ssa_dest_init b nc bs =
     (\<lparr>index = ssa_alloc b, num_components = nc, bit_size = bs\<rparr>,
      b\<lparr>ssa_alloc := Suc (ssa_alloc b)\<rparr>)"

definition nir_build_alu ::
  "nir_builder \<Rightarrow> nir_op \<Rightarrow> nat \<Rightarrow> nat \<Rightarrow> nir_ssa_def list \<Rightarrow> nir_ssa_def \<times> nir_builder" where
  "nir_build_alu b op nc bs srcs =
     (let (d, b) = nir_ssa_dest_init b nc bs
      in (d, nir_builder_instr_insert b (nir_instr_type_alu op d srcs)))"

definition nir_intrinsic_instr_create :: "nir_intrinsic_op \<Rightarrow> nir_intrinsic_instr" where
  "nir_intrinsic_instr_create op =
     \<lparr>intrinsic = op, dest = None, src = [],
      nir_intrinsic_base = 0, nir_intrinsic_write_mask = 0,
      nir_intrinsic_memory_modes = {}, nir_intrinsic_access = {},
      nir_intrinsic_execution_scope = NIR_SCOPE_NONE, nir_intrinsic_memory_scope = NIR_SCOPE_NONE,
      nir_intrinsic_memory_semantics = NIR_MEMORY_NONE\<rparr>"

definition nir_build_load ::
  "nir_builder \<Rightarrow> nir_intrinsic_instr \<Rightarrow> nat \<Rightarrow> nat \<Rightarrow> nir_ssa_def \<times> nir_builder" where
  "nir_build_load b intrin nc bs =
     (let (d, b) = nir_ssa_dest_init b nc bs
      in (d, nir_builder_instr_insert b (nir_instr_type_intrinsic (intrin\<lparr>dest := Some d\<rparr>))))"

definition nir_imm_int :: "nir_builder \<Rightarrow> uint32_t \<Rightarrow> nir_ssa_def \<times> nir_builder" where
  "nir_imm_int b x = nir_build_alu b (op_imm_int x) 1 32 []"

definition nir_channel :: "nir_builder \<Rightarrow> nir_ssa_def \<Rightarrow> nat \<Rightarrow> nir_ssa_def \<times> nir_builder" where
  "nir_channel b def c = nir_build_alu b (op_channel c) 1 (bit_size def) [def]"

definition nir_vec3 ::
  "nir_builder \<Rightarrow> nir_ssa_def \<Rightarrow> nir_ssa_def \<Rightarrow> nir_ssa_def \<Rightarrow> nir_ssa_def \<times> nir_builder" where
  "nir_vec3 b x y z = nir_build_alu b op_vec3 3 (bit_size x) [x, y, z]"

definition nir_iadd :: "nir_builder \<Rightarrow> nir_ssa_def \<Rightarrow> nir_ssa_def \<Rightarrow> nir_ssa_def \<times> nir_builder" where
  "nir_iadd b x y = nir_build_alu b op_iadd (num_components x) (bit_size x) [x, y]"

definition nir_iadd_nuw :: "nir_builder \<Rightarrow> nir_ssa_def \<Rightarrow> nir_ssa_def \<Rightarrow> nir_ssa_def \<times> nir_builder" where
  "nir_iadd_nuw b x y = nir_build_alu b op_iadd_nuw (num_components x) (bit_size x) [x, y]"

definition nir_iadd_imm :: "nir_builder \<Rightarrow> nir_ssa_def \<Rightarrow> uint32_t \<Rightarrow> nir_ssa_def \<times> nir_builder" where
  "nir_iadd_imm b x y = nir_build_alu b (op_iadd_imm y) (num_components x) (bit_size x) [x]"

definition nir_imul :: "nir_builder \<Rightarrow> nir_ssa_def \<Rightarrow> nir_ssa_def \<Rightarrow> nir_ssa_def \<times> nir_builder" where
  "nir_imul b x y = nir_build_alu b op_imul (num_components x) (bit_size x) [x, y]"

definition nir_imul_imm :: "nir_builder \<Rightarrow> nir_ssa_def \<Rightarrow> uint32_t \<Rightarrow> nir_ssa_def \<times> nir_builder" where
  "nir_imul_imm b x y = nir_build_alu b (op_imul_imm y) (num_components x) (bit_size x) [x]"

definition nir_iand_imm :: "nir_builder \<Rightarrow> nir_ssa_def \<Rightarrow> uint32_t \<Rightarrow> nir_ssa_def \<times> nir_builder" where
  "nir_iand_imm b x y = nir_build_alu b (op_iand_imm y) (num_components x) (bit_size x) [x]"

definition nir_ine :: "nir_builder \<Rightarrow> nir_ssa_def \<Rightarrow> nir_ssa_def \<Rightarrow> nir_ssa_def \<times> nir_builder" where
  "nir_ine b x y = nir_build_alu b op_ine (num_components x) 1 [x, y]"

definition nir_ieq_imm :: "nir_builder \<Rightarrow> nir_ssa_def \<Rightarrow> uint32_t \<Rightarrow> nir_ssa_def \<times> nir_builder" where
  "nir_ieq_imm b x y = nir_build_alu b (op_ieq_imm y) (num_components x) 1 [x]"

definition nir_ubfe ::
  "nir_builder \<Rightarrow> nir_ssa_def \<Rightarrow> nir_ssa_def \<Rightarrow> nir_ssa_def \<Rightarrow> nir_ssa_def \<times> nir_builder" where
  "nir_ubfe b base offset bits = nir_build_alu b op_ubfe (num_components base) (bit_size base) [base, offset, bits]"

definition nir_u2u64 :: "nir_builder \<Rightarrow> nir_ssa_def \<Rightarrow> nir_ssa_def \<times> nir_builder" where
  "nir_u2u64 b x = nir_build_alu b op_u2u64 (num_components x) 64 [x]"

definition nir_pack_64_2x32_split ::
  "nir_builder \<Rightarrow> nir_ssa_def \<Rightarrow> nir_ssa_def \<Rightarrow> nir_ssa_def \<times> nir_builder" where
  "nir_pack_64_2x32_split b lo hi = nir_build_alu b op_pack_64_2x32_split 1 64 [lo, hi]"

definition nir_load_workgroup_id :: "nir_builder \<Rightarrow> nat \<Rightarrow> nir_ssa_def \<times> nir_builder" where
  "nir_load_workgroup_id b bs =
     nir_build_load b (nir_intrinsic_instr_create nir_intrinsic_load_workgroup_id) 3 bs"

definition nir_load_local_invocation_index :: "nir_builder \<Rightarrow> nir_ssa_def \<times> nir_builder" where
  "nir_load_local_invocation_index b =
     nir_build_load b (nir_intrinsic_instr_create nir_intrinsic_load_local_invocation_index) 1 32"

definition nir_load_task_ring_entry_amd :: "nir_builder \<Rightarrow> nir_ssa_def \<times> nir_builder" where
  "nir_load_task_ring_entry_amd b =
     nir_build_load b (nir_intrinsic_instr_create nir_intrinsic_load_task_ring_entry_amd) 1 32"

definition nir_load_ring_task_draw_amd :: "nir_builder \<Rightarrow> nir_ssa_def \<times> nir_builder" where
  "nir_load_ring_task_draw_amd b =
     nir_build_load b (nir_intrinsic_instr_create nir_intrinsic_load_ring_task_draw_amd) 4 32"

definition nir_load_ring_task_payload_amd :: "nir_builder \<Rightarrow> nir_ssa_def \<times> nir_builder" where
  "nir_load_ring_task_payload_amd b =
     nir_build_load b (nir_intrinsic_instr_create nir_intrinsic_load_ring_task_payload_amd) 4 32"

definition nir_load_task_ib_stride :: "nir_builder \<Rightarrow> nir_ssa_def \<times> nir_builder" where
  "nir_load_task_ib_stride b =
     nir_build_load b (nir_intrinsic_instr_create nir_intrinsic_load_task_ib_stride) 1 32"

definition nir_load_task_ib_addr :: "nir_builder \<Rightarrow> nir_ssa_def \<times> nir_builder" where
  "nir_load_task_ib_addr b =
     nir_build_load b (nir_intrinsic_instr_create nir_intrinsic_load_task_ib_addr) 2 32"

definition nir_load_draw_id :: "nir_builder \<Rightarrow> nir_ssa_def \<times> nir_builder" where
  "nir_load_draw_id b =
     nir_build_load b (nir_intrinsic_instr_create nir_intrinsic_load_draw_id) 1 32"

definition nir_build_load_global ::
  "nir_builder \<Rightarrow> nat \<Rightarrow> nat \<Rightarrow> nir_ssa_def \<Rightarrow> gl_access_qualifier set \<Rightarrow> nir_ssa_def \<times> nir_builder" where
  "nir_build_load_global b nc bs addr acc =
     nir_build_load b
       ((nir_intrinsic_instr_create nir_intrinsic_load_global)
          \<lparr>src := [addr], nir_intrinsic_access := acc\<rparr>) nc bs"

definition nir_load_buffer_amd ::
  "nir_builder \<Rightarrow> nat \<Rightarrow> nat \<Rightarrow> nir_ssa_def \<Rightarrow> nir_ssa_def \<Rightarrow> nir_ssa_def \<Rightarrow> int
     \<Rightarrow> nir_variable_mode set \<Rightarrow> nir_ssa_def \<times> nir_builder" where
  "nir_load_buffer_amd b nc bs descriptor v_offset s_offset base modes =
     nir_build_load b
       ((nir_intrinsic_instr_create nir_intrinsic_load_buffer_amd)
          \<lparr>src := [descriptor, v_offset, s_offset], nir_intrinsic_base := base,
           nir_intrinsic_memory_modes := modes\<rparr>) nc bs"

text \<open>
  Modelled from the spec: a store built without a write mask (mask 0) writes every
  component of its value: the builder fills in the mask of the value's components.
\<close>

definition nir_store_buffer_amd ::
  "nir_builder \<Rightarrow> nir_ssa_def \<Rightarrow> nir_ssa_def \<Rightarrow> nir_ssa_def \<Rightarrow> nir_ssa_def \<Rightarrow> int \<Rightarrow> nat
     \<Rightarrow> nir_variable_mode set \<Rightarrow> nir_builder" where
  "nir_store_buffer_amd b val descriptor v_offset s_offset base wrmask modes =
     nir_builder_instr_insert b
       (nir_instr_type_intrinsic
          ((nir_intrinsic_instr_create nir_intrinsic_store_buffer_amd)
             \<lparr>src := [val, descriptor, v_offset, s_offset], nir_intrinsic_base := base,
              nir_intrinsic_write_mask :=
                (if wrmask = 0 then 2 ^ num_components val - 1 else wrmask),
              nir_intrinsic_memory_modes := modes\<rparr>))"

definition nir_scoped_barrier ::
  "nir_builder \<Rightarrow> nir_scope \<Rightarrow> nir_scope \<Rightarrow> nir_memory_semantics \<Rightarrow> nir_variable_mode set
     \<Rightarrow> nir_builder" where
  "nir_scoped_barrier b exec_scope mem_scope mem_semantics modes =
     nir_builder_instr_insert b
       (nir_instr_type_intrinsic
          ((nir_intrinsic_instr_create nir_intrinsic_scoped_barrier)
             \<lparr>nir_intrinsic_memory_modes := modes,
              nir_intrinsic_execution_scope := exec_scope,
              nir_intrinsic_memory_scope := mem_scope,
              nir_intrinsic_memory_semantics := mem_semantics\<rparr>))"

text \<open>
  Modelled from the spec: control flow of the builder.
  \<open>nir_push_if\<close> opens an if on a condition at the cursor and moves the cursor into
  its then-branch; \<open>nir_pop_if\<close> closes it, leaving the else-branch empty, and moves
  the cursor behind it; \<open>nir_if_phi\<close> then merges the value of the then-branch with
  the value of the else-branch.
\<close>

definition nir_push_if :: "nir_builder \<Rightarrow> nir_ssa_def \<Rightarrow> nir_builder" where
  "nir_push_if b condition = nir_builder_instr_insert b (nir_if_begin condition)"

definition nir_pop_if :: "nir_builder \<Rightarrow> nir_builder" where
  "nir_pop_if b = nir_builder_instr_insert b nir_if_end"

definition nir_if_phi :: "nir_builder \<Rightarrow> nir_ssa_def \<Rightarrow> nir_ssa_def \<Rightarrow> nir_ssa_def \<times> nir_builder" where
  "nir_if_phi b then_def else_def =
     (let (d, b) = nir_ssa_dest_init b (num_components then_def) (bit_size then_def)
      in (d, nir_builder_instr_insert b (nir_instr_type_phi d [then_def, else_def])))"

text \<open>
  Modelled from the spec: \<open>nir_shader_lower_instructions\<close> (nir.h) is not among the
  sources considered here.  It walks the instructions of the shader in program order.
  An instruction the filter accepts is handed to the callback with a builder whose cursor stands
  right behind it.  When the callback returns a value, every use the instruction's
  own value had before the call is redirected to the returned value, and the
  instruction is removed if its value is then unused.  When the callback returns
  \<open>NIR_LOWER_INSTR_PROGRESS_REPLACE\<close> the instruction, which must not define a value, is
  removed.  Otherwise the instruction stays.  What the callback has inserted stands
  where the cursor was.  The walk of the library goes on with what the callback has
  inserted; the walk of the model goes on behind it.  The lemmas
  \<open>lower_task_intrinsics_ok\<close> and \<open>lower_mesh_intrinsics_ok\<close> below show that the filters
  of the two I/O passes accept none of the instructions their callbacks insert, and the
  callback of the first-task pass inserts none, so the two walks agree.  A failed
  assertion or an \<open>unreachable\<close> in a callback is \<open>None\<close>.
\<close>

datatype nir_lower_result =
    NIR_LOWER_INSTR_NULL
  | NIR_LOWER_INSTR_PROGRESS
  | NIR_LOWER_INSTR_PROGRESS_REPLACE
  | NIR_LOWER_INSTR_DEF nir_ssa_def

type_synonym nir_instr_filter_cb = "nir_instr \<Rightarrow> bool"

type_synonym 's nir_lower_instr_cb =
  "nir_builder \<Rightarrow> nir_instr \<Rightarrow> 's \<Rightarrow> (nir_lower_result \<times> nir_builder) option"

fun nir_instr_ssa_def :: "nir_instr \<Rightarrow> nir_ssa_def option" where
  "nir_instr_ssa_def (nir_instr_type_intrinsic intrin) = dest intrin"
| "nir_instr_ssa_def (nir_instr_type_alu op d srcs) = Some d"
| "nir_instr_ssa_def (nir_instr_type_phi d srcs) = Some d"
| "nir_instr_ssa_def (nir_instr_type_other k d srcs) = d"
| "nir_instr_ssa_def _ = None"

fun nir_instr_srcs :: "nir_instr \<Rightarrow> nir_ssa_def list" where
  "nir_instr_srcs (nir_instr_type_intrinsic intrin) = src intrin"
| "nir_instr_srcs (nir_instr_type_alu op d srcs) = srcs"
| "nir_instr_srcs (nir_instr_type_phi d srcs) = srcs"
| "nir_instr_srcs (nir_instr_type_other k d srcs) = srcs"
| "nir_instr_srcs (nir_if_begin condition) = [condition]"
| "nir_instr_srcs _ = []"

fun nir_instr_map_srcs :: "(nir_ssa_def \<Rightarrow> nir_ssa_def) \<Rightarrow> nir_instr \<Rightarrow> nir_instr" where
  "nir_instr_map_srcs f (nir_instr_type_intrinsic intrin) =
     nir_instr_type_intrinsic (intrin\<lparr>src := map f (src intrin)\<rparr>)"
| "nir_instr_map_srcs f (nir_instr_type_alu op d srcs) = nir_instr_type_alu op d (map f srcs)"
| "nir_instr_map_srcs f (nir_instr_type_phi d srcs) = nir_instr_type_phi d (map f srcs)"
| "nir_instr_map_srcs f (nir_instr_type_other k d srcs) = nir_instr_type_other k d (map f srcs)"
| "nir_instr_map_srcs f (nir_if_begin condition) = nir_if_begin (f condition)"
| "nir_instr_map_srcs f instr = instr"

definition nir_src_rewrite :: "nir_ssa_def \<Rightarrow> nir_ssa_def \<Rightarrow> nir_ssa_def \<Rightarrow> nir_ssa_def" where
  "nir_src_rewrite old_def new_def s = (if index s = index old_def then new_def else s)"

definition nir_ssa_def_rewrite_uses ::
  "nir_ssa_def \<Rightarrow> nir_ssa_def \<Rightarrow> nir_instr list \<Rightarrow> nir_instr list" where
  "nir_ssa_def_rewrite_uses old_def new_def instrs =
     map (nir_instr_map_srcs (nir_src_rewrite old_def new_def)) instrs"

definition nir_ssa_def_is_unused :: "nir_ssa_def \<Rightarrow> nir_instr list \<Rightarrow> bool" where
  "nir_ssa_def_is_unused d instrs =
     (\<forall>instr \<in> set instrs. \<forall>s \<in> set (nir_instr_srcs instr). index s \<noteq> index d)"

function nir_function_impl_lower_instructions ::
  "nir_instr_filter_cb \<Rightarrow> 's nir_lower_instr_cb \<Rightarrow> 's \<Rightarrow> nir_builder
     \<Rightarrow> nir_instr list \<Rightarrow> nir_instr list \<Rightarrow> (nir_builder \<times> nir_instr list) option" where
  "nir_function_impl_lower_instructions filter_cb lower_cb state b seen [] = Some (b, seen)"
| "nir_function_impl_lower_instructions filter_cb lower_cb state b seen (instr # todo) =
     (if \<not> filter_cb instr
      then nir_function_impl_lower_instructions filter_cb lower_cb state b (seen @ [instr]) todo
      else
        case lower_cb (b\<lparr>inserted := []\<rparr>) instr state of
          None \<Rightarrow> None
        | Some (NIR_LOWER_INSTR_DEF new_def, b') \<Rightarrow>
            (case nir_instr_ssa_def instr of
               None \<Rightarrow> None
             | Some old_def \<Rightarrow>
                 nir_function_impl_lower_instructions filter_cb lower_cb state b'
                   (nir_ssa_def_rewrite_uses old_def new_def seen
                      @ (if nir_ssa_def_is_unused old_def (inserted b') then [] else [instr])
                      @ inserted b')
                   (nir_ssa_def_rewrite_uses old_def new_def todo))
        | Some (NIR_LOWER_INSTR_PROGRESS_REPLACE, b') \<Rightarrow>
            (case nir_instr_ssa_def instr of
               Some old_def \<Rightarrow> None
             | None \<Rightarrow>
                 nir_function_impl_lower_instructions filter_cb lower_cb state b'
                   (seen @ inserted b') todo)
        | Some (_, b') \<Rightarrow>
            nir_function_impl_lower_instructions filter_cb lower_cb state b'
              (seen @ [instr] @ inserted b') todo)"
  by pat_completeness auto
termination
  by (relation "measure (\<lambda>(filter_cb, lower_cb, state, b, seen, todo). length todo)")
     (auto simp: nir_ssa_def_rewrite_uses_def)

definition nir_shader_lower_instructions ::
  "nir_shader \<Rightarrow> nir_instr_filter_cb \<Rightarrow> 's nir_lower_instr_cb \<Rightarrow> 's \<Rightarrow> nir_shader option" where
  "nir_shader_lower_instructions shader filter_cb lower_cb state =
     (case nir_function_impl_lower_instructions filter_cb lower_cb state
             (nir_builder_init shader) [] (impl_body shader) of
        None \<Rightarrow> None
      | Some (b, body) \<Rightarrow> Some (shader\<lparr>impl_ssa_alloc := ssa_alloc b, impl_body := body\<rparr>))"

text \<open>
  Modelled from the spec: \<open>util_bitcount\<close> and \<open>util_is_power_of_two_nonzero\<close> (u\_math.h,
  bitscan.h) are not among the sources considered here: the number of bits set in an
  unsigned int, and whether exactly one is.
\<close>

definition util_bitcount :: "uint32_t \<Rightarrow> nat" where
  "util_bitcount n = length (filter (bit n) [0..<32])"

definition util_is_power_of_two_nonzero :: "uint32_t \<Rightarrow> bool" where
  "util_is_power_of_two_nonzero v = (util_bitcount v = 1)"

section \<open>The task and mesh shader I/O lowering (src/amd/common/ac\_nir\_lower\_taskmesh\_io\_to\_mem.c)\<close>

text \<open>
  Each function takes the builder as the source does and hands it back with what it
  has inserted.  Where C leaves the order of evaluation of two arguments open and
  both insert instructions, they are taken from left to right.
\<close>

record lower_tsms_io_state =
  payload_entry_bytes :: uint32_t
  draw_entry_bytes :: uint32_t
  num_entries :: uint32_t

record add_first_task_to_workgroup_id_state =
  hw_workgroup_id :: "nir_ssa_def option"
  api_workgroup_id :: "nir_ssa_def option"

fun filter_workgroup_id :: "nir_instr \<Rightarrow> bool" where
  "filter_workgroup_id (nir_instr_type_intrinsic intrin) =
     (intrinsic intrin = nir_intrinsic_load_workgroup_id)"
| "filter_workgroup_id _ = False"

text \<open>
  The comparison \<open>s->hw_workgroup_id == &intrin->dest.ssa\<close> is one of addresses: it
  holds when the two are the same SSA value, that is when their indices agree.
\<close>

fun replace_workgroup_id_use_first_task ::
  "nir_builder \<Rightarrow> nir_instr \<Rightarrow> add_first_task_to_workgroup_id_state
     \<Rightarrow> (nir_lower_result \<times> nir_builder) option" where
  "replace_workgroup_id_use_first_task b (nir_instr_type_intrinsic intrin) s =
     (case hw_workgroup_id s of
        None \<Rightarrow> None
      | Some hw \<Rightarrow>
          if (case dest intrin of Some d \<Rightarrow> index hw = index d | None \<Rightarrow> False)
          then Some (NIR_LOWER_INSTR_NULL, b)
          else (case api_workgroup_id s of
                  None \<Rightarrow> Some (NIR_LOWER_INSTR_NULL, b)
                | Some api \<Rightarrow> Some (NIR_LOWER_INSTR_DEF api, b)))"
| "replace_workgroup_id_use_first_task b _ s = None"

text \<open>
  The code \<open>ac_nir_apply_first_task_to_task_shader\<close> builds at the top of the entry
  point (from \<open>nir_load_task_ib_stride\<close> to \<open>nir_vec3\<close>); it returns the hardware
  workgroup id it loads and the API workgroup id it computes.
\<close>

definition ac_nir_apply_first_task_build ::
  "nir_builder \<Rightarrow> (nir_ssa_def \<times> nir_ssa_def) \<times> nir_builder" where
  "ac_nir_apply_first_task_build b =
     (let (ib_stride, b) = nir_load_task_ib_stride b;
          (zero, b) = nir_imm_int b 0;
          (cond, b) = nir_ine b ib_stride zero;
          b = nir_push_if b cond;
          (ib_addr, b) = nir_load_task_ib_addr b;
          (lo, b) = nir_channel b ib_addr 0;
          (hi, b) = nir_channel b ib_addr 1;
          (addr, b) = nir_pack_64_2x32_split b lo hi;
          (draw_id, b) = nir_load_draw_id b;
          (off, b) = nir_imul b draw_id ib_stride;
          (off64, b) = nir_u2u64 b off;
          (addr, b) = nir_iadd b addr off64;
          (addr, b) = nir_iadd_imm b addr 4;
          (first_task, b) =
             nir_build_load_global b 1 32 addr {ACCESS_NON_WRITEABLE, ACCESS_COHERENT};
          b = nir_pop_if b;
          (first_task, b) = nir_if_phi b first_task zero;
          (hw_workgroup_id, b) = nir_load_workgroup_id b 32;
          (hw_x, b) = nir_channel b hw_workgroup_id 0;
          (api_workgroup_id_x, b) = nir_iadd b hw_x first_task;
          (api_workgroup_id, b) = nir_vec3 b api_workgroup_id_x zero zero
      in ((hw_workgroup_id, api_workgroup_id), b))"

definition ac_nir_apply_first_task_to_task_shader :: "nir_shader \<Rightarrow> nir_shader option" where
  "ac_nir_apply_first_task_to_task_shader shader =
     (if SYSTEM_VALUE_WORKGROUP_ID \<notin> info_system_values_read shader then Some shader
      else
        let b = nir_builder_init shader;
            ((hw, api), b) = ac_nir_apply_first_task_build b;
            state = \<lparr>hw_workgroup_id = Some hw, api_workgroup_id = Some api\<rparr>;
            shader = shader\<lparr>impl_ssa_alloc := ssa_alloc b,
                            impl_body := inserted b @ impl_body shader\<rparr>
        in nir_shader_lower_instructions shader
             filter_workgroup_id replace_workgroup_id_use_first_task state)"

definition task_workgroup_index ::
  "nir_builder \<Rightarrow> lower_tsms_io_state \<Rightarrow> nir_ssa_def \<times> nir_builder" where
  "task_workgroup_index b s =
     (let (id, b) = nir_load_workgroup_id b 32
      in nir_channel b id 0)"

definition task_ring_entry_index ::
  "nir_builder \<Rightarrow> lower_tsms_io_state \<Rightarrow> nir_ssa_def \<times> nir_builder" where
  "task_ring_entry_index b s =
     (let (ring_entry, b) = nir_load_task_ring_entry_amd b;
          (workgroup_index, b) = task_workgroup_index b s;
          (idx, b) = nir_iadd_nuw b ring_entry workgroup_index
      in nir_iand_imm b idx (num_entries s - 1))"

definition task_draw_ready_bit ::
  "nir_builder \<Rightarrow> lower_tsms_io_state \<Rightarrow> nir_ssa_def \<times> nir_builder" where
  "task_draw_ready_bit b s =
     (let (ring_entry, b) = nir_load_task_ring_entry_amd b;
          (workgroup_index, b) = task_workgroup_index b s;
          (idx, b) = nir_iadd_nuw b ring_entry workgroup_index;
          (offset, b) = nir_imm_int b (of_nat (util_bitcount (num_entries s - 1)));
          (bits, b) = nir_imm_int b 1
      in nir_ubfe b idx offset bits)"

definition mesh_ring_entry_index ::
  "nir_builder \<Rightarrow> lower_tsms_io_state \<Rightarrow> nir_ssa_def \<times> nir_builder" where
  "mesh_ring_entry_index b s =
     (let (ring_entry, b) = nir_load_task_ring_entry_amd b
      in nir_iand_imm b ring_entry (num_entries s - 1))"

definition task_write_draw_ring ::
  "nir_builder \<Rightarrow> nir_ssa_def \<Rightarrow> int \<Rightarrow> lower_tsms_io_state \<Rightarrow> nir_builder" where
  "task_write_draw_ring b store_val const_off s =
     (let (ptr, b) = task_ring_entry_index b s;
          (ring, b) = nir_load_ring_task_draw_amd b;
          (scalar_off, b) = nir_imul_imm b ptr (draw_entry_bytes s);
          (vector_off, b) = nir_imm_int b 0
      in nir_store_buffer_amd b store_val ring vector_off scalar_off
           const_off 0 {nir_var_shader_out})"

fun filter_task_output_or_payload :: "nir_instr \<Rightarrow> bool" where
  "filter_task_output_or_payload (nir_instr_type_intrinsic intrin) =
     (intrinsic intrin = nir_intrinsic_store_output \<or>
      intrinsic intrin = nir_intrinsic_store_task_payload \<or>
      intrinsic intrin = nir_intrinsic_load_task_payload)"
| "filter_task_output_or_payload _ = False"

text \<open>
  The callbacks read \<open>intrin->src[0]\<close>, \<open>intrin->src[1]\<close> and \<open>intrin->dest\<close>.  The
  intrinsics they are called on have these; for an instruction that has not, the
  model gives \<open>None\<close>.
\<close>

definition lower_task_output_store ::
  "nir_builder \<Rightarrow> nir_intrinsic_instr \<Rightarrow> lower_tsms_io_state
     \<Rightarrow> (nir_lower_result \<times> nir_builder) option" where
  "lower_task_output_store b intrin s =
     (case src intrin of
        src0 # _ \<Rightarrow>
          let (one_y, b) = nir_imm_int b 1;
              (one_z, b) = nir_imm_int b 1;
              (store_val, b) = nir_vec3 b src0 one_y one_z;
              b = task_write_draw_ring b store_val 0 s
          in Some (NIR_LOWER_INSTR_PROGRESS_REPLACE, b)
      | [] \<Rightarrow> None)"

definition lower_task_payload_store ::
  "nir_builder \<Rightarrow> nir_intrinsic_instr \<Rightarrow> lower_tsms_io_state
     \<Rightarrow> (nir_lower_result \<times> nir_builder) option" where
  "lower_task_payload_store b intrin s =
     (case src intrin of
        store_val # addr # _ \<Rightarrow>
          let write_mask = nir_intrinsic_write_mask intrin;
              base = nir_intrinsic_base intrin;
              (ring, b) = nir_load_ring_task_payload_amd b;
              (ptr, b) = task_ring_entry_index b s;
              (ring_off, b) = nir_imul_imm b ptr (payload_entry_bytes s);
              b = nir_store_buffer_amd b store_val ring addr ring_off
                    base write_mask {nir_var_mem_task_payload}
          in Some (NIR_LOWER_INSTR_PROGRESS_REPLACE, b)
      | _ \<Rightarrow> None)"

definition lower_taskmesh_payload_load ::
  "nir_builder \<Rightarrow> nir_intrinsic_instr \<Rightarrow> lower_tsms_io_state
     \<Rightarrow> (nir_lower_result \<times> nir_builder) option" where
  "lower_taskmesh_payload_load b intrin s =
     (case (dest intrin, src intrin) of
        (Some d, addr # _) \<Rightarrow>
          let base = nir_intrinsic_base intrin;
              (ptr, b) =
                 (if shader_stage b = MESA_SHADER_TASK
                  then task_ring_entry_index b s
                  else mesh_ring_entry_index b s);
              (ring, b) = nir_load_ring_task_payload_amd b;
              (ring_off, b) = nir_imul_imm b ptr (payload_entry_bytes s);
              (r, b) = nir_load_buffer_amd b (num_components d) (bit_size d)
                         ring addr ring_off base {nir_var_mem_task_payload}
          in Some (NIR_LOWER_INSTR_DEF r, b)
      | _ \<Rightarrow> None)"

fun lower_task_intrinsics ::
  "nir_builder \<Rightarrow> nir_instr \<Rightarrow> lower_tsms_io_state \<Rightarrow> (nir_lower_result \<times> nir_builder) option" where
  "lower_task_intrinsics b (nir_instr_type_intrinsic intrin) s =
     (if intrinsic intrin = nir_intrinsic_store_output
      then lower_task_output_store b intrin s
      else if intrinsic intrin = nir_intrinsic_store_task_payload
      then lower_task_payload_store b intrin s
      else if intrinsic intrin = nir_intrinsic_load_task_payload
      then lower_taskmesh_payload_load b intrin s
      else None)"
| "lower_task_intrinsics b _ s = None"

definition emit_task_finale :: "nir_builder \<Rightarrow> lower_tsms_io_state \<Rightarrow> nir_builder" where
  "emit_task_finale b s =
     (let b = nir_scoped_barrier b NIR_SCOPE_WORKGROUP NIR_SCOPE_WORKGROUP NIR_MEMORY_ACQ_REL
                {nir_var_mem_task_payload, nir_var_shader_out, nir_var_mem_ssbo, nir_var_mem_global};
          (invocation_index, b) = nir_load_local_invocation_index b;
          (invocation_index_zero, b) = nir_ieq_imm b invocation_index 0;
          b = nir_push_if b invocation_index_zero;
          (ready_bit, b) = task_draw_ready_bit b s;
          b = task_write_draw_ring b ready_bit 12 s
      in nir_pop_if b)"

text \<open>
  \<open>ac_nir_lower_task_outputs_to_mem\<close>.  The builder of the source points at the
  function, so the finale allocates its SSA indices behind those the lowering has
  taken; its cursor stands behind the last block, so what it inserts comes last.
  \<open>nir_metadata_preserve\<close> and \<open>nir_validate_shader\<close> change no instruction.
\<close>

definition ac_nir_lower_task_outputs_to_mem ::
  "nir_shader \<Rightarrow> uint32_t \<Rightarrow> uint32_t \<Rightarrow> nir_shader option" where
  "ac_nir_lower_task_outputs_to_mem shader task_payload_entry_bytes task_num_entries =
     (if \<not> util_is_power_of_two_nonzero task_num_entries then None
      else
        let state = \<lparr>payload_entry_bytes = task_payload_entry_bytes,
                     draw_entry_bytes = 16,
                     num_entries = task_num_entries\<rparr>
        in case nir_shader_lower_instructions shader
                  filter_task_output_or_payload lower_task_intrinsics state of
             None \<Rightarrow> None
           | Some shader \<Rightarrow>
               let b = emit_task_finale (nir_builder_init shader) state
               in Some (shader\<lparr>impl_ssa_alloc := ssa_alloc b,
                                impl_body := impl_body shader @ inserted b\<rparr>))"

fun filter_mesh_input_load :: "nir_instr \<Rightarrow> bool" where
  "filter_mesh_input_load (nir_instr_type_intrinsic intrin) =
     (intrinsic intrin = nir_intrinsic_load_task_payload)"
| "filter_mesh_input_load _ = False"

fun lower_mesh_intrinsics ::
  "nir_builder \<Rightarrow> nir_instr \<Rightarrow> lower_tsms_io_state \<Rightarrow> (nir_lower_result \<times> nir_builder) option" where
  "lower_mesh_intrinsics b (nir_instr_type_intrinsic intrin) s =
     (if intrinsic intrin = nir_intrinsic_load_task_payload
      then lower_taskmesh_payload_load b intrin s
      else None)"
| "lower_mesh_intrinsics b _ s = None"

definition ac_nir_lower_mesh_inputs_to_mem ::
  "nir_shader \<Rightarrow> uint32_t \<Rightarrow> uint32_t \<Rightarrow> nir_shader option" where
  "ac_nir_lower_mesh_inputs_to_mem shader task_payload_entry_bytes task_num_entries =
     (if \<not> util_is_power_of_two_nonzero task_num_entries then None
      else
        let state = \<lparr>payload_entry_bytes = task_payload_entry_bytes,
                     draw_entry_bytes = 16,
                     num_entries = task_num_entries\<rparr>
        in nir_shader_lower_instructions shader
             filter_mesh_input_load lower_mesh_intrinsics state)"

section \<open>What the inserted instructions compute\<close>

text \<open>
  Modelled from the spec: the meaning of the NIR opcodes and intrinsics that the
  passes insert (nir\_opcodes.py, nir\_intrinsics.py) is not among the sources
  considered here.  The interpreter below runs a list of such instructions for one invocation.  It knows
  the opcodes of \<open>nir_op\<close> on 32-bit and 64-bit integers and the intrinsics the
  passes insert; on anything else, and on loops, it gives \<open>None\<close>.  \<open>iadd\<close> with the
  no-unsigned-wrap flag is the wrapping addition of the hardware.  Barriers and
  accesses to buffers and to global memory are recorded in order of execution.
\<close>

datatype nir_scalar = b1 bool | u32 uint32_t | u64 uint64_t | u_other nat nat

type_synonym nir_value = "nir_scalar list"

record nir_invocation =
  sv_workgroup_id :: "uint32_t \<times> uint32_t \<times> uint32_t"
  sv_local_invocation_index :: uint32_t
  sv_task_ring_entry :: uint32_t
  sv_ring_task_draw :: nir_value
  sv_ring_task_payload :: nir_value
  sv_task_ib_stride :: uint32_t
  sv_task_ib_addr :: "uint32_t \<times> uint32_t"
  sv_draw_id :: uint32_t
  global_memory :: "uint64_t \<Rightarrow> nat \<Rightarrow> nat \<Rightarrow> nir_value"
  buffer_memory :: "nir_value \<Rightarrow> uint32_t \<Rightarrow> uint32_t \<Rightarrow> int \<Rightarrow> nat \<Rightarrow> nat \<Rightarrow> nir_value"

datatype nir_effect =
    effect_barrier nir_scope nir_scope nir_memory_semantics "nir_variable_mode set"
  | effect_load_global uint64_t
  | effect_load_buffer (eff_descriptor: nir_value) (eff_v_offset: uint32_t) (eff_s_offset: uint32_t)
      (eff_base: int) "nir_variable_mode set"
  | effect_store_buffer (eff_descriptor: nir_value) (eff_v_offset: uint32_t) (eff_s_offset: uint32_t)
      (eff_base: int) (eff_value: nir_value) (eff_write_mask: nat) "nir_variable_mode set"

text \<open>
  The state of an invocation: the SSA values computed so far, the enclosing ifs (for
  each its condition and whether its else-branch has been entered), whether the
  then-branch of the if closed last was the one taken, and the effects so far.
\<close>

record nir_exec_state =
  ssa_values :: "nat \<Rightarrow> nir_value option"
  if_stack :: "(bool \<times> bool) list"
  last_if_taken :: bool
  effects :: "nir_effect list"

definition nir_active :: "nir_exec_state \<Rightarrow> bool" where
  "nir_active st = list_all (\<lambda>(c, in_else). c \<noteq> in_else) (if_stack st)"

text \<open>
  Modelled from the spec: \<open>ubfe\<close> as nir\_opcodes.py defines it.  Offset and width are
  taken modulo 32; a width of zero gives zero.
\<close>

definition nir_ubfe32 :: "uint32_t \<Rightarrow> uint32_t \<Rightarrow> uint32_t \<Rightarrow> uint32_t" where
  "nir_ubfe32 base offset bits =
     (let off = unat (offset AND 0x1F); n = unat (bits AND 0x1F)
      in if n = 0 then 0
         else if off + n < 32 then drop_bit (32 - n) (push_bit (32 - n - off) base)
         else drop_bit off base)"

fun nir_value_u32 :: "nir_value \<Rightarrow> uint32_t option" where
  "nir_value_u32 [u32 x] = Some x"
| "nir_value_u32 _ = None"

fun nir_value_u64 :: "nir_value \<Rightarrow> uint64_t option" where
  "nir_value_u64 [u64 x] = Some x"
| "nir_value_u64 _ = None"

fun nir_value_b1 :: "nir_value \<Rightarrow> bool option" where
  "nir_value_b1 [b1 x] = Some x"
| "nir_value_b1 _ = None"

fun nir_value_scalar :: "nir_value \<Rightarrow> nir_scalar option" where
  "nir_value_scalar [x] = Some x"
| "nir_value_scalar _ = None"

definition nir_unop32 :: "(uint32_t \<Rightarrow> nir_scalar) \<Rightarrow> nir_value list \<Rightarrow> nir_value option" where
  "nir_unop32 f vs =
     (case vs of
        [v] \<Rightarrow> (case nir_value_u32 v of Some x \<Rightarrow> Some [f x] | None \<Rightarrow> None)
      | _ \<Rightarrow> None)"

definition nir_binop32 ::
  "(uint32_t \<Rightarrow> uint32_t \<Rightarrow> nir_scalar) \<Rightarrow> nir_value list \<Rightarrow> nir_value option" where
  "nir_binop32 f vs =
     (case vs of
        [v, w] \<Rightarrow>
          (case (nir_value_u32 v, nir_value_u32 w) of
             (Some x, Some y) \<Rightarrow> Some [f x y]
           | _ \<Rightarrow> None)
      | _ \<Rightarrow> None)"

definition nir_binop64 ::
  "(uint64_t \<Rightarrow> uint64_t \<Rightarrow> nir_scalar) \<Rightarrow> nir_value list \<Rightarrow> nir_value option" where
  "nir_binop64 f vs =
     (case vs of
        [v, w] \<Rightarrow>
          (case (nir_value_u64 v, nir_value_u64 w) of
             (Some x, Some y) \<Rightarrow> Some [f x y]
           | _ \<Rightarrow> None)
      | _ \<Rightarrow> None)"

definition nir_unop64 :: "(uint64_t \<Rightarrow> nir_scalar) \<Rightarrow> nir_value list \<Rightarrow> nir_value option" where
  "nir_unop64 f vs =
     (case vs of
        [v] \<Rightarrow> (case nir_value_u64 v of Some x \<Rightarrow> Some [f x] | None \<Rightarrow> None)
      | _ \<Rightarrow> None)"

definition nir_first_of :: "'a option \<Rightarrow> 'a option \<Rightarrow> 'a option" where
  "nir_first_of a b = (case a of Some x \<Rightarrow> Some x | None \<Rightarrow> b)"

definition nir_eval_alu :: "nir_op \<Rightarrow> nir_value list \<Rightarrow> nir_value option" where
  "nir_eval_alu op vs =
     (case op of
        op_imm_int c \<Rightarrow> (if vs = [] then Some [u32 c] else None)
      | op_channel k \<Rightarrow>
          (case vs of [v] \<Rightarrow> (if k < length v then Some [v ! k] else None) | _ \<Rightarrow> None)
      | op_vec3 \<Rightarrow>
          (case vs of
             [vx, vy, vz] \<Rightarrow>
               (case (nir_value_scalar vx, nir_value_scalar vy, nir_value_scalar vz) of
                  (Some x, Some y, Some z) \<Rightarrow> Some [x, y, z]
                | _ \<Rightarrow> None)
           | _ \<Rightarrow> None)
      | op_iadd \<Rightarrow>
          nir_first_of (nir_binop32 (\<lambda>x y. u32 (x + y)) vs) (nir_binop64 (\<lambda>x y. u64 (x + y)) vs)
      | op_iadd_nuw \<Rightarrow>
          nir_first_of (nir_binop32 (\<lambda>x y. u32 (x + y)) vs) (nir_binop64 (\<lambda>x y. u64 (x + y)) vs)
      | op_iadd_imm c \<Rightarrow>
          nir_first_of (nir_unop32 (\<lambda>x. u32 (x + c)) vs) (nir_unop64 (\<lambda>x. u64 (x + ucast c)) vs)
      | op_imul \<Rightarrow> nir_binop32 (\<lambda>x y. u32 (x * y)) vs
      | op_imul_imm c \<Rightarrow> nir_unop32 (\<lambda>x. u32 (x * c)) vs
      | op_iand_imm c \<Rightarrow> nir_unop32 (\<lambda>x. u32 (x AND c)) vs
      | op_ine \<Rightarrow> nir_binop32 (\<lambda>x y. b1 (x \<noteq> y)) vs
      | op_ieq_imm c \<Rightarrow> nir_unop32 (\<lambda>x. b1 (x = c)) vs
      | op_ubfe \<Rightarrow>
          (case vs of
             [vx, vo, vn] \<Rightarrow>
               (case (nir_value_u32 vx, nir_value_u32 vo, nir_value_u32 vn) of
                  (Some x, Some offset, Some bits) \<Rightarrow> Some [u32 (nir_ubfe32 x offset bits)]
                | _ \<Rightarrow> None)
           | _ \<Rightarrow> None)
      | op_u2u64 \<Rightarrow> nir_unop32 (\<lambda>x. u64 (ucast x)) vs
      | op_pack_64_2x32_split \<Rightarrow>
          nir_binop32 (\<lambda>lo hi. u64 (ucast lo OR push_bit 32 (ucast hi))) vs
      | op_other k \<Rightarrow> None)"

fun nir_values_of :: "(nat \<Rightarrow> nir_value option) \<Rightarrow> nir_ssa_def list \<Rightarrow> nir_value list option" where
  "nir_values_of vals [] = Some []"
| "nir_values_of vals (s # ss) =
     (case vals (index s) of
        None \<Rightarrow> None
      | Some v \<Rightarrow> (case nir_values_of vals ss of None \<Rightarrow> None | Some vs \<Rightarrow> Some (v # vs)))"

definition nir_set_value :: "nir_ssa_def \<Rightarrow> nir_value \<Rightarrow> nir_exec_state \<Rightarrow> nir_exec_state" where
  "nir_set_value d v st = st\<lparr>ssa_values := (ssa_values st)(index d \<mapsto> v)\<rparr>"

definition nir_add_effect :: "nir_effect \<Rightarrow> nir_exec_state \<Rightarrow> nir_exec_state" where
  "nir_add_effect e st = st\<lparr>effects := effects st @ [e]\<rparr>"

definition nir_load_system_value :: "nir_invocation \<Rightarrow> nir_intrinsic_op \<Rightarrow> nir_value option" where
  "nir_load_system_value ctx op =
     (if op = nir_intrinsic_load_workgroup_id
      then (case sv_workgroup_id ctx of (x, y, z) \<Rightarrow> Some [u32 x, u32 y, u32 z])
      else if op = nir_intrinsic_load_local_invocation_index
      then Some [u32 (sv_local_invocation_index ctx)]
      else if op = nir_intrinsic_load_task_ring_entry_amd
      then Some [u32 (sv_task_ring_entry ctx)]
      else if op = nir_intrinsic_load_ring_task_draw_amd
      then Some (sv_ring_task_draw ctx)
      else if op = nir_intrinsic_load_ring_task_payload_amd
      then Some (sv_ring_task_payload ctx)
      else if op = nir_intrinsic_load_task_ib_stride
      then Some [u32 (sv_task_ib_stride ctx)]
      else if op = nir_intrinsic_load_task_ib_addr
      then (case sv_task_ib_addr ctx of (lo, hi) \<Rightarrow> Some [u32 lo, u32 hi])
      else if op = nir_intrinsic_load_draw_id
      then Some [u32 (sv_draw_id ctx)]
      else None)"

definition nir_exec_intrinsic ::
  "nir_invocation \<Rightarrow> nir_intrinsic_instr \<Rightarrow> nir_exec_state \<Rightarrow> nir_exec_state option" where
  "nir_exec_intrinsic ctx intrin st =
     (case nir_values_of (ssa_values st) (src intrin) of
        None \<Rightarrow> None
      | Some vs \<Rightarrow>
          if intrinsic intrin = nir_intrinsic_scoped_barrier
          then (if dest intrin = None \<and> vs = []
                then Some (nir_add_effect
                       (effect_barrier (nir_intrinsic_execution_scope intrin)
                          (nir_intrinsic_memory_scope intrin) (nir_intrinsic_memory_semantics intrin)
                          (nir_intrinsic_memory_modes intrin)) st)
                else None)
          else if intrinsic intrin = nir_intrinsic_store_buffer_amd
          then (case vs of
                  [val, descriptor, vo, so] \<Rightarrow>
                    (case (dest intrin, nir_value_u32 vo, nir_value_u32 so) of
                       (None, Some v_offset, Some s_offset) \<Rightarrow>
                         Some (nir_add_effect
                                 (effect_store_buffer descriptor v_offset s_offset
                                    (nir_intrinsic_base intrin) val (nir_intrinsic_write_mask intrin)
                                    (nir_intrinsic_memory_modes intrin)) st)
                     | _ \<Rightarrow> None)
                | _ \<Rightarrow> None)
          else if intrinsic intrin = nir_intrinsic_load_buffer_amd
          then (case vs of
                  [descriptor, vo, so] \<Rightarrow>
                    (case (dest intrin, nir_value_u32 vo, nir_value_u32 so) of
                       (Some d, Some v_offset, Some s_offset) \<Rightarrow>
                         Some (nir_set_value d
                                 (buffer_memory ctx descriptor v_offset s_offset
                                    (nir_intrinsic_base intrin) (num_components d) (bit_size d))
                                 (nir_add_effect
                                    (effect_load_buffer descriptor v_offset s_offset
                                       (nir_intrinsic_base intrin) (nir_intrinsic_memory_modes intrin))
                                    st))
                     | _ \<Rightarrow> None)
                | _ \<Rightarrow> None)
          else if intrinsic intrin = nir_intrinsic_load_global
          then (case vs of
                  [va] \<Rightarrow>
                    (case (dest intrin, nir_value_u64 va) of
                       (Some d, Some addr) \<Rightarrow>
                         Some (nir_set_value d
                                 (global_memory ctx addr (num_components d) (bit_size d))
                                 (nir_add_effect (effect_load_global addr) st))
                     | _ \<Rightarrow> None)
                | _ \<Rightarrow> None)
          else (case (dest intrin, nir_load_system_value ctx (intrinsic intrin)) of
                  (Some d, Some v) \<Rightarrow> (if vs = [] then Some (nir_set_value d v st) else None)
                | _ \<Rightarrow> None))"

fun nir_exec_instr :: "nir_invocation \<Rightarrow> nir_instr \<Rightarrow> nir_exec_state \<Rightarrow> nir_exec_state option" where
  "nir_exec_instr ctx (nir_if_begin condition) st =
     (if nir_active st
      then (case ssa_values st (index condition) of
              None \<Rightarrow> None
            | Some v \<Rightarrow>
                (case nir_value_b1 v of
                   None \<Rightarrow> None
                 | Some c \<Rightarrow> Some (st\<lparr>if_stack := (c, False) # if_stack st\<rparr>)))
      else Some (st\<lparr>if_stack := (False, False) # if_stack st\<rparr>))"
| "nir_exec_instr ctx nir_if_else st =
     (case if_stack st of
        [] \<Rightarrow> None
      | (c, in_else) # outer \<Rightarrow> Some (st\<lparr>if_stack := (c, True) # outer\<rparr>))"
| "nir_exec_instr ctx nir_if_end st =
     (case if_stack st of
        [] \<Rightarrow> None
      | (c, in_else) # outer \<Rightarrow> Some (st\<lparr>if_stack := outer, last_if_taken := c\<rparr>))"
| "nir_exec_instr ctx nir_loop_begin st = None"
| "nir_exec_instr ctx nir_loop_end st = None"
| "nir_exec_instr ctx (nir_instr_type_other k d srcs) st = None"
| "nir_exec_instr ctx (nir_instr_type_alu op d srcs) st =
     (if \<not> nir_active st then Some st
      else case nir_values_of (ssa_values st) srcs of
             None \<Rightarrow> None
           | Some vs \<Rightarrow>
               (case nir_eval_alu op vs of
                  None \<Rightarrow> None
                | Some v \<Rightarrow> Some (nir_set_value d v st)))"
| "nir_exec_instr ctx (nir_instr_type_phi d srcs) st =
     (if \<not> nir_active st then Some st
      else case srcs of
             [then_def, else_def] \<Rightarrow>
               (case ssa_values st (index (if last_if_taken st then then_def else else_def)) of
                  None \<Rightarrow> None
                | Some v \<Rightarrow> Some (nir_set_value d v st))
           | _ \<Rightarrow> None)"
| "nir_exec_instr ctx (nir_instr_type_intrinsic intrin) st =
     (if \<not> nir_active st then Some st else nir_exec_intrinsic ctx intrin st)"

fun nir_exec :: "nir_invocation \<Rightarrow> nir_instr list \<Rightarrow> nir_exec_state \<Rightarrow> nir_exec_state option" where
  "nir_exec ctx [] st = Some st"
| "nir_exec ctx (instr # instrs) st =
     (case nir_exec_instr ctx instr st of
        None \<Rightarrow> None
      | Some st' \<Rightarrow> nir_exec ctx instrs st')"

section \<open>Notions used to state the properties\<close>

text \<open>
  What NIR validation guarantees of the intrinsics the passes lower, as far as the
  callbacks rely on it: a store defines no value and has its value (and, for the
  payload, its address) as sources; a payload load defines a value, allocated in the
  function, and takes an address that is not its own result.
\<close>

fun nir_io_intrinsic_valid :: "nat \<Rightarrow> nir_instr \<Rightarrow> bool" where
  "nir_io_intrinsic_valid alloc (nir_instr_type_intrinsic intrin) =
     (if intrinsic intrin = nir_intrinsic_store_output
      then dest intrin = None \<and> 1 \<le> length (src intrin)
      else if intrinsic intrin = nir_intrinsic_store_task_payload
      then dest intrin = None \<and> 2 \<le> length (src intrin)
      else if intrinsic intrin = nir_intrinsic_load_task_payload
      then (case (dest intrin, src intrin) of
              (Some d, addr # _) \<Rightarrow> index d < alloc \<and> index addr \<noteq> index d
            | _ \<Rightarrow> False)
      else True)"
| "nir_io_intrinsic_valid alloc _ = True"

definition nir_io_valid :: "nir_shader \<Rightarrow> bool" where
  "nir_io_valid shader =
     list_all (nir_io_intrinsic_valid (impl_ssa_alloc shader)) (impl_body shader)"

text \<open>
  Likewise for the first-task pass: a \<open>load_workgroup_id\<close> defines a value, allocated
  in the function.
\<close>

fun nir_workgroup_id_valid :: "nat \<Rightarrow> nir_instr \<Rightarrow> bool" where
  "nir_workgroup_id_valid alloc (nir_instr_type_intrinsic intrin) =
     (if intrinsic intrin = nir_intrinsic_load_workgroup_id
      then (case dest intrin of Some d \<Rightarrow> index d < alloc | None \<Rightarrow> False)
      else True)"
| "nir_workgroup_id_valid alloc _ = True"

text \<open>Accesses to a buffer through a descriptor, which is what a ring access is.\<close>

fun nir_is_buffer_access :: "nir_instr \<Rightarrow> bool" where
  "nir_is_buffer_access (nir_instr_type_intrinsic intrin) =
     (intrinsic intrin = nir_intrinsic_load_buffer_amd \<or>
      intrinsic intrin = nir_intrinsic_store_buffer_amd)"
| "nir_is_buffer_access _ = False"

text \<open>Whether an instruction is an intrinsic with one of the given opcodes.\<close>

fun nir_instr_has_opcode :: "nir_intrinsic_op list \<Rightarrow> nir_instr \<Rightarrow> bool" where
  "nir_instr_has_opcode ops (nir_instr_type_intrinsic intrin) = (intrinsic intrin \<in> set ops)"
| "nir_instr_has_opcode ops _ = False"

text \<open>
  The SSA indices of the values that the instructions of a body with opcode
  \<open>load_workgroup_id\<close> define.
\<close>

definition nir_workgroup_id_defs :: "nir_instr list \<Rightarrow> nat list" where
  "nir_workgroup_id_defs body =
     map index (List.map_filter nir_instr_ssa_def
       (filter (nir_instr_has_opcode [nir_intrinsic_load_workgroup_id]) body))"

text \<open>Redirecting every use of one of several values to a new value.\<close>

definition nir_src_rewrite_all :: "nat list \<Rightarrow> nir_ssa_def \<Rightarrow> nir_ssa_def \<Rightarrow> nir_ssa_def" where
  "nir_src_rewrite_all olds new_def s = (if index s \<in> set olds then new_def else s)"


text \<open>
  What lowering a shader in place means.  The instructions of the body are taken in
  program order.  An instruction with one of the opcodes \<open>ops\<close> is handed to the
  callback \<open>cb\<close>, with a builder that has inserted nothing and allocates SSA indices
  from \<open>a\<close> on; the code the callback inserts stands where the instruction stood, and
  the next instruction is lowered with the indices that are left.  Every other
  instruction stays where it is.
\<close>

definition nir_callback_builder :: "gl_shader_stage \<Rightarrow> nat \<Rightarrow> nir_builder" where
  "nir_callback_builder stage a = \<lparr>shader_stage = stage, ssa_alloc = a, inserted = []\<rparr>"

fun nir_lowered_in_place ::
  "nir_intrinsic_op list \<Rightarrow> 's nir_lower_instr_cb \<Rightarrow> 's \<Rightarrow> gl_shader_stage
     \<Rightarrow> nat \<Rightarrow> nir_instr list \<Rightarrow> nir_instr list" where
  "nir_lowered_in_place ops cb s stage a [] = []"
| "nir_lowered_in_place ops cb s stage a (i # body) =
     (if nir_instr_has_opcode ops i
      then (case cb (nir_callback_builder stage a) i s of
              None \<Rightarrow> []
            | Some (res, b') \<Rightarrow>
                inserted b' @ nir_lowered_in_place ops cb s stage (ssa_alloc b') body)
      else i # nir_lowered_in_place ops cb s stage a body)"

text \<open>
  The redirections that go with it: for each instruction with one of the opcodes \<open>ops\<close>
  for which the callback returns a value, the SSA index of the value the instruction
  defined, with the value returned.
\<close>

fun nir_io_redirects ::
  "nir_intrinsic_op list \<Rightarrow> 's nir_lower_instr_cb \<Rightarrow> 's \<Rightarrow> gl_shader_stage
     \<Rightarrow> nat \<Rightarrow> nir_instr list \<Rightarrow> (nat \<times> nir_ssa_def) list" where
  "nir_io_redirects ops cb s stage a [] = []"
| "nir_io_redirects ops cb s stage a (i # body) =
     (if nir_instr_has_opcode ops i
      then (case cb (nir_callback_builder stage a) i s of
              None \<Rightarrow> []
            | Some (res, b') \<Rightarrow>
                (case (res, nir_instr_ssa_def i) of
                   (NIR_LOWER_INSTR_DEF r, Some d) \<Rightarrow> [(index d, r)]
                 | _ \<Rightarrow> [])
                @ nir_io_redirects ops cb s stage (ssa_alloc b') body)
      else nir_io_redirects ops cb s stage a body)"

definition nir_redirect :: "(nat \<times> nir_ssa_def) list \<Rightarrow> nir_ssa_def \<Rightarrow> nir_ssa_def" where
  "nir_redirect redirects s = (case map_of redirects (index s) of Some r \<Rightarrow> r | None \<Rightarrow> s)"

text \<open>
  The body of a shader lowered in place, with every use, in the whole body, of a value
  that a lowered instruction defined redirected to the value the callback returned for
  that instruction.
\<close>

definition nir_lowered_body ::
  "nir_intrinsic_op list \<Rightarrow> 's nir_lower_instr_cb \<Rightarrow> 's \<Rightarrow> nir_shader \<Rightarrow> nir_instr list" where
  "nir_lowered_body ops cb s shader =
     map (nir_instr_map_srcs
            (nir_redirect
               (nir_io_redirects ops cb s (info_stage shader) (impl_ssa_alloc shader)
                  (impl_body shader))))
       (nir_lowered_in_place ops cb s (info_stage shader) (impl_ssa_alloc shader)
          (impl_body shader))"

text \<open>
  In NIR a source points at the value it uses, so it has the number of components and
  the bit size of that value.  Here a source is a copy of the value; this says that
  every source that uses the value of a \<open>load_task_payload\<close> is a copy of that value.
\<close>

definition nir_payload_uses_consistent :: "nir_instr list \<Rightarrow> bool" where
  "nir_payload_uses_consistent body =
     list_all (\<lambda>i. nir_instr_has_opcode [nir_intrinsic_load_task_payload] i \<longrightarrow>
        (case nir_instr_ssa_def i of
           None \<Rightarrow> True
         | Some d \<Rightarrow>
             list_all (\<lambda>j. list_all (\<lambda>s. index s = index d \<longrightarrow> s = d) (nir_instr_srcs j)) body))
       body"

definition nir_io_uses_valid :: "nir_shader \<Rightarrow> bool" where
  "nir_io_uses_valid shader = nir_payload_uses_consistent (impl_body shader)"
section \<open>A small task shader and one invocation of it\<close>

text \<open>
  The inputs at which the theorems below are instantiated: a ring of four entries; an
  invocation of workgroup 1 with local index 0 whose ring entry argument is 4 (the
  first pass through the ring); a state in which the SSA values 0 and 1 hold 3 and 64;
  and a task shader that stores value 0 as its output, stores it to the payload at
  address 1 and loads it back.
\<close>

definition example_state :: lower_tsms_io_state where
  "example_state = \<lparr>payload_entry_bytes = 256, draw_entry_bytes = 16, num_entries = 4\<rparr>"

definition example_invocation :: nir_invocation where
  "example_invocation =
     \<lparr>sv_workgroup_id = (1, 0, 0), sv_local_invocation_index = 0, sv_task_ring_entry = 4,
      sv_ring_task_draw = [u32 1, u32 2, u32 3, u32 4],
      sv_ring_task_payload = [u32 5, u32 6, u32 7, u32 8],
      sv_task_ib_stride = 12, sv_task_ib_addr = (4096, 0), sv_draw_id = 2,
      global_memory = (\<lambda>addr nc bs. [u32 7]),
      buffer_memory = (\<lambda>descriptor v_offset s_offset base nc bs. [u32 9])\<rparr>"

definition example_def :: "nat \<Rightarrow> nat \<Rightarrow> nir_ssa_def" where
  "example_def i nc = \<lparr>index = i, num_components = nc, bit_size = 32\<rparr>"

definition example_exec_state :: nir_exec_state where
  "example_exec_state =
     \<lparr>ssa_values = [0 \<mapsto> [u32 3], 1 \<mapsto> [u32 64]], if_stack = [], last_if_taken = False,
      effects = []\<rparr>"

definition example_builder :: nir_builder where
  "example_builder = \<lparr>shader_stage = MESA_SHADER_TASK, ssa_alloc = 4, inserted = []\<rparr>"

definition example_store_output :: nir_intrinsic_instr where
  "example_store_output =
     (nir_intrinsic_instr_create nir_intrinsic_store_output)\<lparr>src := [example_def 0 1]\<rparr>"

definition example_store_task_payload :: nir_intrinsic_instr where
  "example_store_task_payload =
     (nir_intrinsic_instr_create nir_intrinsic_store_task_payload)
       \<lparr>src := [example_def 0 1, example_def 1 1], nir_intrinsic_write_mask := 1\<rparr>"

definition example_load_task_payload :: nir_intrinsic_instr where
  "example_load_task_payload =
     (nir_intrinsic_instr_create nir_intrinsic_load_task_payload)
       \<lparr>dest := Some (example_def 2 1), src := [example_def 1 1]\<rparr>"

definition example_load_workgroup_id :: nir_intrinsic_instr where
  "example_load_workgroup_id =
     (nir_intrinsic_instr_create nir_intrinsic_load_workgroup_id)\<lparr>dest := Some (example_def 3 3)\<rparr>"

definition example_shader :: nir_shader where
  "example_shader =
     \<lparr>info_stage = MESA_SHADER_TASK, info_system_values_read = {SYSTEM_VALUE_WORKGROUP_ID},
      impl_ssa_alloc = 4,
      impl_body =
        [nir_instr_type_alu (op_imm_int 3) (example_def 0 1) [],
         nir_instr_type_alu (op_imm_int 64) (example_def 1 1) [],
         nir_instr_type_intrinsic example_store_output,
         nir_instr_type_intrinsic example_store_task_payload,
         nir_instr_type_intrinsic example_load_task_payload,
         nir_instr_type_intrinsic example_load_workgroup_id,
         nir_instr_type_other 0 None [example_def 2 1, example_def 3 3]]\<rparr>"

text \<open>A mesh shader that loads what the task shader stored to the payload at address 1.\<close>

definition example_mesh_shader :: nir_shader where
  "example_mesh_shader =
     \<lparr>info_stage = MESA_SHADER_MESH, info_system_values_read = {},
      impl_ssa_alloc = 4,
      impl_body =
        [nir_instr_type_alu (op_imm_int 64) (example_def 1 1) [],
         nir_instr_type_intrinsic example_load_task_payload,
         nir_instr_type_other 0 None [example_def 2 1]]\<rparr>"

section \<open>Properties of the WSI shim\<close>

text \<open>
  C7, as the code has it: \<open>pvr_QueuePresentKHR\<close> returns exactly what
  \<open>wsi_common_queue_present\<close> returned, and on top of what that call did it adds one to
  the device's \<open>global_queue_present_count\<close> when the result is \<open>VK_SUCCESS\<close>; for any
  other result it leaves the device as the wrapped call left it.
\<close>

theorem pvr_QueuePresentKHR_result_and_count:
  "pvr_QueuePresentKHR w result device =
     (result,
      if result = VK_SUCCESS
      then device\<lparr>global_queue_present_count :=
                    p_atomic_inc w (global_queue_present_count device)\<rparr>
      else device)"
  by (simp add: pvr_QueuePresentKHR_def)

text \<open>
  C7 as stated (no state changes beyond the wrapped call's) fails on a successful
  present: with a 32-bit counter standing at 7 the device comes back with the counter
  at 8.
\<close>

theorem pvr_QueuePresentKHR_changes_count:
  "pvr_QueuePresentKHR 32 VK_SUCCESS \<lparr>global_queue_present_count = 7\<rparr>
     = (VK_SUCCESS, \<lparr>global_queue_present_count = 8\<rparr>)
   \<and> snd (pvr_QueuePresentKHR 32 VK_SUCCESS \<lparr>global_queue_present_count = 7\<rparr>)
     \<noteq> \<lparr>global_queue_present_count = 7\<rparr>"
  by (simp add: pvr_QueuePresentKHR_def p_atomic_inc_def)

text \<open>
  C6: when \<open>wsi_common_acquire_next_image2\<close> returns anything but \<open>VK_SUCCESS\<close> or
  \<open>VK_SUBOPTIMAL_KHR\<close>, \<open>pvr_AcquireNextImage2KHR\<close> returns that result and the fence and
  the semaphore are as they were.  Otherwise, when every dummy sync that has to be
  created is created, each provided fence and semaphore has lost its old temporary
  payload and holds a dummy sync instead, and the result of the wrapped call is
  returned as it is, \<open>VK_SUBOPTIMAL_KHR\<close> included.  When the creation for the fence
  fails, that failure is returned (the fence has been reset, the semaphore has not been
  touched); when the creation for the semaphore fails, that failure is returned (the
  semaphore has been reset).
\<close>

theorem pvr_AcquireNextImage2KHR_spec:
  "(result \<noteq> VK_SUCCESS \<and> result \<noteq> VK_SUBOPTIMAL_KHR \<longrightarrow>
      pvr_AcquireNextImage2KHR result create_fence create_sem fence sem = (result, fence, sem))
   \<and> ((result = VK_SUCCESS \<or> result = VK_SUBOPTIMAL_KHR) \<and>
       (fence = None \<or> create_fence = VK_SUCCESS) \<and> (sem = None \<or> create_sem = VK_SUCCESS) \<longrightarrow>
      pvr_AcquireNextImage2KHR result create_fence create_sem fence sem =
        (result,
         map_option (\<lambda>f. f\<lparr>fence_temporary := Some vk_sync_dummy_type\<rparr>) fence,
         map_option (\<lambda>s. s\<lparr>sem_temporary := Some vk_sync_dummy_type\<rparr>) sem))
   \<and> ((result = VK_SUCCESS \<or> result = VK_SUBOPTIMAL_KHR) \<and>
       fence \<noteq> None \<and> create_fence \<noteq> VK_SUCCESS \<longrightarrow>
      pvr_AcquireNextImage2KHR result create_fence create_sem fence sem =
        (create_fence, map_option vk_fence_reset_temporary fence, sem))
   \<and> ((result = VK_SUCCESS \<or> result = VK_SUBOPTIMAL_KHR) \<and>
       (fence = None \<or> create_fence = VK_SUCCESS) \<and> sem \<noteq> None \<and> create_sem \<noteq> VK_SUCCESS \<longrightarrow>
      pvr_AcquireNextImage2KHR result create_fence create_sem fence sem =
        (create_sem,
         map_option (\<lambda>f. f\<lparr>fence_temporary := Some vk_sync_dummy_type\<rparr>) fence,
         map_option vk_semaphore_reset_temporary sem))"
  by (cases fence; cases sem)
     (auto simp: pvr_AcquireNextImage2KHR_def vk_sync_create_def vk_fence_reset_temporary_def
        vk_semaphore_reset_temporary_def VK_SUCCESS_def VK_SUBOPTIMAL_KHR_def Let_def)

text \<open>
  C6 at concrete inputs, one for each of the four cases: an out-of-date swapchain, a suboptimal acquire with both objects given, a failed creation for the
  fence, and a failed creation for the semaphore with no fence given.
\<close>

theorem pvr_AcquireNextImage2KHR_spec_witness:
  "pvr_AcquireNextImage2KHR VK_ERROR_OUT_OF_DATE_KHR VK_SUCCESS VK_SUCCESS
      (Some \<lparr>fence_permanent = vk_sync_other_type 1, fence_temporary = Some (vk_sync_other_type 2)\<rparr>)
      (Some \<lparr>sem_permanent = vk_sync_other_type 3, sem_temporary = Some (vk_sync_other_type 4)\<rparr>)
    = (VK_ERROR_OUT_OF_DATE_KHR,
       Some \<lparr>fence_permanent = vk_sync_other_type 1, fence_temporary = Some (vk_sync_other_type 2)\<rparr>,
       Some \<lparr>sem_permanent = vk_sync_other_type 3, sem_temporary = Some (vk_sync_other_type 4)\<rparr>)
   \<and> pvr_AcquireNextImage2KHR VK_SUBOPTIMAL_KHR VK_SUCCESS VK_SUCCESS
      (Some \<lparr>fence_permanent = vk_sync_other_type 1, fence_temporary = Some (vk_sync_other_type 2)\<rparr>)
      (Some \<lparr>sem_permanent = vk_sync_other_type 3, sem_temporary = None\<rparr>)
    = (VK_SUBOPTIMAL_KHR,
       Some \<lparr>fence_permanent = vk_sync_other_type 1, fence_temporary = Some vk_sync_dummy_type\<rparr>,
       Some \<lparr>sem_permanent = vk_sync_other_type 3, sem_temporary = Some vk_sync_dummy_type\<rparr>)
   \<and> pvr_AcquireNextImage2KHR VK_SUCCESS VK_ERROR_OUT_OF_HOST_MEMORY VK_SUCCESS
      (Some \<lparr>fence_permanent = vk_sync_other_type 1, fence_temporary = Some (vk_sync_other_type 2)\<rparr>)
      (Some \<lparr>sem_permanent = vk_sync_other_type 3, sem_temporary = Some (vk_sync_other_type 4)\<rparr>)
    = (VK_ERROR_OUT_OF_HOST_MEMORY,
       Some \<lparr>fence_permanent = vk_sync_other_type 1, fence_temporary = None\<rparr>,
       Some \<lparr>sem_permanent = vk_sync_other_type 3, sem_temporary = Some (vk_sync_other_type 4)\<rparr>)
   \<and> pvr_AcquireNextImage2KHR VK_SUCCESS VK_SUCCESS VK_ERROR_OUT_OF_HOST_MEMORY
      None
      (Some \<lparr>sem_permanent = vk_sync_other_type 3, sem_temporary = Some (vk_sync_other_type 4)\<rparr>)
    = (VK_ERROR_OUT_OF_HOST_MEMORY,
       None,
       Some \<lparr>sem_permanent = vk_sync_other_type 3, sem_temporary = None\<rparr>)"
proof -
  let ?f = "Some \<lparr>fence_permanent = vk_sync_other_type 1, fence_temporary = Some (vk_sync_other_type 2)\<rparr>"
  let ?s = "Some \<lparr>sem_permanent = vk_sync_other_type 3, sem_temporary = Some (vk_sync_other_type 4)\<rparr>"
  let ?t = "Some \<lparr>sem_permanent = vk_sync_other_type 3, sem_temporary = None\<rparr>"
  note c = VK_SUCCESS_def VK_SUBOPTIMAL_KHR_def VK_ERROR_OUT_OF_DATE_KHR_def
    VK_ERROR_OUT_OF_HOST_MEMORY_def vk_fence_reset_temporary_def vk_semaphore_reset_temporary_def
  show ?thesis
    using pvr_AcquireNextImage2KHR_spec [of VK_ERROR_OUT_OF_DATE_KHR VK_SUCCESS VK_SUCCESS ?f ?s]
      pvr_AcquireNextImage2KHR_spec [of VK_SUBOPTIMAL_KHR VK_SUCCESS VK_SUCCESS ?f ?t]
      pvr_AcquireNextImage2KHR_spec [of VK_SUCCESS VK_ERROR_OUT_OF_HOST_MEMORY VK_SUCCESS ?f ?s]
      pvr_AcquireNextImage2KHR_spec [of VK_SUCCESS VK_SUCCESS VK_ERROR_OUT_OF_HOST_MEMORY None ?s]
    by (simp add: c)
qed

section \<open>Properties of the Bifrost test helpers\<close>

lemma memcmp_zero_iff: "memcmp p q n = 0 \<longleftrightarrow> (\<forall>i<n. p i = q i)"
proof (induction n arbitrary: p q)
  case 0
  show ?case by simp
next
  case (Suc n)
  show ?case
  proof (cases "p 0 = q 0")
    case True
    have "(\<forall>i<Suc n. p i = q i) \<longleftrightarrow> (\<forall>i<n. p (Suc i) = q (Suc i))"
      using True by (auto simp: less_Suc_eq_0_disj)
    with True Suc show ?thesis by simp
  next
    case False
    then show ?thesis by auto
  qed
qed

lemma bit_instr_equal_iff:
  "bit_instr_equal lh sz A B \<longleftrightarrow> (\<forall>k. lh \<le> k \<and> k < sz \<longrightarrow> A k = B k)"
proof -
  have "(\<forall>i < sz - lh. A (i + lh) = B (i + lh)) \<longleftrightarrow> (\<forall>k. lh \<le> k \<and> k < sz \<longrightarrow> A k = B k)"
  proof
    assume h: "\<forall>i < sz - lh. A (i + lh) = B (i + lh)"
    show "\<forall>k. lh \<le> k \<and> k < sz \<longrightarrow> A k = B k"
    proof (intro allI impI)
      fix k assume "lh \<le> k \<and> k < sz"
      then have "k - lh < sz - lh" "k - lh + lh = k" by auto
      with h show "A k = B k" by metis
    qed
  next
    assume "\<forall>k. lh \<le> k \<and> k < sz \<longrightarrow> A k = B k"
    then show "\<forall>i < sz - lh. A (i + lh) = B (i + lh)" by auto
  qed
  then show ?thesis by (simp add: bit_instr_equal_def memcmp_zero_iff)
qed

lemma bit_block_equal_loop_iff:
  "length A = length B \<Longrightarrow>
   bit_block_equal_loop lh sz A B \<longleftrightarrow> (\<forall>j<length A. bit_instr_equal lh sz (A ! j) (B ! j))"
proof (induction A B rule: list_induct2)
  case Nil
  show ?case by simp
next
  case (Cons a as b bs)
  then show ?case by (auto simp: less_Suc_eq_0_disj)
qed

lemma bit_block_equal_iff:
  "bit_block_equal lh sz A B \<longleftrightarrow>
     length A = length B \<and> (\<forall>j<length A. bit_instr_equal lh sz (A ! j) (B ! j))"
  by (auto simp: bit_block_equal_def bit_block_equal_loop_iff)

lemma bit_shader_equal_loop_iff:
  "length A = length B \<Longrightarrow>
   bit_shader_equal_loop lh sz A B \<longleftrightarrow> (\<forall>i<length A. bit_block_equal lh sz (A ! i) (B ! i))"
proof (induction A B rule: list_induct2)
  case Nil
  show ?case by simp
next
  case (Cons a as b bs)
  then show ?case by (auto simp: less_Suc_eq_0_disj)
qed

lemma bit_shader_equal_iff:
  "bit_shader_equal lh sz A B \<longleftrightarrow>
     length A = length B \<and> (\<forall>i<length A. bit_block_equal lh sz (A ! i) (B ! i))"
  by (auto simp: bit_shader_equal_def bit_shader_equal_loop_iff)

text \<open>
  C10: \<open>bit_shader_equal A B\<close> holds exactly when the two shaders have equally many
  blocks, blocks at the same position have equally many instructions, and instructions
  at the same position agree on every byte from offset \<open>sizeof (struct list_head)\<close> up
  to \<open>sizeof (bi_instr)\<close>, that is everywhere but in the leading link.  Hence the relation
  is reflexive and symmetric.
\<close>

theorem bit_shader_equal_spec:
  "(bit_shader_equal lh sz A B \<longleftrightarrow>
      length A = length B \<and>
      (\<forall>i<length A. length (A ! i) = length (B ! i) \<and>
         (\<forall>j<length (A ! i). \<forall>k. lh \<le> k \<and> k < sz \<longrightarrow> (A ! i ! j) k = (B ! i ! j) k)))
   \<and> bit_shader_equal lh sz A A
   \<and> (bit_shader_equal lh sz A B \<longleftrightarrow> bit_shader_equal lh sz B A)"
proof -
  have char: "\<And>X Y. bit_shader_equal lh sz X Y \<longleftrightarrow>
      length X = length Y \<and>
      (\<forall>i<length X. length (X ! i) = length (Y ! i) \<and>
         (\<forall>j<length (X ! i). \<forall>k. lh \<le> k \<and> k < sz \<longrightarrow> (X ! i ! j) k = (Y ! i ! j) k))"
    by (simp add: bit_shader_equal_iff bit_block_equal_iff bit_instr_equal_iff)
  have refl: "bit_shader_equal lh sz A A"
    by (simp add: char)
  have sym: "bit_shader_equal lh sz X Y \<Longrightarrow> bit_shader_equal lh sz Y X" for X Y
    unfolding char by simp
  from char [of A B] refl sym [of A B] sym [of B A] show ?thesis by blast
qed

text \<open>
  C10 for two one-instruction shaders with a two-byte link and four-byte instructions: a
  difference inside the link is not seen, a difference in the last byte is.
\<close>

theorem bit_shader_equal_spec_witness:
  "bit_shader_equal 2 4 [[\<lambda>i. if i < 2 then 7 else 1]] [[\<lambda>i. if i < 2 then 9 else 1]]
   \<and> \<not> bit_shader_equal 2 4 [[\<lambda>i. 1]] [[\<lambda>i. if i = 3 then 2 else 1]]"
  using bit_shader_equal_spec [of 2 4 "[[\<lambda>i. if i < 2 then 7 else 1]]" "[[\<lambda>i. if i < 2 then 9 else 1]]"]
        bit_shader_equal_spec [of 2 4 "[[\<lambda>i. 1]]" "[[\<lambda>i. if i = 3 then 2 else 1]]"]
  by auto

section \<open>Facts about 32-bit words used by the lowering\<close>

lemma unat_of_nat_and_31: "k < 32 \<Longrightarrow> unat ((of_nat k :: uint32_t) AND 0x1F) = k"
proof -
  assume k: "k < 32"
  have m: "(0x1F :: uint32_t) = mask 5" by (simp add: mask_eq_exp_minus_1)
  have "unat ((of_nat k :: uint32_t) AND mask 5) = take_bit 5 (take_bit 32 k)"
    by (simp add: unsigned_take_bit_eq unsigned_of_nat flip: take_bit_eq_mask)
  also have "\<dots> = k" using k by (simp add: take_bit_eq_mod)
  finally show ?thesis by (simp add: m)
qed

lemma unat_one_and_31: "unat ((1 :: uint32_t) AND 0x1F) = 1"
  by simp

lemma length_filter_less: "length (filter (\<lambda>i. i < k) [0..<n]) = min k n"
  by (induction n) auto

lemma util_bitcount_mask: "k < 32 \<Longrightarrow> util_bitcount (2 ^ k - 1) = k"
proof -
  assume k: "k < 32"
  have "filter (bit (2 ^ k - 1 :: uint32_t)) [0..<32] = filter (\<lambda>i. i < k) [0..<32]"
    by (rule filter_cong) (auto simp: bit_mask_iff simp flip: mask_eq_exp_minus_1)
  then show ?thesis using k
    unfolding util_bitcount_def by (simp only: length_filter_less)
qed

lemma drop_push_bit_eq: "k < 31 \<Longrightarrow> drop_bit 31 (push_bit (31 - k) (x :: uint32_t)) = (if bit x k then 1 else 0)"
  by (rule bit_word_eqI) (auto simp: bit_simps)

lemma drop_bit_31_eq: "drop_bit 31 (x :: uint32_t) = (if bit x 31 then 1 else 0)"
proof (rule bit_word_eqI)
  fix n assume "n < LENGTH(32)"
  show "bit (drop_bit 31 x) n \<longleftrightarrow> bit (if bit x 31 then 1 else 0 :: uint32_t) n"
  proof (cases "n = 0")
    case True
    then show ?thesis by (simp add: bit_simps)
  next
    case False
    then have "\<not> bit x (31 + n)" using bit_imp_le_length [of x "31 + n"] by auto
    with False show ?thesis by (simp add: bit_simps)
  qed
qed

lemma bit_iff_odd_unat_div: "bit (x :: uint32_t) k \<longleftrightarrow> odd (unat x div 2 ^ k)"
proof -
  have "bit x k \<longleftrightarrow> bit (unat x) k" by (simp add: bit_unsigned_iff)
  then show ?thesis by (simp add: bit_iff_odd)
qed

lemma filter_single:
  "length (filter P xs) = Suc 0 \<Longrightarrow> \<exists>x \<in> set xs. P x \<and> (\<forall>y \<in> set xs. P y \<longrightarrow> y = x)"
proof -
  assume "length (filter P xs) = Suc 0"
  then obtain x where x: "filter P xs = [x]"
    by (cases "filter P xs") auto
  then have "set (filter P xs) = {x}" by simp
  then have "x \<in> set xs \<and> P x \<and> (\<forall>y \<in> set xs. P y \<longrightarrow> y = x)" by auto
  then show ?thesis by blast
qed

lemma filter_single_upt:
  assumes "length (filter P [0..<n]) = Suc 0"
  shows "\<exists>k<n. P k \<and> (\<forall>j<n. P j \<longrightarrow> j = k)"
proof -
  from filter_single [OF assms]
  obtain x where x: "x \<in> set [0..<n]" "P x" "\<forall>y \<in> set [0..<n]. P y \<longrightarrow> y = x"
    by blast
  have "x < n" using x(1) by simp
  moreover have "\<forall>j<n. P j \<longrightarrow> j = x"
  proof (intro allI impI)
    fix j assume "j < n" "P j"
    then have "j \<in> set [0..<n]" by simp
    with x(3) \<open>P j\<close> show "j = x" by blast
  qed
  ultimately show ?thesis using x(2) by blast
qed

lemma util_bitcount_one_exp: "util_bitcount v = 1 \<Longrightarrow> \<exists>k<32. v = 2 ^ k"
proof -
  assume "util_bitcount v = 1"
  then have "length (filter (bit v) [0..<32]) = Suc 0"
    unfolding util_bitcount_def by (simp only: One_nat_def)
  from filter_single_upt [OF this]
  obtain k where k: "k < 32" "bit v k" "\<forall>j<32. bit v j \<longrightarrow> j = k"
    by blast
  have "v = 2 ^ k"
  proof (rule bit_word_eqI)
    fix n assume "n < LENGTH(32)"
    then have n: "n < 32" by simp
    then have "bit (2 ^ k :: uint32_t) n \<longleftrightarrow> n = k"
      by (simp add: bit_exp_iff)
    moreover have "bit v n \<longleftrightarrow> n = k"
      using k n by blast
    ultimately show "bit v n \<longleftrightarrow> bit (2 ^ k :: uint32_t) n" by simp
  qed
  with k show ?thesis by blast
qed

lemma filter_eq_upt: "k < n \<Longrightarrow> filter (\<lambda>i. i = k) [0..<n] = [k]"
proof (induction n)
  case 0
  then show ?case by simp
next
  case (Suc n)
  show ?case
  proof (cases "k < n")
    case True
    with Suc.IH show ?thesis by simp
  next
    case False
    with Suc.prems have kn: "k = n" by simp
    have "filter (\<lambda>i. i = n) [0..<n] = []" by (simp add: filter_empty_conv)
    with kn show ?thesis by simp
  qed
qed

lemma util_is_power_of_two_nonzero_exp: "k < 32 \<Longrightarrow> util_is_power_of_two_nonzero (2 ^ k)"
proof -
  assume k: "k < 32"
  have "filter (bit (2 ^ k :: uint32_t)) [0..<32] = filter (\<lambda>i. i = k) [0..<32]"
    using k by (intro filter_cong refl) (auto simp: bit_simps)
  also have "\<dots> = [k]" using k by (rule filter_eq_upt)
  finally show ?thesis
    unfolding util_is_power_of_two_nonzero_def util_bitcount_def by (simp only: list.size)
qed

lemma nir_ubfe32_one_bit:
  assumes "k < 32"
  shows "nir_ubfe32 x (of_nat k) 1 = (if bit x k then 1 else 0)"
proof (cases "k < 31")
  case True
  then show ?thesis using drop_push_bit_eq [OF True, of x]
    by (simp add: nir_ubfe32_def unat_of_nat_and_31 [OF assms] Let_def)
next
  case False
  with assms have "k = 31" by simp
  then show ?thesis using drop_bit_31_eq [of x]
    by (simp add: nir_ubfe32_def unat_of_nat_and_31 [OF assms] Let_def)
qed

lemma and_mask_less:
  assumes "(n :: uint32_t) \<noteq> 0"
  shows "unat (x AND (n - 1)) < unat n"
proof -
  have "x AND (n - 1) \<le> n - 1" by (rule word_and_le1)
  then have "unat (x AND (n - 1)) \<le> unat (n - 1)" by (simp add: word_le_nat_alt)
  also have "\<dots> = unat n - 1" using assms by (rule unat_minus_one)
  also have "\<dots> < unat n" using assms by (simp add: unat_gt_0)
  finally show ?thesis .
qed

lemma power_of_two_nonzero:
  "util_is_power_of_two_nonzero n \<Longrightarrow> n \<noteq> 0"
proof -
  assume "util_is_power_of_two_nonzero n"
  then obtain k where k: "k < 32" "n = 2 ^ k"
    using util_bitcount_one_exp by (auto simp: util_is_power_of_two_nonzero_def)
  then have "bit n k" by (simp add: bit_exp_iff)
  then show ?thesis by auto
qed

lemma power_of_two_log2:
  assumes "util_is_power_of_two_nonzero n"
  shows "util_bitcount (n - 1) < 32" and "n = 2 ^ util_bitcount (n - 1)"
    and "unat n = 2 ^ util_bitcount (n - 1)"
proof -
  from assms obtain k where k: "k < 32" "n = 2 ^ k"
    using util_bitcount_one_exp by (auto simp: util_is_power_of_two_nonzero_def)
  then have c: "util_bitcount (n - 1) = k" by (simp add: util_bitcount_mask)
  show "util_bitcount (n - 1) < 32" using k c by simp
  show "n = 2 ^ util_bitcount (n - 1)" using k c by simp
  have "(2 :: nat) ^ k < 2 ^ 32" using k(1) by (rule power_strict_increasing) simp
  then have "unat (2 ^ k :: uint32_t) = 2 ^ k"
    using unat_of_nat [where 'a = 32, of "2 ^ k"] by simp
  then show "unat n = 2 ^ util_bitcount (n - 1)" using k c by simp
qed

lemma ready_bit_value:
  assumes "util_is_power_of_two_nonzero n"
  shows "nir_ubfe32 x (of_nat (util_bitcount (n - 1))) 1 = (if odd (unat x div unat n) then 1 else 0)"
    and "nir_ubfe32 x (of_nat (util_bitcount (n - 1))) 1 = (if bit x (util_bitcount (n - 1)) then 1 else 0)"
  using power_of_two_log2 [OF assms]
  by (simp_all add: nir_ubfe32_one_bit bit_iff_odd_unat_div)

section \<open>Properties of the lowering passes\<close>

lemmas builder_defs =
  nir_builder_instr_insert_def nir_ssa_dest_init_def nir_build_alu_def nir_build_load_def
  nir_intrinsic_instr_create_def
  nir_imm_int_def nir_channel_def nir_vec3_def nir_iadd_def nir_iadd_nuw_def nir_iadd_imm_def
  nir_imul_def nir_imul_imm_def nir_iand_imm_def nir_ine_def nir_ieq_imm_def nir_ubfe_def
  nir_u2u64_def nir_pack_64_2x32_split_def nir_load_workgroup_id_def
  nir_load_local_invocation_index_def nir_load_task_ring_entry_amd_def
  nir_load_ring_task_draw_amd_def nir_load_ring_task_payload_amd_def nir_load_task_ib_stride_def
  nir_load_task_ib_addr_def nir_load_draw_id_def nir_build_load_global_def nir_load_buffer_amd_def
  nir_store_buffer_amd_def nir_scoped_barrier_def nir_push_if_def nir_pop_if_def nir_if_phi_def

lemmas emit_defs =
  task_workgroup_index_def task_ring_entry_index_def task_draw_ready_bit_def
  mesh_ring_entry_index_def task_write_draw_ring_def

lemma filter_task_map_srcs [simp]:
  "filter_task_output_or_payload (nir_instr_map_srcs g i) = filter_task_output_or_payload i"
  by (cases i) simp_all

lemma filter_mesh_map_srcs [simp]:
  "filter_mesh_input_load (nir_instr_map_srcs g i) = filter_mesh_input_load i"
  by (cases i) simp_all

lemma is_buffer_access_map_srcs [simp]:
  "nir_is_buffer_access (nir_instr_map_srcs g i) = nir_is_buffer_access i"
  by (cases i) simp_all

lemma length_filter_map_inv:
  "(\<And>x. P (g x) = P x) \<Longrightarrow> length (filter P (map g xs)) = length (filter P xs)"
  by (induction xs) auto

lemma list_all_map_inv:
  "(\<And>x. P (g x) = P x) \<Longrightarrow> list_all P (map g xs) = list_all P xs"
  by (induction xs) auto

lemma io_valid_mono:
  "nir_io_intrinsic_valid a i \<Longrightarrow> a \<le> a' \<Longrightarrow> nir_io_intrinsic_valid a' i"
  by (cases i) (auto split: option.splits list.splits)

lemma io_valid_rewrite:
  "nir_io_intrinsic_valid a i \<Longrightarrow> a \<le> index nd \<Longrightarrow>
   nir_io_intrinsic_valid a (nir_instr_map_srcs (nir_src_rewrite od nd) i)"
  by (cases i) (auto simp: nir_src_rewrite_def split: option.splits list.splits if_splits)

lemma lower_task_intrinsics_ok:
  assumes "filter_task_output_or_payload i" and "nir_io_intrinsic_valid (ssa_alloc b) i"
  shows "\<exists>res b'. lower_task_intrinsics (b\<lparr>inserted := []\<rparr>) i s = Some (res, b')
     \<and> ssa_alloc b \<le> ssa_alloc b' \<and> shader_stage b' = shader_stage b
     \<and> list_all (\<lambda>j. \<not> filter_task_output_or_payload j) (inserted b')
     \<and> length (filter nir_is_buffer_access (inserted b')) = 1
     \<and> (case res of
           NIR_LOWER_INSTR_PROGRESS_REPLACE \<Rightarrow> nir_instr_ssa_def i = None
         | NIR_LOWER_INSTR_DEF nd \<Rightarrow>
             (\<exists>od. nir_instr_ssa_def i = Some od \<and> nir_ssa_def_is_unused od (inserted b'))
             \<and> ssa_alloc b \<le> index nd
         | _ \<Rightarrow> False)"
proof (cases i)
  case (nir_instr_type_intrinsic intrin)
  consider (out) "intrinsic intrin = nir_intrinsic_store_output"
    | (st) "intrinsic intrin = nir_intrinsic_store_task_payload"
    | (ld) "intrinsic intrin = nir_intrinsic_load_task_payload"
    using assms(1) nir_instr_type_intrinsic by auto
  then show ?thesis
  proof cases
    case out
    with assms(2) nir_instr_type_intrinsic obtain v rest
      where "src intrin = v # rest" "dest intrin = None"
      by (cases "src intrin") auto
    with out nir_instr_type_intrinsic show ?thesis
      by (simp add: lower_task_output_store_def emit_defs builder_defs Let_def)
  next
    case st
    with assms(2) nir_instr_type_intrinsic obtain v addr rest
      where "src intrin = v # addr # rest" "dest intrin = None"
      by (cases "src intrin"; cases "tl (src intrin)") auto
    with st nir_instr_type_intrinsic show ?thesis
      by (simp add: lower_task_payload_store_def emit_defs builder_defs Let_def)
  next
    case ld
    with assms(2) nir_instr_type_intrinsic obtain d addr rest
      where "src intrin = addr # rest" "dest intrin = Some d"
        "index d < ssa_alloc b" "index addr \<noteq> index d"
      by (auto split: option.splits list.splits)
    with ld nir_instr_type_intrinsic show ?thesis
      by (simp add: lower_taskmesh_payload_load_def emit_defs builder_defs Let_def
            nir_ssa_def_is_unused_def)
  qed
qed (use assms in simp_all)

lemma lower_mesh_intrinsics_ok:
  assumes "filter_mesh_input_load i" and "nir_io_intrinsic_valid (ssa_alloc b) i"
  shows "\<exists>res b'. lower_mesh_intrinsics (b\<lparr>inserted := []\<rparr>) i s = Some (res, b')
     \<and> ssa_alloc b \<le> ssa_alloc b' \<and> shader_stage b' = shader_stage b
     \<and> list_all (\<lambda>j. \<not> filter_mesh_input_load j) (inserted b')
     \<and> length (filter nir_is_buffer_access (inserted b')) = 1
     \<and> (case res of
           NIR_LOWER_INSTR_PROGRESS_REPLACE \<Rightarrow> nir_instr_ssa_def i = None
         | NIR_LOWER_INSTR_DEF nd \<Rightarrow>
             (\<exists>od. nir_instr_ssa_def i = Some od \<and> nir_ssa_def_is_unused od (inserted b'))
             \<and> ssa_alloc b \<le> index nd
         | _ \<Rightarrow> False)"
proof (cases i)
  case (nir_instr_type_intrinsic intrin)
  have ld: "intrinsic intrin = nir_intrinsic_load_task_payload"
    using assms(1) nir_instr_type_intrinsic by auto
  with assms(2) nir_instr_type_intrinsic obtain d addr rest
    where "src intrin = addr # rest" "dest intrin = Some d"
      "index d < ssa_alloc b" "index addr \<noteq> index d"
    by (auto split: option.splits list.splits)
  with ld nir_instr_type_intrinsic show ?thesis
    by (simp add: lower_taskmesh_payload_load_def emit_defs builder_defs Let_def
          nir_ssa_def_is_unused_def)
qed (use assms in simp_all)

lemma lower_instructions_invariant:
  fixes filter_cb :: "nir_instr \<Rightarrow> bool"
  assumes cb: "\<And>b i. filter_cb i \<Longrightarrow> nir_io_intrinsic_valid (ssa_alloc b) i \<Longrightarrow>
      \<exists>res b'. lower_cb (b\<lparr>inserted := []\<rparr>) i s = Some (res, b')
        \<and> ssa_alloc b \<le> ssa_alloc b' \<and> shader_stage b' = shader_stage b
        \<and> list_all (\<lambda>j. \<not> filter_cb j) (inserted b')
        \<and> length (filter nir_is_buffer_access (inserted b')) = 1
        \<and> (case res of
              NIR_LOWER_INSTR_PROGRESS_REPLACE \<Rightarrow> nir_instr_ssa_def i = None
            | NIR_LOWER_INSTR_DEF nd \<Rightarrow>
                (\<exists>od. nir_instr_ssa_def i = Some od \<and> nir_ssa_def_is_unused od (inserted b'))
                \<and> ssa_alloc b \<le> index nd
            | _ \<Rightarrow> False)"
    and frw: "\<And>g i. filter_cb (nir_instr_map_srcs g i) = filter_cb i"
    and fbuf: "\<And>i. filter_cb i \<Longrightarrow> \<not> nir_is_buffer_access i"
  shows "list_all (\<lambda>j. \<not> filter_cb j) seen \<Longrightarrow>
         list_all (nir_io_intrinsic_valid (ssa_alloc b)) todo \<Longrightarrow>
         \<exists>b' body. nir_function_impl_lower_instructions filter_cb lower_cb s b seen todo = Some (b', body)
           \<and> list_all (\<lambda>j. \<not> filter_cb j) body
           \<and> ssa_alloc b \<le> ssa_alloc b' \<and> shader_stage b' = shader_stage b
           \<and> length (filter nir_is_buffer_access body) =
               length (filter nir_is_buffer_access seen) + length (filter nir_is_buffer_access todo)
               + length (filter filter_cb todo)"
proof (induction n \<equiv> "length todo" arbitrary: todo b seen)
  case 0
  then show ?case by simp
next
  case (Suc n todo0)
  then obtain i todo where todo0: "todo0 = i # todo" and len: "n = length todo"
    by (cases todo0) auto
  note prems = Suc.prems [unfolded todo0]
  have lenrw: "n = length (nir_ssa_def_rewrite_uses od nd todo)" for od nd
    using len by (simp add: nir_ssa_def_rewrite_uses_def)
  have "\<exists>b' body. nir_function_impl_lower_instructions filter_cb lower_cb s b seen (i # todo) = Some (b', body)
           \<and> list_all (\<lambda>j. \<not> filter_cb j) body
           \<and> ssa_alloc b \<le> ssa_alloc b' \<and> shader_stage b' = shader_stage b
           \<and> length (filter nir_is_buffer_access body) =
               length (filter nir_is_buffer_access seen) + length (filter nir_is_buffer_access (i # todo))
               + length (filter filter_cb (i # todo))"
  proof (cases "filter_cb i")
    case False
    from prems have "list_all (\<lambda>j. \<not> filter_cb j) (seen @ [i])"
      and "list_all (nir_io_intrinsic_valid (ssa_alloc b)) todo"
      using False by simp_all
    from Suc.hyps(1) [OF len this] False show ?thesis by auto
  next
    case True
    from prems have vi: "nir_io_intrinsic_valid (ssa_alloc b) i"
      and vt: "list_all (nir_io_intrinsic_valid (ssa_alloc b)) todo" by simp_all
    from cb [OF True vi] obtain res b1 where
      r: "lower_cb (b\<lparr>inserted := []\<rparr>) i s = Some (res, b1)"
      and al: "ssa_alloc b \<le> ssa_alloc b1" and stg: "shader_stage b1 = shader_stage b"
      and nf: "list_all (\<lambda>j. \<not> filter_cb j) (inserted b1)"
      and one: "length (filter nir_is_buffer_access (inserted b1)) = 1"
      and res: "case res of
              NIR_LOWER_INSTR_PROGRESS_REPLACE \<Rightarrow> nir_instr_ssa_def i = None
            | NIR_LOWER_INSTR_DEF nd \<Rightarrow>
                (\<exists>od. nir_instr_ssa_def i = Some od \<and> nir_ssa_def_is_unused od (inserted b1))
                \<and> ssa_alloc b \<le> index nd
            | _ \<Rightarrow> False"
      by blast
    have nb: "\<not> nir_is_buffer_access i" using fbuf [OF True] .
    show ?thesis
    proof (cases res)
      case NIR_LOWER_INSTR_PROGRESS_REPLACE
      with res have nd: "nir_instr_ssa_def i = None" by simp
      have 1: "list_all (\<lambda>j. \<not> filter_cb j) (seen @ inserted b1)"
        using prems(1) nf by simp
      have 2: "list_all (nir_io_intrinsic_valid (ssa_alloc b1)) todo"
        using vt al by (auto simp: list_all_iff intro: io_valid_mono)
      from Suc.hyps(1) [OF len 1 2] obtain b' body where
        "nir_function_impl_lower_instructions filter_cb lower_cb s b1 (seen @ inserted b1) todo
           = Some (b', body)"
        "list_all (\<lambda>j. \<not> filter_cb j) body" "ssa_alloc b1 \<le> ssa_alloc b'"
        "shader_stage b' = shader_stage b1"
        "length (filter nir_is_buffer_access body) =
           length (filter nir_is_buffer_access (seen @ inserted b1))
           + length (filter nir_is_buffer_access todo) + length (filter filter_cb todo)"
        by blast
      then show ?thesis
        using True r NIR_LOWER_INSTR_PROGRESS_REPLACE nd al stg one nb by simp
    next
      case (NIR_LOWER_INSTR_DEF new_def)
      with res obtain od where od: "nir_instr_ssa_def i = Some od"
        "nir_ssa_def_is_unused od (inserted b1)" and fresh: "ssa_alloc b \<le> index new_def"
        by auto
      let ?rw = "nir_ssa_def_rewrite_uses od new_def"
      have 1: "list_all (\<lambda>j. \<not> filter_cb j) (?rw seen @ inserted b1)"
        using prems(1) nf by (auto simp: nir_ssa_def_rewrite_uses_def list_all_iff frw)
      have "list_all (nir_io_intrinsic_valid (ssa_alloc b)) (?rw todo)"
        using vt fresh by (auto simp: nir_ssa_def_rewrite_uses_def list_all_iff intro: io_valid_rewrite)
      then have 2: "list_all (nir_io_intrinsic_valid (ssa_alloc b1)) (?rw todo)"
        using al by (auto simp: list_all_iff intro: io_valid_mono)
      from Suc.hyps(1) [OF lenrw 1 2] obtain b' body where
        "nir_function_impl_lower_instructions filter_cb lower_cb s b1 (?rw seen @ inserted b1) (?rw todo)
           = Some (b', body)"
        "list_all (\<lambda>j. \<not> filter_cb j) body" "ssa_alloc b1 \<le> ssa_alloc b'"
        "shader_stage b' = shader_stage b1"
        "length (filter nir_is_buffer_access body) =
           length (filter nir_is_buffer_access (?rw seen @ inserted b1))
           + length (filter nir_is_buffer_access (?rw todo)) + length (filter filter_cb (?rw todo))"
        by blast
      moreover have "length (filter nir_is_buffer_access (?rw seen)) = length (filter nir_is_buffer_access seen)"
        "length (filter nir_is_buffer_access (?rw todo)) = length (filter nir_is_buffer_access todo)"
        "length (filter filter_cb (?rw todo)) = length (filter filter_cb todo)"
        by (simp_all add: nir_ssa_def_rewrite_uses_def comp_def frw)
      ultimately show ?thesis
        using True r NIR_LOWER_INSTR_DEF od al stg one nb by simp
    qed (use res in simp_all)
  qed
  then show ?case by (simp only: todo0)
qed

lemmas exec_defs =
  nir_exec_intrinsic_def nir_load_system_value_def nir_eval_alu_def nir_unop32_def nir_binop32_def
  nir_unop64_def nir_binop64_def nir_first_of_def nir_set_value_def nir_add_effect_def
  nir_active_def

lemma exec_task_ring_entry_index:
  assumes "nir_active st"
  shows "\<exists>st'. nir_exec ctx (inserted (snd (task_ring_entry_index (b\<lparr>inserted := []\<rparr>) s))) st = Some st'
     \<and> ssa_values st' (index (fst (task_ring_entry_index (b\<lparr>inserted := []\<rparr>) s))) =
          Some [u32 ((sv_task_ring_entry ctx + fst (sv_workgroup_id ctx)) AND (num_entries s - 1))]
     \<and> effects st' = effects st"
  using assms
  by (cases "sv_workgroup_id ctx") (simp add: emit_defs builder_defs exec_defs Let_def)

lemma exec_mesh_ring_entry_index:
  assumes "nir_active st"
  shows "\<exists>st'. nir_exec ctx (inserted (snd (mesh_ring_entry_index (b\<lparr>inserted := []\<rparr>) s))) st = Some st'
     \<and> ssa_values st' (index (fst (mesh_ring_entry_index (b\<lparr>inserted := []\<rparr>) s))) =
          Some [u32 (sv_task_ring_entry ctx AND (num_entries s - 1))]
     \<and> effects st' = effects st"
  using assms
  by (simp add: emit_defs builder_defs exec_defs Let_def)

lemma exec_task_draw_ready_bit:
  assumes "nir_active st"
  shows "\<exists>st'. nir_exec ctx (inserted (snd (task_draw_ready_bit (b\<lparr>inserted := []\<rparr>) s))) st = Some st'
     \<and> ssa_values st' (index (fst (task_draw_ready_bit (b\<lparr>inserted := []\<rparr>) s))) =
          Some [u32 (nir_ubfe32 (sv_task_ring_entry ctx + fst (sv_workgroup_id ctx))
                       (of_nat (util_bitcount (num_entries s - 1))) 1)]
     \<and> effects st' = effects st"
  using assms
  by (cases "sv_workgroup_id ctx") (simp add: emit_defs builder_defs exec_defs Let_def)

lemma exec_emit_task_finale:
  assumes "nir_active st"
  shows "\<exists>st'. nir_exec ctx (inserted (emit_task_finale (b\<lparr>inserted := []\<rparr>) s)) st = Some st'
     \<and> effects st' = effects st @
          effect_barrier NIR_SCOPE_WORKGROUP NIR_SCOPE_WORKGROUP NIR_MEMORY_ACQ_REL
            {nir_var_mem_task_payload, nir_var_shader_out, nir_var_mem_ssbo, nir_var_mem_global}
          # (if sv_local_invocation_index ctx = 0
             then [effect_store_buffer (sv_ring_task_draw ctx) 0
                     (((sv_task_ring_entry ctx + fst (sv_workgroup_id ctx)) AND (num_entries s - 1))
                        * draw_entry_bytes s)
                     12
                     [u32 (nir_ubfe32 (sv_task_ring_entry ctx + fst (sv_workgroup_id ctx))
                             (of_nat (util_bitcount (num_entries s - 1))) 1)]
                     1 {nir_var_shader_out}]
             else [])"
  using assms
  by (cases "sv_workgroup_id ctx")
     (simp add: emit_task_finale_def emit_defs builder_defs exec_defs Let_def)

lemma exec_lower_task_output_store:
  assumes "nir_active st" and "src intrin = v # rest"
    and "ssa_values st (index v) = Some [x]" and "index v < ssa_alloc b"
  shows "\<exists>b'. lower_task_output_store (b\<lparr>inserted := []\<rparr>) intrin s
            = Some (NIR_LOWER_INSTR_PROGRESS_REPLACE, b')
     \<and> (\<exists>st'. nir_exec ctx (inserted b') st = Some st'
          \<and> effects st' = effects st @
               [effect_store_buffer (sv_ring_task_draw ctx) 0
                  (((sv_task_ring_entry ctx + fst (sv_workgroup_id ctx)) AND (num_entries s - 1))
                     * draw_entry_bytes s)
                  0 [x, u32 1, u32 1] 7 {nir_var_shader_out}])"
  using assms
  by (cases "sv_workgroup_id ctx")
     (simp add: lower_task_output_store_def emit_defs builder_defs exec_defs Let_def)

lemma exec_lower_task_payload_store:
  assumes "nir_active st" and "src intrin = v # addr # rest"
    and "ssa_values st (index v) = Some val" and "ssa_values st (index addr) = Some [u32 a]"
    and "index v < ssa_alloc b" and "index addr < ssa_alloc b"
  shows "\<exists>b'. lower_task_payload_store (b\<lparr>inserted := []\<rparr>) intrin s
            = Some (NIR_LOWER_INSTR_PROGRESS_REPLACE, b')
     \<and> (\<exists>st'. nir_exec ctx (inserted b') st = Some st'
          \<and> effects st' = effects st @
               [effect_store_buffer (sv_ring_task_payload ctx) a
                  (((sv_task_ring_entry ctx + fst (sv_workgroup_id ctx)) AND (num_entries s - 1))
                     * payload_entry_bytes s)
                  (nir_intrinsic_base intrin) val
                  (if nir_intrinsic_write_mask intrin = 0 then 2 ^ num_components v - 1
                   else nir_intrinsic_write_mask intrin)
                  {nir_var_mem_task_payload}])"
  using assms
  by (cases "sv_workgroup_id ctx")
     (simp add: lower_task_payload_store_def emit_defs builder_defs exec_defs Let_def)

lemma exec_lower_taskmesh_payload_load:
  assumes "nir_active st" and "src intrin = addr # rest" and "dest intrin = Some d"
    and "ssa_values st (index addr) = Some [u32 a]" and "index addr < ssa_alloc b"
  shows "\<exists>r b'. lower_taskmesh_payload_load (b\<lparr>inserted := []\<rparr>) intrin s
            = Some (NIR_LOWER_INSTR_DEF r, b')
     \<and> num_components r = num_components d \<and> bit_size r = bit_size d
     \<and> (\<exists>st'. nir_exec ctx (inserted b') st = Some st'
          \<and> effects st' = effects st @
               [effect_load_buffer (sv_ring_task_payload ctx) a
                  ((if shader_stage b = MESA_SHADER_TASK
                    then (sv_task_ring_entry ctx + fst (sv_workgroup_id ctx)) AND (num_entries s - 1)
                    else sv_task_ring_entry ctx AND (num_entries s - 1))
                     * payload_entry_bytes s)
                  (nir_intrinsic_base intrin) {nir_var_mem_task_payload}]
          \<and> ssa_values st' (index r) =
               Some (buffer_memory ctx (sv_ring_task_payload ctx) a
                  ((if shader_stage b = MESA_SHADER_TASK
                    then (sv_task_ring_entry ctx + fst (sv_workgroup_id ctx)) AND (num_entries s - 1)
                    else sv_task_ring_entry ctx AND (num_entries s - 1))
                     * payload_entry_bytes s)
                  (nir_intrinsic_base intrin) (num_components d) (bit_size d)))"
  using assms
  by (cases "sv_workgroup_id ctx")
     (simp add: lower_taskmesh_payload_load_def emit_defs builder_defs exec_defs Let_def)

lemma exec_task_write_draw_ring:
  assumes "nir_active st" and "ssa_values st (index v) = Some val" and "index v < ssa_alloc b"
  shows "\<exists>st'. nir_exec ctx (inserted (task_write_draw_ring (b\<lparr>inserted := []\<rparr>) v const_off s)) st = Some st'
     \<and> effects st' = effects st @
          [effect_store_buffer (sv_ring_task_draw ctx) 0
             (((sv_task_ring_entry ctx + fst (sv_workgroup_id ctx)) AND (num_entries s - 1))
                * draw_entry_bytes s)
             const_off val (2 ^ num_components v - 1) {nir_var_shader_out}]"
  using assms
  by (cases "sv_workgroup_id ctx") (simp add: emit_defs builder_defs exec_defs Let_def)

lemma filter_workgroup_id_map_srcs [simp]:
  "filter_workgroup_id (nir_instr_map_srcs g i) = filter_workgroup_id i"
  by (cases i) simp_all

lemma filter_workgroup_id_opcode:
  "nir_instr_has_opcode [nir_intrinsic_load_workgroup_id] i = filter_workgroup_id i"
  by (cases i) simp_all

lemma nir_instr_ssa_def_map_srcs [simp]:
  "nir_instr_ssa_def (nir_instr_map_srcs g i) = nir_instr_ssa_def i"
  by (cases i) simp_all

lemma nir_instr_map_srcs_comp:
  "nir_instr_map_srcs g (nir_instr_map_srcs h i) = nir_instr_map_srcs (\<lambda>s. g (h s)) i"
  by (cases i) simp_all

lemma nir_instr_map_srcs_cong:
  "(\<And>s. s \<in> set (nir_instr_srcs i) \<Longrightarrow> g s = h s) \<Longrightarrow> nir_instr_map_srcs g i = nir_instr_map_srcs h i"
  by (cases i) simp_all

lemma nir_instr_map_srcs_ident:
  "(\<And>s. s \<in> set (nir_instr_srcs i) \<Longrightarrow> g s = s) \<Longrightarrow> nir_instr_map_srcs g i = i"
  by (cases i) (simp_all add: map_idI)

lemma nir_workgroup_id_defs_map_srcs [simp]:
  "nir_workgroup_id_defs (map (nir_instr_map_srcs g) body) = nir_workgroup_id_defs body"
  by (induction body)
     (simp_all add: nir_workgroup_id_defs_def filter_workgroup_id_opcode List.map_filter_simps
        split: option.splits)

lemma nir_workgroup_id_defs_Cons:
  "nir_workgroup_id_defs (i # body) =
     (if filter_workgroup_id i
      then (case nir_instr_ssa_def i of Some d \<Rightarrow> [index d] | None \<Rightarrow> [])
      else []) @ nir_workgroup_id_defs body"
  by (simp add: nir_workgroup_id_defs_def filter_workgroup_id_opcode List.map_filter_simps
        split: option.splits)

lemma filter_map_srcs_workgroup:
  "filter (\<lambda>i. \<not> filter_workgroup_id i) (map (nir_instr_map_srcs g) xs)
     = map (nir_instr_map_srcs g) (filter (\<lambda>i. \<not> filter_workgroup_id i) xs)"
  by (induction xs) simp_all

lemma apply_first_task_loop:
  assumes "list_all (\<lambda>i. filter_workgroup_id i \<longrightarrow>
             (\<exists>d. nir_instr_ssa_def i = Some d \<and> index d \<noteq> index hw)) todo"
  shows "\<exists>b'. nir_function_impl_lower_instructions filter_workgroup_id
            replace_workgroup_id_use_first_task
            \<lparr>hw_workgroup_id = Some hw, api_workgroup_id = Some api\<rparr> b seen todo
          = Some (b',
              map (nir_instr_map_srcs (nir_src_rewrite_all (nir_workgroup_id_defs todo) api)) seen
              @ map (nir_instr_map_srcs (nir_src_rewrite_all (nir_workgroup_id_defs todo) api))
                  (filter (\<lambda>i. \<not> filter_workgroup_id i) todo))
        \<and> ssa_alloc b' = ssa_alloc b"
  using assms
proof (induction n \<equiv> "length todo" arbitrary: todo b seen)
  case 0
  then show ?case
    by (simp add: nir_workgroup_id_defs_def List.map_filter_simps nir_src_rewrite_all_def
          nir_instr_map_srcs_ident map_idI)
next
  case (Suc n todo0)
  then obtain i todo where todo0: "todo0 = i # todo" and len: "n = length todo"
    by (cases todo0) auto
  let ?s = "\<lparr>hw_workgroup_id = Some hw, api_workgroup_id = Some api\<rparr>"
  let ?P = "\<lambda>i. filter_workgroup_id i \<longrightarrow>
             (\<exists>d. nir_instr_ssa_def i = Some d \<and> index d \<noteq> index hw)"
  from Suc.prems todo0 have pi: "?P i" and pt: "list_all ?P todo" by simp_all
  have "\<exists>b'. nir_function_impl_lower_instructions filter_workgroup_id
            replace_workgroup_id_use_first_task ?s b seen (i # todo)
          = Some (b',
              map (nir_instr_map_srcs (nir_src_rewrite_all (nir_workgroup_id_defs (i # todo)) api)) seen
              @ map (nir_instr_map_srcs (nir_src_rewrite_all (nir_workgroup_id_defs (i # todo)) api))
                  (filter (\<lambda>i. \<not> filter_workgroup_id i) (i # todo)))
        \<and> ssa_alloc b' = ssa_alloc b"
  proof (cases "filter_workgroup_id i")
    case False
    from Suc.hyps(1) [OF len pt, of b "seen @ [i]"] False show ?thesis
      by (simp add: nir_workgroup_id_defs_Cons)
  next
    case True
    with pi obtain d where d: "nir_instr_ssa_def i = Some d" "index d \<noteq> index hw" by blast
    from True obtain intrin where i: "i = nir_instr_type_intrinsic intrin"
      by (cases i) simp_all
    let ?rw = "nir_ssa_def_rewrite_uses d api"
    have lenrw: "n = length (?rw todo)" using len by (simp add: nir_ssa_def_rewrite_uses_def)
    have ptrw: "list_all ?P (?rw todo)"
      using pt by (simp add: nir_ssa_def_rewrite_uses_def list_all_iff)
    have step: "nir_function_impl_lower_instructions filter_workgroup_id
            replace_workgroup_id_use_first_task ?s b seen (i # todo)
          = nir_function_impl_lower_instructions filter_workgroup_id
            replace_workgroup_id_use_first_task ?s (b\<lparr>inserted := []\<rparr>) (?rw seen) (?rw todo)"
      using True d i by (auto simp: nir_ssa_def_is_unused_def)
    have comp: "nir_src_rewrite_all (nir_workgroup_id_defs todo) api (nir_src_rewrite d api s)
                  = nir_src_rewrite_all (index d # nir_workgroup_id_defs todo) api s" for s
      by (simp add: nir_src_rewrite_all_def nir_src_rewrite_def)
    from Suc.hyps(1) [OF lenrw ptrw, of "b\<lparr>inserted := []\<rparr>" "?rw seen"]
    show ?thesis
      unfolding step using True d
      by (simp add: nir_workgroup_id_defs_Cons nir_ssa_def_rewrite_uses_def
            nir_instr_map_srcs_comp comp filter_map_srcs_workgroup comp_def)
  qed
  then show ?case by (simp only: todo0)
qed

lemma first_task_build_loop:
  assumes "ac_nir_apply_first_task_build (b\<lparr>inserted := []\<rparr>) = ((hw, api), b')"
  shows "nir_function_impl_lower_instructions filter_workgroup_id
            replace_workgroup_id_use_first_task
            \<lparr>hw_workgroup_id = Some hw, api_workgroup_id = Some api\<rparr> b0 seen (inserted b' @ todo)
       = nir_function_impl_lower_instructions filter_workgroup_id
            replace_workgroup_id_use_first_task
            \<lparr>hw_workgroup_id = Some hw, api_workgroup_id = Some api\<rparr> (b0\<lparr>inserted := []\<rparr>)
            (seen @ inserted b') todo"
  using assms
  by (auto simp: ac_nir_apply_first_task_build_def builder_defs Let_def)

lemma first_task_build_fresh:
  assumes "ac_nir_apply_first_task_build (b\<lparr>inserted := []\<rparr>) = ((hw, api), b')"
  shows "ssa_alloc b \<le> index hw"
    and "list_all (\<lambda>i. list_all (\<lambda>s. ssa_alloc b \<le> index s) (nir_instr_srcs i)) (inserted b')"
    and "ssa_alloc b' = ssa_alloc b + 18"
  using assms
  by (auto simp: ac_nir_apply_first_task_build_def builder_defs Let_def)

lemma exec_first_task_build:
  assumes "nir_active st"
    and "sv_task_ib_stride ctx \<noteq> 0 \<longrightarrow>
         global_memory ctx
           ((ucast (fst (sv_task_ib_addr ctx)) OR push_bit 32 (ucast (snd (sv_task_ib_addr ctx))))
              + ucast (sv_draw_id ctx * sv_task_ib_stride ctx) + 4) 1 32 = [u32 ft]"
    and "ac_nir_apply_first_task_build (b\<lparr>inserted := []\<rparr>) = ((hw, api), b')"
  shows "\<exists>st'. nir_exec ctx (inserted b') st = Some st'
     \<and> ssa_values st' (index hw) =
          Some [u32 (fst (sv_workgroup_id ctx)), u32 (fst (snd (sv_workgroup_id ctx))),
                u32 (snd (snd (sv_workgroup_id ctx)))]
     \<and> ssa_values st' (index api) =
          Some [u32 (fst (sv_workgroup_id ctx) + (if sv_task_ib_stride ctx = 0 then 0 else ft)),
                u32 0, u32 0]
     \<and> effects st' = effects st @
          (if sv_task_ib_stride ctx = 0 then []
           else [effect_load_global
                   ((ucast (fst (sv_task_ib_addr ctx)) OR push_bit 32 (ucast (snd (sv_task_ib_addr ctx))))
                      + ucast (sv_draw_id ctx * sv_task_ib_stride ctx) + 4)])"
  using assms
  by (cases "sv_workgroup_id ctx"; cases "sv_task_ib_addr ctx")
     (auto simp: ac_nir_apply_first_task_build_def builder_defs exec_defs Let_def)

lemma nir_workgroup_id_valid_dest:
  "nir_workgroup_id_valid a i \<Longrightarrow> filter_workgroup_id i \<Longrightarrow>
   \<exists>d. nir_instr_ssa_def i = Some d \<and> index d < a"
  by (cases i) (auto split: option.splits if_splits)

lemma nir_workgroup_id_defs_bound:
  "list_all (nir_workgroup_id_valid a) body \<Longrightarrow> \<forall>d \<in> set (nir_workgroup_id_defs body). d < a"
proof (induction body)
  case Nil
  then show ?case by (simp add: nir_workgroup_id_defs_def List.map_filter_simps)
next
  case (Cons i body)
  from Cons.prems have vi: "nir_workgroup_id_valid a i"
    and vb: "list_all (nir_workgroup_id_valid a) body" by simp_all
  from Cons.IH [OF vb] have IH: "\<forall>d \<in> set (nir_workgroup_id_defs body). d < a" .
  show ?case
  proof (cases "filter_workgroup_id i")
    case True
    from nir_workgroup_id_valid_dest [OF vi True] obtain d
      where "nir_instr_ssa_def i = Some d" "index d < a" by blast
    with True IH show ?thesis by (simp add: nir_workgroup_id_defs_Cons)
  next
    case False
    with IH show ?thesis by (simp add: nir_workgroup_id_defs_Cons)
  qed
qed

lemma filter_task_not_buffer_access:
  "filter_task_output_or_payload i \<Longrightarrow> \<not> nir_is_buffer_access i"
  by (cases i) auto

lemma filter_mesh_not_buffer_access:
  "filter_mesh_input_load i \<Longrightarrow> \<not> nir_is_buffer_access i"
  by (cases i) auto

lemma task_lower_instructions:
  assumes "nir_io_valid shader"
  shows "\<exists>lowered.
      nir_shader_lower_instructions shader filter_task_output_or_payload lower_task_intrinsics s
        = Some lowered
      \<and> list_all (\<lambda>j. \<not> filter_task_output_or_payload j) (impl_body lowered)
      \<and> length (filter nir_is_buffer_access (impl_body lowered)) =
          length (filter nir_is_buffer_access (impl_body shader))
          + length (filter filter_task_output_or_payload (impl_body shader))"
proof -
  have "\<exists>b' body. nir_function_impl_lower_instructions filter_task_output_or_payload
            lower_task_intrinsics s (nir_builder_init shader) [] (impl_body shader) = Some (b', body)
           \<and> list_all (\<lambda>j. \<not> filter_task_output_or_payload j) body
           \<and> ssa_alloc (nir_builder_init shader) \<le> ssa_alloc b'
           \<and> shader_stage b' = shader_stage (nir_builder_init shader)
           \<and> length (filter nir_is_buffer_access body) =
               length (filter nir_is_buffer_access []) + length (filter nir_is_buffer_access (impl_body shader))
               + length (filter filter_task_output_or_payload (impl_body shader))"
    by (rule lower_instructions_invariant
          [OF lower_task_intrinsics_ok filter_task_map_srcs filter_task_not_buffer_access])
       (use assms in \<open>simp_all add: nir_io_valid_def nir_builder_init_def\<close>)
  then show ?thesis
    by (auto simp: nir_shader_lower_instructions_def)
qed

lemma mesh_lower_instructions:
  assumes "nir_io_valid shader"
  shows "\<exists>lowered.
      nir_shader_lower_instructions shader filter_mesh_input_load lower_mesh_intrinsics s
        = Some lowered
      \<and> list_all (\<lambda>j. \<not> filter_mesh_input_load j) (impl_body lowered)
      \<and> length (filter nir_is_buffer_access (impl_body lowered)) =
          length (filter nir_is_buffer_access (impl_body shader))
          + length (filter filter_mesh_input_load (impl_body shader))"
proof -
  have "\<exists>b' body. nir_function_impl_lower_instructions filter_mesh_input_load
            lower_mesh_intrinsics s (nir_builder_init shader) [] (impl_body shader) = Some (b', body)
           \<and> list_all (\<lambda>j. \<not> filter_mesh_input_load j) body
           \<and> ssa_alloc (nir_builder_init shader) \<le> ssa_alloc b'
           \<and> shader_stage b' = shader_stage (nir_builder_init shader)
           \<and> length (filter nir_is_buffer_access body) =
               length (filter nir_is_buffer_access []) + length (filter nir_is_buffer_access (impl_body shader))
               + length (filter filter_mesh_input_load (impl_body shader))"
    by (rule lower_instructions_invariant
          [OF lower_mesh_intrinsics_ok filter_mesh_map_srcs filter_mesh_not_buffer_access])
       (use assms in \<open>simp_all add: nir_io_valid_def nir_builder_init_def\<close>)
  then show ?thesis
    by (auto simp: nir_shader_lower_instructions_def)
qed

lemma emit_task_finale_structure:
  "list_all (\<lambda>j. \<not> filter_task_output_or_payload j) (inserted (emit_task_finale (b\<lparr>inserted := []\<rparr>) s))"
  "length (filter nir_is_buffer_access (inserted (emit_task_finale (b\<lparr>inserted := []\<rparr>) s))) = 1"
  by (simp_all add: emit_task_finale_def emit_defs builder_defs Let_def)

lemma nir_builder_init_inserted:
  "(nir_builder_init shader)\<lparr>inserted := []\<rparr> = nir_builder_init shader"
  by (simp add: nir_builder_init_def)

lemmas example_defs =
  example_state_def example_invocation_def example_def_def example_exec_state_def
  example_builder_def example_store_output_def example_store_task_payload_def
  example_load_task_payload_def example_load_workgroup_id_def example_shader_def
  nir_intrinsic_instr_create_def

lemma example_power_of_two: "util_is_power_of_two_nonzero 4"
  using util_is_power_of_two_nonzero_exp [of 2] by simp

lemma example_power_of_two_state: "util_is_power_of_two_nonzero (num_entries example_state)"
  using example_power_of_two by (simp add: example_state_def)

lemma example_active: "nir_active example_exec_state"
  by (simp add: nir_active_def example_exec_state_def)

lemma example_io_valid: "nir_io_valid example_shader"
  by (simp add: nir_io_valid_def example_defs)

lemma example_io_uses_valid: "nir_io_uses_valid example_shader"
  by (simp add: nir_io_uses_valid_def nir_payload_uses_consistent_def example_defs)

lemma example_mesh_io_valid: "nir_io_valid example_mesh_shader"
  by (simp add: nir_io_valid_def example_mesh_shader_def example_defs)

lemma example_mesh_io_uses_valid: "nir_io_uses_valid example_mesh_shader"
  by (simp add: nir_io_uses_valid_def nir_payload_uses_consistent_def example_mesh_shader_def
        example_defs)

section \<open>Lowering in place\<close>

lemma nir_instr_has_opcode_map_srcs [simp]:
  "nir_instr_has_opcode ops (nir_instr_map_srcs g i) = nir_instr_has_opcode ops i"
  by (cases i) simp_all

lemma nir_instr_srcs_map_srcs:
  "nir_instr_srcs (nir_instr_map_srcs g i) = map g (nir_instr_srcs i)"
  by (cases i) simp_all

lemma nir_callback_builder_inserted:
  "b\<lparr>inserted := []\<rparr> = nir_callback_builder (shader_stage b) (ssa_alloc b)"
  by (simp add: nir_callback_builder_def)

lemma lower_task_intrinsics_alloc:
  "lower_task_intrinsics (nir_callback_builder stage a) i s = Some (res, b') \<Longrightarrow>
   a \<le> ssa_alloc b' \<and> shader_stage b' = stage"
  by (cases i)
     (auto simp: nir_callback_builder_def lower_task_output_store_def lower_task_payload_store_def
        lower_taskmesh_payload_load_def emit_defs builder_defs Let_def
        split: if_splits list.splits option.splits)

lemma lower_task_intrinsics_subst:
  assumes fresh: "\<And>x. a \<le> index x \<Longrightarrow> g x = x"
    and shape: "\<And>x. x \<in> set (nir_instr_srcs i) \<Longrightarrow>
                 num_components (g x) = num_components x \<and> bit_size (g x) = bit_size x"
  shows "lower_task_intrinsics (nir_callback_builder stage a) (nir_instr_map_srcs g i) s =
         map_option (\<lambda>(res, b'). (res, b'\<lparr>inserted := map (nir_instr_map_srcs g) (inserted b')\<rparr>))
           (lower_task_intrinsics (nir_callback_builder stage a) i s)"
proof (cases i)
  case (nir_instr_type_intrinsic intrin)
  show ?thesis
  proof (cases "src intrin")
    case Nil
    with nir_instr_type_intrinsic show ?thesis
      by (simp add: lower_task_output_store_def lower_task_payload_store_def
            lower_taskmesh_payload_load_def split: option.splits)
  next
    case (Cons v rest)
    with shape nir_instr_type_intrinsic
    have sv: "num_components (g v) = num_components v" "bit_size (g v) = bit_size v" by simp_all
    show ?thesis
    proof (cases rest)
      case Nil
      with Cons nir_instr_type_intrinsic sv show ?thesis
        by (simp add: nir_callback_builder_def lower_task_output_store_def lower_task_payload_store_def
            lower_taskmesh_payload_load_def emit_defs builder_defs Let_def fresh split: option.splits)
    next
      case (Cons w rest')
      with \<open>src intrin = v # rest\<close> nir_instr_type_intrinsic sv show ?thesis
        by (simp add: nir_callback_builder_def lower_task_output_store_def lower_task_payload_store_def
            lower_taskmesh_payload_load_def emit_defs builder_defs Let_def fresh split: option.splits)
    qed
  qed
qed simp_all


lemma nir_payload_uses_consistent_iff:
  "nir_payload_uses_consistent body \<longleftrightarrow>
     (\<forall>i \<in> set body. \<forall>d. nir_instr_has_opcode [nir_intrinsic_load_task_payload] i \<longrightarrow>
        nir_instr_ssa_def i = Some d \<longrightarrow>
        (\<forall>j \<in> set body. \<forall>x \<in> set (nir_instr_srcs j). index x = index d \<longrightarrow> x = d))"
  by (auto simp: nir_payload_uses_consistent_def list_all_iff split: option.splits)

lemma lower_task_intrinsics_contract:
  assumes "nir_instr_has_opcode
             [nir_intrinsic_store_output, nir_intrinsic_store_task_payload,
              nir_intrinsic_load_task_payload] i"
    and "nir_io_intrinsic_valid a i"
  shows "\<exists>res b'. lower_task_intrinsics (nir_callback_builder stage a) i s = Some (res, b')
     \<and> (case res of
           NIR_LOWER_INSTR_PROGRESS_REPLACE \<Rightarrow> nir_instr_ssa_def i = None
         | NIR_LOWER_INSTR_DEF nd \<Rightarrow>
             (\<exists>od. nir_instr_ssa_def i = Some od \<and> nir_ssa_def_is_unused od (inserted b')
                \<and> num_components nd = num_components od \<and> bit_size nd = bit_size od
                \<and> index od < a \<and> nir_instr_has_opcode [nir_intrinsic_load_task_payload] i)
             \<and> a \<le> index nd
         | _ \<Rightarrow> False)"
proof (cases i)
  case (nir_instr_type_intrinsic intrin)
  consider (out) "intrinsic intrin = nir_intrinsic_store_output"
    | (st) "intrinsic intrin = nir_intrinsic_store_task_payload"
    | (ld) "intrinsic intrin = nir_intrinsic_load_task_payload"
    using assms(1) nir_instr_type_intrinsic by auto
  then show ?thesis
  proof cases
    case out
    with assms(2) nir_instr_type_intrinsic obtain v rest
      where "src intrin = v # rest" "dest intrin = None"
      by (cases "src intrin") auto
    with out nir_instr_type_intrinsic show ?thesis
      by (simp add: nir_callback_builder_def lower_task_output_store_def emit_defs builder_defs Let_def)
  next
    case st
    with assms(2) nir_instr_type_intrinsic obtain v addr rest
      where "src intrin = v # addr # rest" "dest intrin = None"
      by (cases "src intrin"; cases "tl (src intrin)") auto
    with st nir_instr_type_intrinsic show ?thesis
      by (simp add: nir_callback_builder_def lower_task_payload_store_def emit_defs builder_defs Let_def)
  next
    case ld
    with assms(2) nir_instr_type_intrinsic obtain d addr rest
      where "src intrin = addr # rest" "dest intrin = Some d"
        "index d < a" "index addr \<noteq> index d"
      by (auto split: option.splits list.splits)
    with ld nir_instr_type_intrinsic show ?thesis
      by (simp add: nir_callback_builder_def lower_taskmesh_payload_load_def emit_defs builder_defs
            Let_def nir_ssa_def_is_unused_def)
  qed
qed (use assms in simp_all)

lemma nir_io_redirects_rewrite:
  assumes E: "\<forall>b i. nir_instr_has_opcode ops i \<longrightarrow> cb b i s = lower_task_intrinsics b i s"
  shows "index od < a \<Longrightarrow>
     \<forall>j \<in> set body. \<forall>x \<in> set (nir_instr_srcs j). index x = index od \<longrightarrow>
        num_components nd = num_components x \<and> bit_size nd = bit_size x \<Longrightarrow>
     nir_io_redirects ops cb s stage a (map (nir_instr_map_srcs (nir_src_rewrite od nd)) body)
       = nir_io_redirects ops cb s stage a body"
proof (induction body arbitrary: a)
  case Nil
  then show ?case by simp
next
  case (Cons i body)
  let ?g = "nir_src_rewrite od nd"
  from Cons.prems(2) have rest: "\<forall>j \<in> set body. \<forall>x \<in> set (nir_instr_srcs j). index x = index od \<longrightarrow>
        num_components nd = num_components x \<and> bit_size nd = bit_size x" by simp
  show ?case
  proof (cases "nir_instr_has_opcode ops i")
    case False
    with Cons.IH [OF Cons.prems(1) rest] show ?thesis by simp
  next
    case True
    have sub: "lower_task_intrinsics (nir_callback_builder stage a) (nir_instr_map_srcs ?g i) s =
         map_option (\<lambda>(res, b'). (res, b'\<lparr>inserted := map (nir_instr_map_srcs ?g) (inserted b')\<rparr>))
           (lower_task_intrinsics (nir_callback_builder stage a) i s)"
      using Cons.prems by (intro lower_task_intrinsics_subst) (auto simp: nir_src_rewrite_def)
    show ?thesis
    proof (cases "lower_task_intrinsics (nir_callback_builder stage a) i s")
      case None
      with True sub show ?thesis by (simp add: E [rule_format])
    next
      case (Some p)
      obtain res b' where p: "p = (res, b')" by (cases p)
      from lower_task_intrinsics_alloc [OF Some [unfolded p]] Cons.prems(1)
      have "index od < ssa_alloc b'" by simp
      from Cons.IH [OF this rest] True sub Some p show ?thesis by (simp add: E [rule_format])
    qed
  qed
qed

lemma nir_lowered_in_place_rewrite:
  assumes E: "\<forall>b i. nir_instr_has_opcode ops i \<longrightarrow> cb b i s = lower_task_intrinsics b i s"
  shows "index od < a \<Longrightarrow>
     \<forall>j \<in> set body. \<forall>x \<in> set (nir_instr_srcs j). index x = index od \<longrightarrow>
        num_components nd = num_components x \<and> bit_size nd = bit_size x \<Longrightarrow>
     nir_lowered_in_place ops cb s stage a (map (nir_instr_map_srcs (nir_src_rewrite od nd)) body)
       = map (nir_instr_map_srcs (nir_src_rewrite od nd)) (nir_lowered_in_place ops cb s stage a body)"
proof (induction body arbitrary: a)
  case Nil
  then show ?case by simp
next
  case (Cons i body)
  let ?g = "nir_src_rewrite od nd"
  from Cons.prems(2) have rest: "\<forall>j \<in> set body. \<forall>x \<in> set (nir_instr_srcs j). index x = index od \<longrightarrow>
        num_components nd = num_components x \<and> bit_size nd = bit_size x" by simp
  show ?case
  proof (cases "nir_instr_has_opcode ops i")
    case False
    with Cons.IH [OF Cons.prems(1) rest] show ?thesis by simp
  next
    case True
    have sub: "lower_task_intrinsics (nir_callback_builder stage a) (nir_instr_map_srcs ?g i) s =
         map_option (\<lambda>(res, b'). (res, b'\<lparr>inserted := map (nir_instr_map_srcs ?g) (inserted b')\<rparr>))
           (lower_task_intrinsics (nir_callback_builder stage a) i s)"
      using Cons.prems by (intro lower_task_intrinsics_subst) (auto simp: nir_src_rewrite_def)
    show ?thesis
    proof (cases "lower_task_intrinsics (nir_callback_builder stage a) i s")
      case None
      with True sub show ?thesis by (simp add: E [rule_format])
    next
      case (Some p)
      obtain res b' where p: "p = (res, b')" by (cases p)
      from lower_task_intrinsics_alloc [OF Some [unfolded p]] Cons.prems(1)
      have "index od < ssa_alloc b'" by simp
      from Cons.IH [OF this rest] True sub Some p show ?thesis by (simp add: E [rule_format])
    qed
  qed
qed

lemma nir_io_redirects_entries:
  assumes E: "\<forall>b i. nir_instr_has_opcode ops i \<longrightarrow> cb b i s = lower_task_intrinsics b i s"
    and S: "set ops \<subseteq> {nir_intrinsic_store_output, nir_intrinsic_store_task_payload,
              nir_intrinsic_load_task_payload}"
  shows "list_all (nir_io_intrinsic_valid a0) body \<Longrightarrow> a0 \<le> a \<Longrightarrow>
     (k, r) \<in> set (nir_io_redirects ops cb s stage a body) \<Longrightarrow>
     k < a0 \<and> a \<le> index r
     \<and> (\<exists>j \<in> set body. \<exists>d. nir_instr_has_opcode [nir_intrinsic_load_task_payload] j
           \<and> nir_instr_ssa_def j = Some d \<and> index d = k
           \<and> num_components r = num_components d \<and> bit_size r = bit_size d)"
proof (induction body arbitrary: a)
  case Nil
  then show ?case by simp
next
  case (Cons i body)
  from Cons.prems(1) have vi: "nir_io_intrinsic_valid a0 i"
    and vb: "list_all (nir_io_intrinsic_valid a0) body" by simp_all
  show ?case
  proof (cases "nir_instr_has_opcode ops i")
    case False
    with Cons.IH [OF vb Cons.prems(2)] Cons.prems(3) show ?thesis by auto
  next
    case True
    then have T: "nir_instr_has_opcode
             [nir_intrinsic_store_output, nir_intrinsic_store_task_payload,
              nir_intrinsic_load_task_payload] i"
      using S by (cases i) auto
    have va: "nir_io_intrinsic_valid a i" using vi Cons.prems(2) by (rule io_valid_mono)
    from lower_task_intrinsics_contract [OF T va, of stage s]
    obtain res b' where r: "lower_task_intrinsics (nir_callback_builder stage a) i s = Some (res, b')"
      and c: "case res of
           NIR_LOWER_INSTR_PROGRESS_REPLACE \<Rightarrow> nir_instr_ssa_def i = None
         | NIR_LOWER_INSTR_DEF nd \<Rightarrow>
             (\<exists>od. nir_instr_ssa_def i = Some od \<and> nir_ssa_def_is_unused od (inserted b')
                \<and> num_components nd = num_components od \<and> bit_size nd = bit_size od
                \<and> index od < a \<and> nir_instr_has_opcode [nir_intrinsic_load_task_payload] i)
             \<and> a \<le> index nd
         | _ \<Rightarrow> False" by blast
    from lower_task_intrinsics_alloc [OF r] have al: "a \<le> ssa_alloc b'" by simp
    with Cons.prems(2) have al0: "a0 \<le> ssa_alloc b'" by simp
    note IH = Cons.IH [OF vb al0]
    show ?thesis
    proof (cases res)
      case NIR_LOWER_INSTR_PROGRESS_REPLACE
      with c r True Cons.prems(3) have "(k, r) \<in> set (nir_io_redirects ops cb s stage (ssa_alloc b') body)"
        by (simp add: E [rule_format])
      from IH [OF this] al show ?thesis by auto
    next
      case (NIR_LOWER_INSTR_DEF nd)
      with c obtain od where od: "nir_instr_ssa_def i = Some od"
        "num_components nd = num_components od" "bit_size nd = bit_size od"
        "nir_instr_has_opcode [nir_intrinsic_load_task_payload] i" "a \<le> index nd"
        by auto
      from vi od(1,4) have "index od < a0"
        by (cases i) (auto split: option.splits list.splits if_splits)
      with NIR_LOWER_INSTR_DEF r True Cons.prems(3) od
      consider "k = index od" "r = nd"
        | "(k, r) \<in> set (nir_io_redirects ops cb s stage (ssa_alloc b') body)"
        by (auto simp: E [rule_format])
      then show ?thesis
      proof cases
        case 1
        with od \<open>index od < a0\<close> show ?thesis by auto
      next
        case 2
        from IH [OF this] al show ?thesis by auto
      qed
    qed (use c in simp_all)
  qed
qed


lemma io_valid_load_dest:
  "nir_io_intrinsic_valid a i \<Longrightarrow> nir_instr_has_opcode [nir_intrinsic_load_task_payload] i \<Longrightarrow>
   nir_instr_ssa_def i = Some d \<Longrightarrow> index d < a"
  by (cases i) (auto split: option.splits list.splits if_splits)

lemma nir_payload_uses_consistent_rewrite:
  assumes "nir_payload_uses_consistent body" and "list_all (nir_io_intrinsic_valid a) body"
    and "a \<le> index nd"
  shows "nir_payload_uses_consistent (map (nir_instr_map_srcs (nir_src_rewrite od nd)) body)"
  unfolding nir_payload_uses_consistent_iff
proof (intro ballI allI impI)
  fix i' d j' x'
  assume i': "i' \<in> set (map (nir_instr_map_srcs (nir_src_rewrite od nd)) body)"
    and ld: "nir_instr_has_opcode [nir_intrinsic_load_task_payload] i'"
    and d: "nir_instr_ssa_def i' = Some d"
    and j': "j' \<in> set (map (nir_instr_map_srcs (nir_src_rewrite od nd)) body)"
    and x': "x' \<in> set (nir_instr_srcs j')" and eq: "index x' = index d"
  from i' ld d obtain i where i: "i \<in> set body"
    "nir_instr_has_opcode [nir_intrinsic_load_task_payload] i" "nir_instr_ssa_def i = Some d"
    by auto
  from j' x' obtain j x where j: "j \<in> set body" "x \<in> set (nir_instr_srcs j)"
    "x' = nir_src_rewrite od nd x"
    by (auto simp: nir_instr_srcs_map_srcs)
  from assms(2) i have lt: "index d < a" by (auto simp: list_all_iff intro: io_valid_load_dest)
  show "x' = d"
  proof (cases "index x = index od")
    case True
    with j(3) have "x' = nd" by (simp add: nir_src_rewrite_def)
    with eq lt assms(3) show ?thesis by simp
  next
    case False
    with j(3) have xx: "x' = x" by (simp add: nir_src_rewrite_def)
    with eq have "index x = index d" by simp
    with i j assms(1) have "x = d" unfolding nir_payload_uses_consistent_iff by blast
    with xx show ?thesis by simp
  qed
qed

lemma nir_redirect_Nil [simp]: "nir_redirect [] = (\<lambda>x. x)"
  by (rule ext) (simp add: nir_redirect_def)

lemma nir_instr_map_srcs_id [simp]: "nir_instr_map_srcs (\<lambda>x. x) i = i"
  by (cases i) simp_all

lemma lower_instructions_in_place:
  fixes filter_cb :: "nir_instr \<Rightarrow> bool"
  assumes F: "\<forall>i. filter_cb i = nir_instr_has_opcode ops i"
    and S: "set ops \<subseteq> {nir_intrinsic_store_output, nir_intrinsic_store_task_payload,
              nir_intrinsic_load_task_payload}"
    and E: "\<forall>b i. nir_instr_has_opcode ops i \<longrightarrow> cb b i s = lower_task_intrinsics b i s"
  shows "list_all (nir_io_intrinsic_valid (ssa_alloc b)) todo \<Longrightarrow>
         nir_payload_uses_consistent todo \<Longrightarrow>
         \<exists>b'. nir_function_impl_lower_instructions filter_cb cb s b seen todo =
            Some (b',
              map (nir_instr_map_srcs
                     (nir_redirect (nir_io_redirects ops cb s (shader_stage b) (ssa_alloc b) todo)))
                (seen @ nir_lowered_in_place ops cb s (shader_stage b) (ssa_alloc b) todo))
          \<and> ssa_alloc b \<le> ssa_alloc b' \<and> shader_stage b' = shader_stage b"
proof (induction n \<equiv> "length todo" arbitrary: todo b seen)
  case 0
  then show ?case by simp
next
  case (Suc n todo0)
  then obtain i todo where todo0: "todo0 = i # todo" and len: "n = length todo"
    by (cases todo0) auto
  let ?stg = "shader_stage b"
  let ?a = "ssa_alloc b"
  let ?B = "nir_callback_builder ?stg ?a"
  let ?R = "nir_io_redirects ops cb s ?stg ?a (i # todo)"
  let ?g = "nir_redirect ?R"
  from Suc.prems todo0 have V: "list_all (nir_io_intrinsic_valid ?a) (i # todo)"
    and C: "nir_payload_uses_consistent (i # todo)" by simp_all
  from V have vi: "nir_io_intrinsic_valid ?a i"
    and vt: "list_all (nir_io_intrinsic_valid ?a) todo" by simp_all
  from C have ct: "nir_payload_uses_consistent todo"
    unfolding nir_payload_uses_consistent_iff by simp
  have "\<exists>b'. nir_function_impl_lower_instructions filter_cb cb s b seen (i # todo) =
            Some (b', map (nir_instr_map_srcs ?g)
                        (seen @ nir_lowered_in_place ops cb s ?stg ?a (i # todo)))
          \<and> ?a \<le> ssa_alloc b' \<and> shader_stage b' = ?stg"
  proof (cases "nir_instr_has_opcode ops i")
    case False
    from Suc.hyps(1) [OF len vt ct, of "seen @ [i]"] False show ?thesis
      by (simp add: F)
  next
    case True
    then have T: "nir_instr_has_opcode
             [nir_intrinsic_store_output, nir_intrinsic_store_task_payload,
              nir_intrinsic_load_task_payload] i"
      using S by (cases i) auto
    from lower_task_intrinsics_contract [OF T vi, of ?stg s]
    obtain res b1 where r0: "lower_task_intrinsics ?B i s = Some (res, b1)"
      and c: "case res of
           NIR_LOWER_INSTR_PROGRESS_REPLACE \<Rightarrow> nir_instr_ssa_def i = None
         | NIR_LOWER_INSTR_DEF nd \<Rightarrow>
             (\<exists>od. nir_instr_ssa_def i = Some od \<and> nir_ssa_def_is_unused od (inserted b1)
                \<and> num_components nd = num_components od \<and> bit_size nd = bit_size od
                \<and> index od < ?a \<and> nir_instr_has_opcode [nir_intrinsic_load_task_payload] i)
             \<and> ?a \<le> index nd
         | _ \<Rightarrow> False" by blast
    from r0 True have r: "cb ?B i s = Some (res, b1)" by (simp add: E [rule_format])
    from lower_task_intrinsics_alloc [OF r0]
    have al: "?a \<le> ssa_alloc b1" and stg: "shader_stage b1 = ?stg" by simp_all
    have low: "nir_lowered_in_place ops cb s ?stg ?a (i # todo)
                 = inserted b1 @ nir_lowered_in_place ops cb s ?stg (ssa_alloc b1) todo"
      using True r by simp
    have vt1: "list_all (nir_io_intrinsic_valid (ssa_alloc b1)) todo"
      using vt al by (auto simp: list_all_iff intro: io_valid_mono)
    show ?thesis
    proof (cases res)
      case NIR_LOWER_INSTR_PROGRESS_REPLACE
      with c have nd: "nir_instr_ssa_def i = None" by simp
      have R: "?R = nir_io_redirects ops cb s ?stg (ssa_alloc b1) todo"
        using True r nd NIR_LOWER_INSTR_PROGRESS_REPLACE by simp
      from Suc.hyps(1) [OF len vt1 ct, of "seen @ inserted b1"] obtain b' where
        "nir_function_impl_lower_instructions filter_cb cb s b1 (seen @ inserted b1) todo =
            Some (b', map (nir_instr_map_srcs ?g)
                        ((seen @ inserted b1) @ nir_lowered_in_place ops cb s ?stg (ssa_alloc b1) todo))"
        "ssa_alloc b1 \<le> ssa_alloc b'" "shader_stage b' = ?stg"
        unfolding R stg by blast
      then show ?thesis
        using True r nd NIR_LOWER_INSTR_PROGRESS_REPLACE al low
        by (simp add: F nir_callback_builder_inserted)
    next
      case (NIR_LOWER_INSTR_DEF nd)
      with c obtain od where od: "nir_instr_ssa_def i = Some od"
        "nir_ssa_def_is_unused od (inserted b1)"
        "num_components nd = num_components od" "bit_size nd = bit_size od"
        "index od < ?a" "nir_instr_has_opcode [nir_intrinsic_load_task_payload] i"
        and fresh: "?a \<le> index nd"
        by auto
      let ?rw = "nir_src_rewrite od nd"
      let ?todo = "map (nir_instr_map_srcs ?rw) todo"
      let ?R1 = "nir_io_redirects ops cb s ?stg (ssa_alloc b1) todo"
      let ?g1 = "nir_redirect ?R1"
      have lenrw: "n = length ?todo" using len by simp
      have "list_all (nir_io_intrinsic_valid ?a) ?todo"
        using vt fresh by (auto simp: list_all_iff intro: io_valid_rewrite)
      then have vrw: "list_all (nir_io_intrinsic_valid (ssa_alloc b1)) ?todo"
        using al by (auto simp: list_all_iff intro: io_valid_mono)
      have crw: "nir_payload_uses_consistent ?todo"
        using ct vt fresh by (rule nir_payload_uses_consistent_rewrite)
      have shape: "\<forall>j \<in> set todo. \<forall>x \<in> set (nir_instr_srcs j). index x = index od \<longrightarrow>
          num_components nd = num_components x \<and> bit_size nd = bit_size x"
      proof (intro ballI impI)
        fix j x assume "j \<in> set todo" "x \<in> set (nir_instr_srcs j)" "index x = index od"
        with C od(1,6) have "x = od" unfolding nir_payload_uses_consistent_iff by simp
        with od(3,4) show "num_components nd = num_components x \<and> bit_size nd = bit_size x"
          by simp
      qed
      have lt1: "index od < ssa_alloc b1" using od(5) al by simp
      have R1: "nir_io_redirects ops cb s ?stg (ssa_alloc b1) ?todo = ?R1"
        by (rule nir_io_redirects_rewrite [where ops = ops and cb = cb and s = s, OF E lt1 shape])
      have L1: "nir_lowered_in_place ops cb s ?stg (ssa_alloc b1) ?todo
                  = map (nir_instr_map_srcs ?rw) (nir_lowered_in_place ops cb s ?stg (ssa_alloc b1) todo)"
        by (rule nir_lowered_in_place_rewrite [where ops = ops and cb = cb and s = s, OF E lt1 shape])
      have R: "?R = (index od, nd) # ?R1"
        using True r od(1) NIR_LOWER_INSTR_DEF by simp
      have g1nd: "?g1 nd = nd"
      proof (cases "map_of ?R1 (index nd)")
        case None
        then show ?thesis by (simp add: nir_redirect_def)
      next
        case (Some r')
        then have "(index nd, r') \<in> set ?R1" by (rule map_of_SomeD)
        from nir_io_redirects_entries [where ops = ops and cb = cb and s = s, OF E S vt al this]
        have "index nd < ?a" by simp
        with fresh show ?thesis by simp
      qed
      have comp: "?g1 (?rw x) = ?g x" for x
        unfolding R using g1nd by (simp add: nir_redirect_def nir_src_rewrite_def)
      have code: "map (nir_instr_map_srcs ?g1) (inserted b1) = map (nir_instr_map_srcs ?g) (inserted b1)"
      proof (rule map_cong [OF refl], rule nir_instr_map_srcs_cong)
        fix j x assume "j \<in> set (inserted b1)" "x \<in> set (nir_instr_srcs j)"
        with od(2) have "index x \<noteq> index od" by (auto simp: nir_ssa_def_is_unused_def)
        then show "?g1 x = ?g x" unfolding R by (simp add: nir_redirect_def)
      qed
      from Suc.hyps(1) [OF lenrw vrw crw,
          of "nir_ssa_def_rewrite_uses od nd seen @ inserted b1"]
      obtain b' where
        "nir_function_impl_lower_instructions filter_cb cb s b1
            (nir_ssa_def_rewrite_uses od nd seen @ inserted b1) ?todo =
            Some (b', map (nir_instr_map_srcs ?g1)
                        ((nir_ssa_def_rewrite_uses od nd seen @ inserted b1)
                         @ map (nir_instr_map_srcs ?rw)
                             (nir_lowered_in_place ops cb s ?stg (ssa_alloc b1) todo)))"
        "ssa_alloc b1 \<le> ssa_alloc b'" "shader_stage b' = ?stg"
        unfolding R1 L1 stg by blast
      then show ?thesis
        using True r od(1,2) NIR_LOWER_INSTR_DEF al low
        by (simp add: F nir_callback_builder_inserted nir_ssa_def_rewrite_uses_def
              nir_instr_map_srcs_comp code comp comp_def)
    qed (use c in simp_all)
  qed
  then show ?case by (simp only: todo0)
qed

lemma filter_task_opcode:
  "nir_instr_has_opcode
     [nir_intrinsic_store_output, nir_intrinsic_store_task_payload,
      nir_intrinsic_load_task_payload] i = filter_task_output_or_payload i"
  by (cases i) auto

lemma filter_mesh_opcode:
  "nir_instr_has_opcode [nir_intrinsic_load_task_payload] i = filter_mesh_input_load i"
  by (cases i) auto

lemma lower_mesh_intrinsics_task:
  "nir_instr_has_opcode [nir_intrinsic_load_task_payload] i \<Longrightarrow>
   lower_mesh_intrinsics b i s = lower_task_intrinsics b i s"
  by (cases i) auto

lemma task_lower_in_place:
  assumes "nir_io_valid shader" and "nir_io_uses_valid shader"
  shows "\<exists>lowered.
      nir_shader_lower_instructions shader filter_task_output_or_payload lower_task_intrinsics s
        = Some lowered
      \<and> impl_body lowered =
          nir_lowered_body
            [nir_intrinsic_store_output, nir_intrinsic_store_task_payload,
             nir_intrinsic_load_task_payload] lower_task_intrinsics s shader
      \<and> info_stage lowered = info_stage shader"
proof -
  let ?ops = "[nir_intrinsic_store_output, nir_intrinsic_store_task_payload,
               nir_intrinsic_load_task_payload]"
  have F: "\<forall>i. filter_task_output_or_payload i = nir_instr_has_opcode ?ops i"
    by (simp add: filter_task_opcode)
  have S: "set ?ops \<subseteq> {nir_intrinsic_store_output, nir_intrinsic_store_task_payload,
              nir_intrinsic_load_task_payload}" by simp
  have E: "\<forall>b i. nir_instr_has_opcode ?ops i \<longrightarrow>
             lower_task_intrinsics b i s = lower_task_intrinsics b i s" by simp
  have V: "list_all (nir_io_intrinsic_valid (ssa_alloc (nir_builder_init shader))) (impl_body shader)"
    and C: "nir_payload_uses_consistent (impl_body shader)"
    using assms by (simp_all add: nir_io_valid_def nir_io_uses_valid_def nir_builder_init_def)
  from lower_instructions_in_place
    [where ops = ?ops and cb = lower_task_intrinsics and s = s
       and filter_cb = filter_task_output_or_payload and seen = "[]", OF F S E V C]
  show ?thesis
    by (auto simp: nir_shader_lower_instructions_def nir_lowered_body_def nir_builder_init_def)
qed

lemma mesh_lower_in_place:
  assumes "nir_io_valid shader" and "nir_io_uses_valid shader"
  shows "\<exists>lowered.
      nir_shader_lower_instructions shader filter_mesh_input_load lower_mesh_intrinsics s
        = Some lowered
      \<and> impl_body lowered =
          nir_lowered_body [nir_intrinsic_load_task_payload] lower_mesh_intrinsics s shader
      \<and> info_stage lowered = info_stage shader"
proof -
  let ?ops = "[nir_intrinsic_load_task_payload]"
  have F: "\<forall>i. filter_mesh_input_load i = nir_instr_has_opcode ?ops i"
    by (simp add: filter_mesh_opcode)
  have S: "set ?ops \<subseteq> {nir_intrinsic_store_output, nir_intrinsic_store_task_payload,
              nir_intrinsic_load_task_payload}" by simp
  have E: "\<forall>b i. nir_instr_has_opcode ?ops i \<longrightarrow>
             lower_mesh_intrinsics b i s = lower_task_intrinsics b i s"
    by (simp add: lower_mesh_intrinsics_task)
  have V: "list_all (nir_io_intrinsic_valid (ssa_alloc (nir_builder_init shader))) (impl_body shader)"
    and C: "nir_payload_uses_consistent (impl_body shader)"
    using assms by (simp_all add: nir_io_valid_def nir_io_uses_valid_def nir_builder_init_def)
  from lower_instructions_in_place
    [where ops = ?ops and cb = lower_mesh_intrinsics and s = s
       and filter_cb = filter_mesh_input_load and seen = "[]", OF F S E V C]
  show ?thesis
    by (auto simp: nir_shader_lower_instructions_def nir_lowered_body_def nir_builder_init_def)
qed

text \<open>
  C3: the entry index the task shader computes is \<open>(ring_entry + workgroup_index) AND
  (num_entries - 1)\<close>, the one the mesh shader computes is \<open>ring_entry AND (num_entries -
  1)\<close>, and when \<open>num_entries\<close> is a nonzero power of two both are less than
  \<open>num_entries\<close>.  Every ring access the passes insert (the draw ring store of
  \<open>task_write_draw_ring\<close>, the payload store, the payload load in a task and in a mesh
  shader) addresses its ring at that index times the size of an entry.
\<close>

theorem ring_entry_index_in_range:
  assumes "util_is_power_of_two_nonzero (num_entries s)" and "nir_active st"
  shows
    "(\<exists>st'. nir_exec ctx (inserted (snd (task_ring_entry_index (b\<lparr>inserted := []\<rparr>) s))) st = Some st'
        \<and> ssa_values st' (index (fst (task_ring_entry_index (b\<lparr>inserted := []\<rparr>) s))) =
             Some [u32 ((sv_task_ring_entry ctx + fst (sv_workgroup_id ctx)) AND (num_entries s - 1))])
     \<and> unat ((sv_task_ring_entry ctx + fst (sv_workgroup_id ctx)) AND (num_entries s - 1))
           < unat (num_entries s)
     \<and> (\<exists>st'. nir_exec ctx (inserted (snd (mesh_ring_entry_index (b\<lparr>inserted := []\<rparr>) s))) st = Some st'
        \<and> ssa_values st' (index (fst (mesh_ring_entry_index (b\<lparr>inserted := []\<rparr>) s))) =
             Some [u32 (sv_task_ring_entry ctx AND (num_entries s - 1))])
     \<and> unat (sv_task_ring_entry ctx AND (num_entries s - 1)) < unat (num_entries s)
     \<and> (ssa_values st (index v) = Some val \<and> index v < ssa_alloc b \<longrightarrow>
          (\<exists>st'. nir_exec ctx (inserted (task_write_draw_ring (b\<lparr>inserted := []\<rparr>) v const_off s)) st = Some st'
             \<and> map eff_s_offset (drop (length (effects st)) (effects st')) =
                  [((sv_task_ring_entry ctx + fst (sv_workgroup_id ctx)) AND (num_entries s - 1))
                     * draw_entry_bytes s]))
     \<and> (src intrin = v # addr # rest \<and> ssa_values st (index v) = Some val
          \<and> ssa_values st (index addr) = Some [u32 a]
          \<and> index v < ssa_alloc b \<and> index addr < ssa_alloc b \<longrightarrow>
          (\<exists>b' st'. lower_task_payload_store (b\<lparr>inserted := []\<rparr>) intrin s
                        = Some (NIR_LOWER_INSTR_PROGRESS_REPLACE, b')
             \<and> nir_exec ctx (inserted b') st = Some st'
             \<and> map eff_s_offset (drop (length (effects st)) (effects st')) =
                  [((sv_task_ring_entry ctx + fst (sv_workgroup_id ctx)) AND (num_entries s - 1))
                     * payload_entry_bytes s]))
     \<and> (src intrin = addr # rest \<and> dest intrin = Some d
          \<and> ssa_values st (index addr) = Some [u32 a] \<and> index addr < ssa_alloc b \<longrightarrow>
          (\<exists>r b' st'. lower_taskmesh_payload_load (b\<lparr>inserted := []\<rparr>) intrin s
                        = Some (NIR_LOWER_INSTR_DEF r, b')
             \<and> nir_exec ctx (inserted b') st = Some st'
             \<and> map eff_s_offset (drop (length (effects st)) (effects st')) =
                  [(if shader_stage b = MESA_SHADER_TASK
                    then (sv_task_ring_entry ctx + fst (sv_workgroup_id ctx)) AND (num_entries s - 1)
                    else sv_task_ring_entry ctx AND (num_entries s - 1))
                     * payload_entry_bytes s]))"
proof -
  note nz = power_of_two_nonzero [OF assms(1)]
  have 1: "\<exists>st'. nir_exec ctx (inserted (snd (task_ring_entry_index (b\<lparr>inserted := []\<rparr>) s))) st = Some st'
        \<and> ssa_values st' (index (fst (task_ring_entry_index (b\<lparr>inserted := []\<rparr>) s))) =
             Some [u32 ((sv_task_ring_entry ctx + fst (sv_workgroup_id ctx)) AND (num_entries s - 1))]"
    using exec_task_ring_entry_index [OF assms(2), where ctx = ctx and b = b and s = s] by blast
  have 2: "\<exists>st'. nir_exec ctx (inserted (snd (mesh_ring_entry_index (b\<lparr>inserted := []\<rparr>) s))) st = Some st'
        \<and> ssa_values st' (index (fst (mesh_ring_entry_index (b\<lparr>inserted := []\<rparr>) s))) =
             Some [u32 (sv_task_ring_entry ctx AND (num_entries s - 1))]"
    using exec_mesh_ring_entry_index [OF assms(2), where ctx = ctx and b = b and s = s] by blast
  have 3: "ssa_values st (index v) = Some val \<and> index v < ssa_alloc b \<longrightarrow>
          (\<exists>st'. nir_exec ctx (inserted (task_write_draw_ring (b\<lparr>inserted := []\<rparr>) v const_off s)) st = Some st'
             \<and> map eff_s_offset (drop (length (effects st)) (effects st')) =
                  [((sv_task_ring_entry ctx + fst (sv_workgroup_id ctx)) AND (num_entries s - 1))
                     * draw_entry_bytes s])"
  proof
    assume "ssa_values st (index v) = Some val \<and> index v < ssa_alloc b"
    then have "ssa_values st (index v) = Some val" "index v < ssa_alloc b" by simp_all
    from exec_task_write_draw_ring [OF assms(2) this, where ctx = ctx and const_off = const_off and s = s]
    show "\<exists>st'. nir_exec ctx (inserted (task_write_draw_ring (b\<lparr>inserted := []\<rparr>) v const_off s)) st = Some st'
             \<and> map eff_s_offset (drop (length (effects st)) (effects st')) =
                  [((sv_task_ring_entry ctx + fst (sv_workgroup_id ctx)) AND (num_entries s - 1))
                     * draw_entry_bytes s]"
      by auto
  qed
  have 4: "src intrin = v # addr # rest \<and> ssa_values st (index v) = Some val
          \<and> ssa_values st (index addr) = Some [u32 a]
          \<and> index v < ssa_alloc b \<and> index addr < ssa_alloc b \<longrightarrow>
          (\<exists>b' st'. lower_task_payload_store (b\<lparr>inserted := []\<rparr>) intrin s
                        = Some (NIR_LOWER_INSTR_PROGRESS_REPLACE, b')
             \<and> nir_exec ctx (inserted b') st = Some st'
             \<and> map eff_s_offset (drop (length (effects st)) (effects st')) =
                  [((sv_task_ring_entry ctx + fst (sv_workgroup_id ctx)) AND (num_entries s - 1))
                     * payload_entry_bytes s])"
  proof
    assume "src intrin = v # addr # rest \<and> ssa_values st (index v) = Some val
          \<and> ssa_values st (index addr) = Some [u32 a]
          \<and> index v < ssa_alloc b \<and> index addr < ssa_alloc b"
    then have h: "src intrin = v # addr # rest" "ssa_values st (index v) = Some val"
      "ssa_values st (index addr) = Some [u32 a]" "index v < ssa_alloc b" "index addr < ssa_alloc b"
      by simp_all
    from exec_lower_task_payload_store [OF assms(2) h, where ctx = ctx and s = s]
    show "\<exists>b' st'. lower_task_payload_store (b\<lparr>inserted := []\<rparr>) intrin s
                        = Some (NIR_LOWER_INSTR_PROGRESS_REPLACE, b')
             \<and> nir_exec ctx (inserted b') st = Some st'
             \<and> map eff_s_offset (drop (length (effects st)) (effects st')) =
                  [((sv_task_ring_entry ctx + fst (sv_workgroup_id ctx)) AND (num_entries s - 1))
                     * payload_entry_bytes s]"
      by auto
  qed
  have 5: "src intrin = addr # rest \<and> dest intrin = Some d
          \<and> ssa_values st (index addr) = Some [u32 a] \<and> index addr < ssa_alloc b \<longrightarrow>
          (\<exists>r b' st'. lower_taskmesh_payload_load (b\<lparr>inserted := []\<rparr>) intrin s
                        = Some (NIR_LOWER_INSTR_DEF r, b')
             \<and> nir_exec ctx (inserted b') st = Some st'
             \<and> map eff_s_offset (drop (length (effects st)) (effects st')) =
                  [(if shader_stage b = MESA_SHADER_TASK
                    then (sv_task_ring_entry ctx + fst (sv_workgroup_id ctx)) AND (num_entries s - 1)
                    else sv_task_ring_entry ctx AND (num_entries s - 1))
                     * payload_entry_bytes s])"
  proof
    assume "src intrin = addr # rest \<and> dest intrin = Some d
          \<and> ssa_values st (index addr) = Some [u32 a] \<and> index addr < ssa_alloc b"
    then have h: "src intrin = addr # rest" "dest intrin = Some d"
      "ssa_values st (index addr) = Some [u32 a]" "index addr < ssa_alloc b"
      by simp_all
    from exec_lower_taskmesh_payload_load [OF assms(2) h, where ctx = ctx and s = s]
    show "\<exists>r b' st'. lower_taskmesh_payload_load (b\<lparr>inserted := []\<rparr>) intrin s
                        = Some (NIR_LOWER_INSTR_DEF r, b')
             \<and> nir_exec ctx (inserted b') st = Some st'
             \<and> map eff_s_offset (drop (length (effects st)) (effects st')) =
                  [(if shader_stage b = MESA_SHADER_TASK
                    then (sv_task_ring_entry ctx + fst (sv_workgroup_id ctx)) AND (num_entries s - 1)
                    else sv_task_ring_entry ctx AND (num_entries s - 1))
                     * payload_entry_bytes s]"
      by auto
  qed
  from 1 2 3 4 5 and_mask_less [OF nz] show ?thesis by blast
qed

text \<open>
  C3 on the ring of four entries: workgroup 1 of the first pass addresses entry 1, at byte 16 of
  the draw ring and byte 256 of the payload ring.
\<close>

theorem ring_entry_index_in_range_witness:
  "unat ((sv_task_ring_entry example_invocation + fst (sv_workgroup_id example_invocation))
           AND (num_entries example_state - 1)) < 4
   \<and> (\<exists>st'. nir_exec example_invocation
          (inserted (task_write_draw_ring (example_builder\<lparr>inserted := []\<rparr>) (example_def 0 1) 12
                       example_state)) example_exec_state = Some st'
        \<and> map eff_s_offset (drop (length (effects example_exec_state)) (effects st')) = [16])
   \<and> (\<exists>b' st'. lower_task_payload_store (example_builder\<lparr>inserted := []\<rparr>)
                    example_store_task_payload example_state
                  = Some (NIR_LOWER_INSTR_PROGRESS_REPLACE, b')
        \<and> nir_exec example_invocation (inserted b') example_exec_state = Some st'
        \<and> map eff_s_offset (drop (length (effects example_exec_state)) (effects st')) = [256])"
  using ring_entry_index_in_range [OF example_power_of_two_state example_active,
      where ctx = example_invocation and b = example_builder and v = "example_def 0 1"
        and val = "[u32 3]" and const_off = 12 and intrin = example_store_task_payload
        and addr = "example_def 1 1" and a = 64 and rest = "[]"]
  by (simp add: example_defs)

text \<open>
  C2: run for an invocation, the code of \<open>task_draw_ready_bit\<close> yields 1 when bit
  number \<open>util_bitcount (num_entries - 1)\<close> of \<open>ring_entry + workgroup_index\<close> is set
  and 0 otherwise.  When \<open>num_entries\<close> is a nonzero power of two that bit number is
  its binary logarithm, so the value is 1 exactly when \<open>(ring_entry + workgroup_index)
  div num_entries\<close>, the number of the pass through the draw ring, is odd.  This is the
  value the finale of the lowered task shader stores.
\<close>

theorem task_draw_ready_bit_value:
  assumes "util_is_power_of_two_nonzero (num_entries s)" and "nir_active st"
  shows
    "(\<exists>st'. nir_exec ctx (inserted (snd (task_draw_ready_bit (b\<lparr>inserted := []\<rparr>) s))) st = Some st'
        \<and> ssa_values st' (index (fst (task_draw_ready_bit (b\<lparr>inserted := []\<rparr>) s))) =
             Some [u32 (if bit (sv_task_ring_entry ctx + fst (sv_workgroup_id ctx))
                             (util_bitcount (num_entries s - 1))
                        then 1 else 0)])
     \<and> unat (num_entries s) = 2 ^ util_bitcount (num_entries s - 1)
     \<and> (bit (sv_task_ring_entry ctx + fst (sv_workgroup_id ctx)) (util_bitcount (num_entries s - 1))
          \<longleftrightarrow> odd (unat (sv_task_ring_entry ctx + fst (sv_workgroup_id ctx)) div unat (num_entries s)))
     \<and> (sv_local_invocation_index ctx = 0 \<longrightarrow>
          (\<exists>st'. nir_exec ctx (inserted (emit_task_finale (b\<lparr>inserted := []\<rparr>) s)) st = Some st'
             \<and> eff_value (last (effects st')) =
                  [u32 (if odd (unat (sv_task_ring_entry ctx + fst (sv_workgroup_id ctx))
                                  div unat (num_entries s))
                        then 1 else 0)]))"
proof -
  let ?x = "sv_task_ring_entry ctx + fst (sv_workgroup_id ctx)"
  note rb = ready_bit_value [OF assms(1), of ?x]
  note lg = power_of_two_log2 [OF assms(1)]
  have 1: "\<exists>st'. nir_exec ctx (inserted (snd (task_draw_ready_bit (b\<lparr>inserted := []\<rparr>) s))) st = Some st'
        \<and> ssa_values st' (index (fst (task_draw_ready_bit (b\<lparr>inserted := []\<rparr>) s))) =
             Some [u32 (if bit ?x (util_bitcount (num_entries s - 1)) then 1 else 0)]"
    using exec_task_draw_ready_bit [OF assms(2), where ctx = ctx and b = b and s = s] rb(2)
    by auto
  have 2: "bit ?x (util_bitcount (num_entries s - 1)) \<longleftrightarrow> odd (unat ?x div unat (num_entries s))"
    using lg(3) by (simp add: bit_iff_odd_unat_div)
  have 3: "sv_local_invocation_index ctx = 0 \<longrightarrow>
          (\<exists>st'. nir_exec ctx (inserted (emit_task_finale (b\<lparr>inserted := []\<rparr>) s)) st = Some st'
             \<and> eff_value (last (effects st')) =
                  [u32 (if odd (unat ?x div unat (num_entries s)) then 1 else 0)])"
    using exec_emit_task_finale [OF assms(2), where ctx = ctx and b = b and s = s] rb(1)
    by auto
  from 1 2 3 lg(3) show ?thesis by blast
qed

text \<open>
  C2 on the ring of four entries, first pass (ring entry argument 4, workgroup 1): the bit
  number is 2 and the ready bit is 1.
\<close>

theorem task_draw_ready_bit_value_witness:
  "(\<exists>st'. nir_exec example_invocation
       (inserted (snd (task_draw_ready_bit (example_builder\<lparr>inserted := []\<rparr>) example_state)))
       example_exec_state = Some st'
     \<and> ssa_values st'
          (index (fst (task_draw_ready_bit (example_builder\<lparr>inserted := []\<rparr>) example_state)))
        = Some [u32 1])
   \<and> util_bitcount (num_entries example_state - 1) = 2
   \<and> (\<exists>st'. nir_exec example_invocation
          (inserted (emit_task_finale (example_builder\<lparr>inserted := []\<rparr>) example_state))
          example_exec_state = Some st'
        \<and> eff_value (last (effects st')) = [u32 1])"
proof -
  note t = task_draw_ready_bit_value [OF example_power_of_two_state example_active,
      where ctx = example_invocation and b = example_builder]
  from t have "(4 :: nat) = 2 ^ util_bitcount (num_entries example_state - 1)"
    by (simp add: example_state_def)
  then have "(2 :: nat) ^ 2 = 2 ^ util_bitcount (num_entries example_state - 1)" by simp
  then have c: "util_bitcount (num_entries example_state - 1) = 2"
    by (simp only: power_inject_exp [of 2] one_less_numeral_iff semiring_norm)
  from t have b: "bit (sv_task_ring_entry example_invocation + fst (sv_workgroup_id example_invocation))
            (util_bitcount (num_entries example_state - 1))"
    by (simp add: example_state_def example_invocation_def)
  from t b c show ?thesis
    by (simp add: example_invocation_def example_state_def)
qed

text \<open>
  C9: \<open>lower_task_intrinsics\<close> replaces a \<open>store_output\<close> whose value is the scalar
  \<open>x\<close> by code with one buffer access: a store to the draw ring at the byte offset of
  the workgroup's entry (entry index times the 16 bytes of a draw ring entry), constant
  offset 0, of the three components \<open>(x, 1, 1)\<close>.
\<close>

theorem lower_task_output_store_spec:
  assumes "intrinsic intrin = nir_intrinsic_store_output" and "src intrin = v # rest"
    and "ssa_values st (index v) = Some [x]" and "index v < ssa_alloc b"
    and "nir_active st" and "draw_entry_bytes s = 16"
  shows "\<exists>b' st'.
      lower_task_intrinsics (b\<lparr>inserted := []\<rparr>) (nir_instr_type_intrinsic intrin) s
        = Some (NIR_LOWER_INSTR_PROGRESS_REPLACE, b')
      \<and> length (filter nir_is_buffer_access (inserted b')) = 1
      \<and> nir_exec ctx (inserted b') st = Some st'
      \<and> effects st' = effects st @
           [effect_store_buffer (sv_ring_task_draw ctx) 0
              (((sv_task_ring_entry ctx + fst (sv_workgroup_id ctx)) AND (num_entries s - 1)) * 16)
              0 [x, u32 1, u32 1] 7 {nir_var_shader_out}]"
proof -
  from exec_lower_task_output_store [OF assms(5,2,3,4), where ctx = ctx and s = s]
  obtain b' st' where
    l: "lower_task_output_store (b\<lparr>inserted := []\<rparr>) intrin s = Some (NIR_LOWER_INSTR_PROGRESS_REPLACE, b')"
    and e: "nir_exec ctx (inserted b') st = Some st'"
      "effects st' = effects st @
           [effect_store_buffer (sv_ring_task_draw ctx) 0
              (((sv_task_ring_entry ctx + fst (sv_workgroup_id ctx)) AND (num_entries s - 1))
                 * draw_entry_bytes s)
              0 [x, u32 1, u32 1] 7 {nir_var_shader_out}]"
    by blast
  have "length (filter nir_is_buffer_access (inserted b')) = 1"
    using l assms(2)
    by (auto simp: lower_task_output_store_def emit_defs builder_defs Let_def)
  with l e assms(1,6) show ?thesis by simp
qed

text \<open>
  C9 for the store of the task count 3 by workgroup 1 on the ring of four entries.
\<close>

theorem lower_task_output_store_spec_witness:
  "\<exists>b' st'.
      lower_task_intrinsics (example_builder\<lparr>inserted := []\<rparr>)
        (nir_instr_type_intrinsic example_store_output) example_state
        = Some (NIR_LOWER_INSTR_PROGRESS_REPLACE, b')
      \<and> length (filter nir_is_buffer_access (inserted b')) = 1
      \<and> nir_exec example_invocation (inserted b') example_exec_state = Some st'
      \<and> effects st' =
           [effect_store_buffer [u32 1, u32 2, u32 3, u32 4] 0 16 0 [u32 3, u32 1, u32 1] 7
              {nir_var_shader_out}]"
  using lower_task_output_store_spec [where intrin = example_store_output
      and v = "example_def 0 1" and rest = "[]" and st = example_exec_state and x = "u32 3"
      and b = example_builder and s = example_state and ctx = example_invocation]
    example_active
  by (simp add: example_defs)

text \<open>
  C4: \<open>ac_nir_lower_task_outputs_to_mem\<close> puts the code of \<open>emit_task_finale\<close> behind
  everything else in the shader.  Run for an invocation, that code first performs a
  barrier of workgroup execution and memory scope with acquire-release semantics over
  task payload, shader output, SSBO and global memory, and then, only when the local
  invocation index is 0, one store to the draw ring at constant offset 12 of the
  workgroup's 16-byte entry.
\<close>

theorem emit_task_finale_spec:
  assumes "util_is_power_of_two_nonzero n" and "nir_io_valid shader" and "nir_active st"
  shows "\<exists>lowered shader' st'.
      nir_shader_lower_instructions shader filter_task_output_or_payload lower_task_intrinsics
        \<lparr>payload_entry_bytes = pb, draw_entry_bytes = 16, num_entries = n\<rparr> = Some lowered
      \<and> ac_nir_lower_task_outputs_to_mem shader pb n = Some shader'
      \<and> impl_body shader' = impl_body lowered @
           inserted (emit_task_finale (nir_builder_init lowered)
                       \<lparr>payload_entry_bytes = pb, draw_entry_bytes = 16, num_entries = n\<rparr>)
      \<and> nir_exec ctx
           (inserted (emit_task_finale (nir_builder_init lowered)
                        \<lparr>payload_entry_bytes = pb, draw_entry_bytes = 16, num_entries = n\<rparr>)) st
           = Some st'
      \<and> effects st' = effects st @
           effect_barrier NIR_SCOPE_WORKGROUP NIR_SCOPE_WORKGROUP NIR_MEMORY_ACQ_REL
             {nir_var_mem_task_payload, nir_var_shader_out, nir_var_mem_ssbo, nir_var_mem_global}
           # (if sv_local_invocation_index ctx = 0
              then [effect_store_buffer (sv_ring_task_draw ctx) 0
                      (((sv_task_ring_entry ctx + fst (sv_workgroup_id ctx)) AND (n - 1)) * 16)
                      12
                      [u32 (if odd (unat (sv_task_ring_entry ctx + fst (sv_workgroup_id ctx)) div unat n)
                            then 1 else 0)]
                      1 {nir_var_shader_out}]
              else [])"
proof -
  let ?s = "\<lparr>payload_entry_bytes = pb, draw_entry_bytes = 16, num_entries = n\<rparr>"
  from task_lower_instructions [OF assms(2), where s = ?s]
  obtain lowered where
    low: "nir_shader_lower_instructions shader filter_task_output_or_payload lower_task_intrinsics ?s
               = Some lowered"
    by blast
  note init = nir_builder_init_inserted [of lowered]
  from exec_emit_task_finale [OF assms(3), where ctx = ctx and b = "nir_builder_init lowered" and s = ?s]
  obtain st' where
    "nir_exec ctx (inserted (emit_task_finale (nir_builder_init lowered) ?s)) st = Some st'"
    "effects st' = effects st @
           effect_barrier NIR_SCOPE_WORKGROUP NIR_SCOPE_WORKGROUP NIR_MEMORY_ACQ_REL
             {nir_var_mem_task_payload, nir_var_shader_out, nir_var_mem_ssbo, nir_var_mem_global}
           # (if sv_local_invocation_index ctx = 0
              then [effect_store_buffer (sv_ring_task_draw ctx) 0
                      (((sv_task_ring_entry ctx + fst (sv_workgroup_id ctx)) AND (n - 1)) * 16)
                      12
                      [u32 (if odd (unat (sv_task_ring_entry ctx + fst (sv_workgroup_id ctx)) div unat n)
                            then 1 else 0)]
                      1 {nir_var_shader_out}]
              else [])"
    unfolding init using ready_bit_value(1) [OF assms(1)] by auto
  moreover have "ac_nir_lower_task_outputs_to_mem shader pb n
      = Some (lowered\<lparr>impl_ssa_alloc := ssa_alloc (emit_task_finale (nir_builder_init lowered) ?s),
                       impl_body := impl_body lowered
                         @ inserted (emit_task_finale (nir_builder_init lowered) ?s)\<rparr>)"
    using assms(1) low by (simp add: ac_nir_lower_task_outputs_to_mem_def Let_def)
  ultimately show ?thesis using low by auto
qed

text \<open>
  C4 for the example shader, lowered and run by the invocation with local index 0.
\<close>

theorem emit_task_finale_spec_witness:
  "\<exists>lowered shader' st'.
      nir_shader_lower_instructions example_shader filter_task_output_or_payload
        lower_task_intrinsics \<lparr>payload_entry_bytes = 256, draw_entry_bytes = 16, num_entries = 4\<rparr>
        = Some lowered
      \<and> ac_nir_lower_task_outputs_to_mem example_shader 256 4 = Some shader'
      \<and> impl_body shader' = impl_body lowered @
           inserted (emit_task_finale (nir_builder_init lowered)
                       \<lparr>payload_entry_bytes = 256, draw_entry_bytes = 16, num_entries = 4\<rparr>)
      \<and> nir_exec example_invocation
           (inserted (emit_task_finale (nir_builder_init lowered)
                        \<lparr>payload_entry_bytes = 256, draw_entry_bytes = 16, num_entries = 4\<rparr>))
           example_exec_state = Some st'
      \<and> effects st' =
           [effect_barrier NIR_SCOPE_WORKGROUP NIR_SCOPE_WORKGROUP NIR_MEMORY_ACQ_REL
              {nir_var_mem_task_payload, nir_var_shader_out, nir_var_mem_ssbo, nir_var_mem_global},
            effect_store_buffer [u32 1, u32 2, u32 3, u32 4] 0 16 12 [u32 1] 1 {nir_var_shader_out}]"
  using emit_task_finale_spec [OF example_power_of_two example_io_valid example_active,
      where ctx = example_invocation and pb = 256]
  by (simp add: example_invocation_def example_exec_state_def)

text \<open>
  C1: on a shader whose I/O intrinsics are well formed and for a number of entries
  that is a nonzero power of two,

  \<^item> the body \<open>ac_nir_lower_task_outputs_to_mem\<close> returns is the body of the shader
    in which each instruction with opcode \<open>store_output\<close>, \<open>store_task_payload\<close> or
    \<open>load_task_payload\<close> is replaced, where it stood, by the code
    \<open>lower_task_intrinsics\<close> inserts for it, and in which every use of a value such a
    load defined is redirected to the value \<open>lower_task_intrinsics\<close> returned for it,
    followed by the code of \<open>emit_task_finale\<close>; no instruction with one of the three
    opcodes is left, and there is one more buffer access for each instruction
    lowered and one for the ready bit;

  \<^item> the body \<open>ac_nir_lower_mesh_inputs_to_mem\<close> returns is the body of the shader
    in which each instruction with opcode \<open>load_task_payload\<close> is replaced, where it
    stood, by the code \<open>lower_mesh_intrinsics\<close> inserts for it, and in which every use
    of a value such a load defined is redirected to the value \<open>lower_mesh_intrinsics\<close>
    returned for it; no instruction with that opcode is left, and there is one more
    buffer access for each instruction lowered;

  \<^item> the code \<open>lower_task_intrinsics\<close> inserts for a \<open>store_output\<close>, run for an
    invocation, stores to the task draw ring; the code it inserts for a
    \<open>store_task_payload\<close> stores the value to the task payload ring at the address
    given; the code \<open>lower_task_intrinsics\<close> and \<open>lower_mesh_intrinsics\<close> insert for a
    \<open>load_task_payload\<close> loads from the task payload ring at the address given, and
    the value they return holds what was loaded and has the shape of the value the
    \<open>load_task_payload\<close> defined.
\<close>

theorem lowering_replaces_task_mesh_io:
  assumes "util_is_power_of_two_nonzero n" and "nir_io_valid shader"
    and "nir_io_uses_valid shader" and "nir_active st"
  shows
    "(\<exists>shader' a. ac_nir_lower_task_outputs_to_mem shader pb n = Some shader'
        \<and> impl_body shader' =
            nir_lowered_body
              [nir_intrinsic_store_output, nir_intrinsic_store_task_payload,
               nir_intrinsic_load_task_payload]
              lower_task_intrinsics
              \<lparr>payload_entry_bytes = pb, draw_entry_bytes = 16, num_entries = n\<rparr> shader
            @ inserted (emit_task_finale (nir_callback_builder (info_stage shader) a)
                          \<lparr>payload_entry_bytes = pb, draw_entry_bytes = 16, num_entries = n\<rparr>)
        \<and> list_all (\<lambda>i. \<not> nir_instr_has_opcode
                             [nir_intrinsic_store_output, nir_intrinsic_store_task_payload,
                              nir_intrinsic_load_task_payload] i) (impl_body shader')
        \<and> length (filter nir_is_buffer_access (impl_body shader')) =
            length (filter nir_is_buffer_access (impl_body shader))
            + length (filter (nir_instr_has_opcode
                                [nir_intrinsic_store_output, nir_intrinsic_store_task_payload,
                                 nir_intrinsic_load_task_payload]) (impl_body shader)) + 1)
     \<and> (\<exists>shader'. ac_nir_lower_mesh_inputs_to_mem shader pb n = Some shader'
        \<and> impl_body shader' =
            nir_lowered_body [nir_intrinsic_load_task_payload] lower_mesh_intrinsics
              \<lparr>payload_entry_bytes = pb, draw_entry_bytes = 16, num_entries = n\<rparr> shader
        \<and> list_all (\<lambda>i. \<not> nir_instr_has_opcode [nir_intrinsic_load_task_payload] i)
              (impl_body shader')
        \<and> length (filter nir_is_buffer_access (impl_body shader')) =
            length (filter nir_is_buffer_access (impl_body shader))
            + length (filter (nir_instr_has_opcode [nir_intrinsic_load_task_payload])
                        (impl_body shader)))
     \<and> (intrinsic intrin = nir_intrinsic_store_output \<and> src intrin = v # rest
          \<and> ssa_values st (index v) = Some [x] \<and> index v < a \<longrightarrow>
          (\<exists>b' st' s_offset.
             lower_task_intrinsics (nir_callback_builder stage a) (nir_instr_type_intrinsic intrin) s
               = Some (NIR_LOWER_INSTR_PROGRESS_REPLACE, b')
             \<and> nir_exec ctx (inserted b') st = Some st'
             \<and> effects st' = effects st @
                  [effect_store_buffer (sv_ring_task_draw ctx) 0 s_offset 0 [x, u32 1, u32 1] 7
                     {nir_var_shader_out}]))
     \<and> (intrinsic intrin = nir_intrinsic_store_task_payload \<and> src intrin = v # addr # rest
          \<and> ssa_values st (index v) = Some val \<and> ssa_values st (index addr) = Some [u32 ad]
          \<and> index v < a \<and> index addr < a \<longrightarrow>
          (\<exists>b' st' s_offset write_mask.
             lower_task_intrinsics (nir_callback_builder stage a) (nir_instr_type_intrinsic intrin) s
               = Some (NIR_LOWER_INSTR_PROGRESS_REPLACE, b')
             \<and> nir_exec ctx (inserted b') st = Some st'
             \<and> effects st' = effects st @
                  [effect_store_buffer (sv_ring_task_payload ctx) ad s_offset
                     (nir_intrinsic_base intrin) val write_mask {nir_var_mem_task_payload}]))
     \<and> (intrinsic intrin = nir_intrinsic_load_task_payload \<and> src intrin = addr # rest
          \<and> dest intrin = Some d
          \<and> ssa_values st (index addr) = Some [u32 ad] \<and> index addr < a \<longrightarrow>
          (\<exists>r b' st' s_offset.
             lower_task_intrinsics (nir_callback_builder stage a) (nir_instr_type_intrinsic intrin) s
               = Some (NIR_LOWER_INSTR_DEF r, b')
             \<and> lower_mesh_intrinsics (nir_callback_builder stage a) (nir_instr_type_intrinsic intrin) s
               = Some (NIR_LOWER_INSTR_DEF r, b')
             \<and> num_components r = num_components d \<and> bit_size r = bit_size d
             \<and> nir_exec ctx (inserted b') st = Some st'
             \<and> effects st' = effects st @
                  [effect_load_buffer (sv_ring_task_payload ctx) ad s_offset
                     (nir_intrinsic_base intrin) {nir_var_mem_task_payload}]
             \<and> ssa_values st' (index r) =
                  Some (buffer_memory ctx (sv_ring_task_payload ctx) ad s_offset
                          (nir_intrinsic_base intrin) (num_components d) (bit_size d))))"
proof -
  let ?s = "\<lparr>payload_entry_bytes = pb, draw_entry_bytes = 16, num_entries = n\<rparr>"
  let ?B = "nir_callback_builder stage a"
  have B: "?B\<lparr>inserted := []\<rparr> = ?B" "ssa_alloc ?B = a" "shader_stage ?B = stage"
    by (simp_all add: nir_callback_builder_def)
  from task_lower_instructions [OF assms(2), where s = ?s]
  obtain lowered where
    low: "nir_shader_lower_instructions shader filter_task_output_or_payload lower_task_intrinsics ?s
            = Some lowered"
      "list_all (\<lambda>j. \<not> filter_task_output_or_payload j) (impl_body lowered)"
      "length (filter nir_is_buffer_access (impl_body lowered)) =
          length (filter nir_is_buffer_access (impl_body shader))
          + length (filter filter_task_output_or_payload (impl_body shader))"
    by blast
  from task_lower_in_place [OF assms(2,3), where s = ?s] low(1)
  have place: "impl_body lowered =
          nir_lowered_body
            [nir_intrinsic_store_output, nir_intrinsic_store_task_payload,
             nir_intrinsic_load_task_payload] lower_task_intrinsics ?s shader"
    and stg: "info_stage lowered = info_stage shader"
    by auto
  have init: "nir_builder_init lowered
                = nir_callback_builder (info_stage shader) (impl_ssa_alloc lowered)"
    by (simp add: nir_builder_init_def nir_callback_builder_def stg)
  note fin = emit_task_finale_structure [of "nir_builder_init lowered" ?s,
      unfolded nir_builder_init_inserted]
  have 1: "\<exists>shader' a. ac_nir_lower_task_outputs_to_mem shader pb n = Some shader'
        \<and> impl_body shader' =
            nir_lowered_body
              [nir_intrinsic_store_output, nir_intrinsic_store_task_payload,
               nir_intrinsic_load_task_payload] lower_task_intrinsics ?s shader
            @ inserted (emit_task_finale (nir_callback_builder (info_stage shader) a) ?s)
        \<and> list_all (\<lambda>i. \<not> nir_instr_has_opcode
                             [nir_intrinsic_store_output, nir_intrinsic_store_task_payload,
                              nir_intrinsic_load_task_payload] i) (impl_body shader')
        \<and> length (filter nir_is_buffer_access (impl_body shader')) =
            length (filter nir_is_buffer_access (impl_body shader))
            + length (filter (nir_instr_has_opcode
                                [nir_intrinsic_store_output, nir_intrinsic_store_task_payload,
                                 nir_intrinsic_load_task_payload]) (impl_body shader)) + 1"
    unfolding filter_task_opcode
    using assms(1) low fin place [symmetric]
    by (simp add: ac_nir_lower_task_outputs_to_mem_def Let_def init) (metis init)
  from mesh_lower_instructions [OF assms(2), where s = ?s]
  obtain mlowered where
    mlow: "nir_shader_lower_instructions shader filter_mesh_input_load lower_mesh_intrinsics ?s
            = Some mlowered"
      "list_all (\<lambda>j. \<not> filter_mesh_input_load j) (impl_body mlowered)"
      "length (filter nir_is_buffer_access (impl_body mlowered)) =
          length (filter nir_is_buffer_access (impl_body shader))
          + length (filter filter_mesh_input_load (impl_body shader))"
    by blast
  from mesh_lower_in_place [OF assms(2,3), where s = ?s] mlow(1)
  have mplace: "impl_body mlowered =
          nir_lowered_body [nir_intrinsic_load_task_payload] lower_mesh_intrinsics ?s shader"
    by auto
  have 2: "\<exists>shader'. ac_nir_lower_mesh_inputs_to_mem shader pb n = Some shader'
        \<and> impl_body shader' =
            nir_lowered_body [nir_intrinsic_load_task_payload] lower_mesh_intrinsics ?s shader
        \<and> list_all (\<lambda>i. \<not> nir_instr_has_opcode [nir_intrinsic_load_task_payload] i)
              (impl_body shader')
        \<and> length (filter nir_is_buffer_access (impl_body shader')) =
            length (filter nir_is_buffer_access (impl_body shader))
            + length (filter (nir_instr_has_opcode [nir_intrinsic_load_task_payload])
                        (impl_body shader))"
    unfolding filter_mesh_opcode
    using assms(1) mlow mplace
    by (simp add: ac_nir_lower_mesh_inputs_to_mem_def Let_def)
  have 3: "intrinsic intrin = nir_intrinsic_store_output \<and> src intrin = v # rest
          \<and> ssa_values st (index v) = Some [x] \<and> index v < a \<longrightarrow>
          (\<exists>b' st' s_offset.
             lower_task_intrinsics ?B (nir_instr_type_intrinsic intrin) s
               = Some (NIR_LOWER_INSTR_PROGRESS_REPLACE, b')
             \<and> nir_exec ctx (inserted b') st = Some st'
             \<and> effects st' = effects st @
                  [effect_store_buffer (sv_ring_task_draw ctx) 0 s_offset 0 [x, u32 1, u32 1] 7
                     {nir_var_shader_out}])"
  proof
    assume "intrinsic intrin = nir_intrinsic_store_output \<and> src intrin = v # rest
          \<and> ssa_values st (index v) = Some [x] \<and> index v < a"
    then have h: "src intrin = v # rest" "ssa_values st (index v) = Some [x]" "index v < ssa_alloc ?B"
      and op: "intrinsic intrin = nir_intrinsic_store_output" by (simp_all add: B)
    from exec_lower_task_output_store [OF assms(4) h, where ctx = ctx and s = s] op
    show "\<exists>b' st' s_offset.
             lower_task_intrinsics ?B (nir_instr_type_intrinsic intrin) s
               = Some (NIR_LOWER_INSTR_PROGRESS_REPLACE, b')
             \<and> nir_exec ctx (inserted b') st = Some st'
             \<and> effects st' = effects st @
                  [effect_store_buffer (sv_ring_task_draw ctx) 0 s_offset 0 [x, u32 1, u32 1] 7
                     {nir_var_shader_out}]"
      unfolding B by auto
  qed
  have 4: "intrinsic intrin = nir_intrinsic_store_task_payload \<and> src intrin = v # addr # rest
          \<and> ssa_values st (index v) = Some val \<and> ssa_values st (index addr) = Some [u32 ad]
          \<and> index v < a \<and> index addr < a \<longrightarrow>
          (\<exists>b' st' s_offset write_mask.
             lower_task_intrinsics ?B (nir_instr_type_intrinsic intrin) s
               = Some (NIR_LOWER_INSTR_PROGRESS_REPLACE, b')
             \<and> nir_exec ctx (inserted b') st = Some st'
             \<and> effects st' = effects st @
                  [effect_store_buffer (sv_ring_task_payload ctx) ad s_offset
                     (nir_intrinsic_base intrin) val write_mask {nir_var_mem_task_payload}])"
  proof
    assume "intrinsic intrin = nir_intrinsic_store_task_payload \<and> src intrin = v # addr # rest
          \<and> ssa_values st (index v) = Some val \<and> ssa_values st (index addr) = Some [u32 ad]
          \<and> index v < a \<and> index addr < a"
    then have h: "src intrin = v # addr # rest" "ssa_values st (index v) = Some val"
      "ssa_values st (index addr) = Some [u32 ad]" "index v < ssa_alloc ?B" "index addr < ssa_alloc ?B"
      and op: "intrinsic intrin = nir_intrinsic_store_task_payload" by (simp_all add: B)
    from exec_lower_task_payload_store [OF assms(4) h, where ctx = ctx and s = s] op
    show "\<exists>b' st' s_offset write_mask.
             lower_task_intrinsics ?B (nir_instr_type_intrinsic intrin) s
               = Some (NIR_LOWER_INSTR_PROGRESS_REPLACE, b')
             \<and> nir_exec ctx (inserted b') st = Some st'
             \<and> effects st' = effects st @
                  [effect_store_buffer (sv_ring_task_payload ctx) ad s_offset
                     (nir_intrinsic_base intrin) val write_mask {nir_var_mem_task_payload}]"
      unfolding B by auto
  qed
  have 5: "intrinsic intrin = nir_intrinsic_load_task_payload \<and> src intrin = addr # rest
          \<and> dest intrin = Some d
          \<and> ssa_values st (index addr) = Some [u32 ad] \<and> index addr < a \<longrightarrow>
          (\<exists>r b' st' s_offset.
             lower_task_intrinsics ?B (nir_instr_type_intrinsic intrin) s
               = Some (NIR_LOWER_INSTR_DEF r, b')
             \<and> lower_mesh_intrinsics ?B (nir_instr_type_intrinsic intrin) s
               = Some (NIR_LOWER_INSTR_DEF r, b')
             \<and> num_components r = num_components d \<and> bit_size r = bit_size d
             \<and> nir_exec ctx (inserted b') st = Some st'
             \<and> effects st' = effects st @
                  [effect_load_buffer (sv_ring_task_payload ctx) ad s_offset
                     (nir_intrinsic_base intrin) {nir_var_mem_task_payload}]
             \<and> ssa_values st' (index r) =
                  Some (buffer_memory ctx (sv_ring_task_payload ctx) ad s_offset
                          (nir_intrinsic_base intrin) (num_components d) (bit_size d)))"
  proof
    assume "intrinsic intrin = nir_intrinsic_load_task_payload \<and> src intrin = addr # rest
          \<and> dest intrin = Some d
          \<and> ssa_values st (index addr) = Some [u32 ad] \<and> index addr < a"
    then have h: "src intrin = addr # rest" "dest intrin = Some d"
      "ssa_values st (index addr) = Some [u32 ad]" "index addr < ssa_alloc ?B"
      and op: "intrinsic intrin = nir_intrinsic_load_task_payload" by (simp_all add: B)
    from exec_lower_taskmesh_payload_load [OF assms(4) h, where ctx = ctx and s = s] op
    show "\<exists>r b' st' s_offset.
             lower_task_intrinsics ?B (nir_instr_type_intrinsic intrin) s
               = Some (NIR_LOWER_INSTR_DEF r, b')
             \<and> lower_mesh_intrinsics ?B (nir_instr_type_intrinsic intrin) s
               = Some (NIR_LOWER_INSTR_DEF r, b')
             \<and> num_components r = num_components d \<and> bit_size r = bit_size d
             \<and> nir_exec ctx (inserted b') st = Some st'
             \<and> effects st' = effects st @
                  [effect_load_buffer (sv_ring_task_payload ctx) ad s_offset
                     (nir_intrinsic_base intrin) {nir_var_mem_task_payload}]
             \<and> ssa_values st' (index r) =
                  Some (buffer_memory ctx (sv_ring_task_payload ctx) ad s_offset
                          (nir_intrinsic_base intrin) (num_components d) (bit_size d))"
      unfolding B by auto
  qed
  from 1 2 3 4 5 show ?thesis by blast
qed

text \<open>
  C1 for the example task shader, which has three instructions for the task pass to
  lower, and for the example mesh shader, which has one for the mesh pass.  In the
  task shader the last instruction used the value 2 of the \<open>load_task_payload\<close> and uses
  value 29, which the \<open>load_buffer_amd\<close> in its place defines, afterwards.  The body of
  the mesh shader is given in full.  The callbacks are run on the three I/O intrinsics.
\<close>

theorem lowering_replaces_task_mesh_io_witness:
  "(\<exists>shader'. ac_nir_lower_task_outputs_to_mem example_shader 256 4 = Some shader'
      \<and> length (impl_body shader') = 53
      \<and> impl_body shader' ! 29 =
           nir_instr_type_intrinsic
             ((nir_intrinsic_instr_create nir_intrinsic_load_buffer_amd)
                \<lparr>dest := Some (example_def 29 1),
                 src := [example_def 27 4, example_def 1 1, example_def 28 1],
                 nir_intrinsic_memory_modes := {nir_var_mem_task_payload}\<rparr>)
      \<and> impl_body shader' ! 31 =
           nir_instr_type_other 0 None [example_def 29 1, example_def 3 3]
      \<and> list_all (\<lambda>i. \<not> nir_instr_has_opcode
                           [nir_intrinsic_store_output, nir_intrinsic_store_task_payload,
                            nir_intrinsic_load_task_payload] i) (impl_body shader')
      \<and> length (filter nir_is_buffer_access (impl_body shader')) = 4)
   \<and> (\<exists>shader'. ac_nir_lower_mesh_inputs_to_mem example_mesh_shader 256 4 = Some shader'
      \<and> impl_body shader' =
           [nir_instr_type_alu (op_imm_int 64) (example_def 1 1) [],
            nir_instr_type_intrinsic
              ((nir_intrinsic_instr_create nir_intrinsic_load_task_ring_entry_amd)
                 \<lparr>dest := Some (example_def 4 1)\<rparr>),
            nir_instr_type_alu (op_iand_imm 3) (example_def 5 1) [example_def 4 1],
            nir_instr_type_intrinsic
              ((nir_intrinsic_instr_create nir_intrinsic_load_ring_task_payload_amd)
                 \<lparr>dest := Some (example_def 6 4)\<rparr>),
            nir_instr_type_alu (op_imul_imm 256) (example_def 7 1) [example_def 5 1],
            nir_instr_type_intrinsic
              ((nir_intrinsic_instr_create nir_intrinsic_load_buffer_amd)
                 \<lparr>dest := Some (example_def 8 1),
                  src := [example_def 6 4, example_def 1 1, example_def 7 1],
                  nir_intrinsic_memory_modes := {nir_var_mem_task_payload}\<rparr>),
            nir_instr_type_other 0 None [example_def 8 1]]
      \<and> list_all (\<lambda>i. \<not> nir_instr_has_opcode [nir_intrinsic_load_task_payload] i)
            (impl_body shader')
      \<and> length (filter nir_is_buffer_access (impl_body shader')) = 1)
   \<and> (\<exists>b' st' s_offset.
         lower_task_intrinsics (nir_callback_builder MESA_SHADER_TASK 4)
           (nir_instr_type_intrinsic example_store_output) example_state
           = Some (NIR_LOWER_INSTR_PROGRESS_REPLACE, b')
         \<and> nir_exec example_invocation (inserted b') example_exec_state = Some st'
         \<and> effects st' =
              [effect_store_buffer (sv_ring_task_draw example_invocation) 0 s_offset 0
                 [u32 3, u32 1, u32 1] 7 {nir_var_shader_out}])
   \<and> (\<exists>b' st' s_offset write_mask.
         lower_task_intrinsics (nir_callback_builder MESA_SHADER_TASK 4)
           (nir_instr_type_intrinsic example_store_task_payload) example_state
           = Some (NIR_LOWER_INSTR_PROGRESS_REPLACE, b')
         \<and> nir_exec example_invocation (inserted b') example_exec_state = Some st'
         \<and> effects st' =
              [effect_store_buffer (sv_ring_task_payload example_invocation) 64 s_offset 0
                 [u32 3] write_mask {nir_var_mem_task_payload}])
   \<and> (\<exists>b' st' s_offset.
         lower_mesh_intrinsics (nir_callback_builder MESA_SHADER_MESH 4)
           (nir_instr_type_intrinsic example_load_task_payload) example_state
           = Some (NIR_LOWER_INSTR_DEF (example_def 8 1), b')
         \<and> nir_exec example_invocation (inserted b') example_exec_state = Some st'
         \<and> effects st' =
              [effect_load_buffer (sv_ring_task_payload example_invocation) 64 s_offset 0
                 {nir_var_mem_task_payload}]
         \<and> ssa_values st' 8 = Some [u32 9])"
proof -
  note tt = lowering_replaces_task_mesh_io
      [OF example_power_of_two example_io_valid example_io_uses_valid example_active,
       where pb = 256 and ctx = example_invocation and stage = MESA_SHADER_TASK and a = 4
         and s = example_state]
  note tm = lowering_replaces_task_mesh_io
      [OF example_power_of_two example_mesh_io_valid example_mesh_io_uses_valid example_active,
       where pb = 256 and ctx = example_invocation and stage = MESA_SHADER_MESH and a = 4
         and s = example_state]
  let ?ops = "[nir_intrinsic_store_output, nir_intrinsic_store_task_payload,
               nir_intrinsic_load_task_payload]"
  let ?s = "\<lparr>payload_entry_bytes = 256, draw_entry_bytes = 16, num_entries = 4\<rparr>"
  let ?L = "nir_lowered_body ?ops lower_task_intrinsics ?s example_shader"
  have c: "length (filter nir_is_buffer_access (impl_body example_shader)) = 0"
    "length (filter (nir_instr_has_opcode ?ops) (impl_body example_shader)) = 3"
    "length (filter nir_is_buffer_access (impl_body example_mesh_shader)) = 0"
    "length (filter (nir_instr_has_opcode [nir_intrinsic_load_task_payload])
               (impl_body example_mesh_shader)) = 1"
    by (simp_all add: example_defs example_mesh_shader_def)
  have L: "length ?L = 32"
    "?L ! 29 =
           nir_instr_type_intrinsic
             ((nir_intrinsic_instr_create nir_intrinsic_load_buffer_amd)
                \<lparr>dest := Some (example_def 29 1),
                 src := [example_def 27 4, example_def 1 1, example_def 28 1],
                 nir_intrinsic_memory_modes := {nir_var_mem_task_payload}\<rparr>)"
    "?L ! 31 = nir_instr_type_other 0 None [example_def 29 1, example_def 3 3]"
    by (simp_all add: nir_lowered_body_def nir_callback_builder_def nir_redirect_def
          lower_task_output_store_def lower_task_payload_store_def lower_taskmesh_payload_load_def
          emit_defs builder_defs Let_def example_defs)
  have fin: "length (inserted (emit_task_finale (nir_callback_builder MESA_SHADER_TASK a) ?s)) = 21"
    for a
    by (simp add: emit_task_finale_def nir_callback_builder_def emit_defs builder_defs Let_def)
  have 1: "\<exists>shader'. ac_nir_lower_task_outputs_to_mem example_shader 256 4 = Some shader'
      \<and> length (impl_body shader') = 53
      \<and> impl_body shader' ! 29 =
           nir_instr_type_intrinsic
             ((nir_intrinsic_instr_create nir_intrinsic_load_buffer_amd)
                \<lparr>dest := Some (example_def 29 1),
                 src := [example_def 27 4, example_def 1 1, example_def 28 1],
                 nir_intrinsic_memory_modes := {nir_var_mem_task_payload}\<rparr>)
      \<and> impl_body shader' ! 31 =
           nir_instr_type_other 0 None [example_def 29 1, example_def 3 3]
      \<and> list_all (\<lambda>i. \<not> nir_instr_has_opcode ?ops i) (impl_body shader')
      \<and> length (filter nir_is_buffer_access (impl_body shader')) = 4"
  proof -
    from tt [THEN conjunct1] obtain shader' a where
      s: "ac_nir_lower_task_outputs_to_mem example_shader 256 4 = Some shader'"
        "impl_body shader' =
           ?L @ inserted (emit_task_finale (nir_callback_builder (info_stage example_shader) a) ?s)"
        "list_all (\<lambda>i. \<not> nir_instr_has_opcode ?ops i) (impl_body shader')"
        "length (filter nir_is_buffer_access (impl_body shader')) =
            length (filter nir_is_buffer_access (impl_body example_shader))
            + length (filter (nir_instr_has_opcode ?ops) (impl_body example_shader)) + 1"
      by blast
    have stg: "info_stage example_shader = MESA_SHADER_TASK" by (simp add: example_shader_def)
    from s(2) have "length (impl_body shader') = 53" "impl_body shader' ! 29 = ?L ! 29"
      "impl_body shader' ! 31 = ?L ! 31"
      by (simp_all add: stg fin L(1) nth_append)
    with s(1,3,4) show ?thesis by (simp add: c L(2,3))
  qed
  have 2: "\<exists>shader'. ac_nir_lower_mesh_inputs_to_mem example_mesh_shader 256 4 = Some shader'
      \<and> impl_body shader' =
           [nir_instr_type_alu (op_imm_int 64) (example_def 1 1) [],
            nir_instr_type_intrinsic
              ((nir_intrinsic_instr_create nir_intrinsic_load_task_ring_entry_amd)
                 \<lparr>dest := Some (example_def 4 1)\<rparr>),
            nir_instr_type_alu (op_iand_imm 3) (example_def 5 1) [example_def 4 1],
            nir_instr_type_intrinsic
              ((nir_intrinsic_instr_create nir_intrinsic_load_ring_task_payload_amd)
                 \<lparr>dest := Some (example_def 6 4)\<rparr>),
            nir_instr_type_alu (op_imul_imm 256) (example_def 7 1) [example_def 5 1],
            nir_instr_type_intrinsic
              ((nir_intrinsic_instr_create nir_intrinsic_load_buffer_amd)
                 \<lparr>dest := Some (example_def 8 1),
                  src := [example_def 6 4, example_def 1 1, example_def 7 1],
                  nir_intrinsic_memory_modes := {nir_var_mem_task_payload}\<rparr>),
            nir_instr_type_other 0 None [example_def 8 1]]
      \<and> list_all (\<lambda>i. \<not> nir_instr_has_opcode [nir_intrinsic_load_task_payload] i)
            (impl_body shader')
      \<and> length (filter nir_is_buffer_access (impl_body shader')) = 1"
  proof -
    have M: "nir_lowered_body [nir_intrinsic_load_task_payload] lower_mesh_intrinsics ?s
               example_mesh_shader =
           [nir_instr_type_alu (op_imm_int 64) (example_def 1 1) [],
            nir_instr_type_intrinsic
              ((nir_intrinsic_instr_create nir_intrinsic_load_task_ring_entry_amd)
                 \<lparr>dest := Some (example_def 4 1)\<rparr>),
            nir_instr_type_alu (op_iand_imm 3) (example_def 5 1) [example_def 4 1],
            nir_instr_type_intrinsic
              ((nir_intrinsic_instr_create nir_intrinsic_load_ring_task_payload_amd)
                 \<lparr>dest := Some (example_def 6 4)\<rparr>),
            nir_instr_type_alu (op_imul_imm 256) (example_def 7 1) [example_def 5 1],
            nir_instr_type_intrinsic
              ((nir_intrinsic_instr_create nir_intrinsic_load_buffer_amd)
                 \<lparr>dest := Some (example_def 8 1),
                  src := [example_def 6 4, example_def 1 1, example_def 7 1],
                  nir_intrinsic_memory_modes := {nir_var_mem_task_payload}\<rparr>),
            nir_instr_type_other 0 None [example_def 8 1]]"
      by (simp add: nir_lowered_body_def nir_callback_builder_def nir_redirect_def
            lower_taskmesh_payload_load_def emit_defs builder_defs Let_def example_defs
            example_mesh_shader_def)
    from tm [THEN conjunct2, THEN conjunct1] show ?thesis
      unfolding M by (simp add: c)
  qed
  have 3: "\<exists>b' st' s_offset.
         lower_task_intrinsics (nir_callback_builder MESA_SHADER_TASK 4)
           (nir_instr_type_intrinsic example_store_output) example_state
           = Some (NIR_LOWER_INSTR_PROGRESS_REPLACE, b')
         \<and> nir_exec example_invocation (inserted b') example_exec_state = Some st'
         \<and> effects st' =
              [effect_store_buffer (sv_ring_task_draw example_invocation) 0 s_offset 0
                 [u32 3, u32 1, u32 1] 7 {nir_var_shader_out}]"
    using tt [where intrin = example_store_output and v = "example_def 0 1" and rest = "[]"
        and x = "u32 3", THEN conjunct2, THEN conjunct2, THEN conjunct1]
    by (simp add: example_defs)
  have 4: "\<exists>b' st' s_offset write_mask.
         lower_task_intrinsics (nir_callback_builder MESA_SHADER_TASK 4)
           (nir_instr_type_intrinsic example_store_task_payload) example_state
           = Some (NIR_LOWER_INSTR_PROGRESS_REPLACE, b')
         \<and> nir_exec example_invocation (inserted b') example_exec_state = Some st'
         \<and> effects st' =
              [effect_store_buffer (sv_ring_task_payload example_invocation) 64 s_offset 0
                 [u32 3] write_mask {nir_var_mem_task_payload}]"
    using tt [where intrin = example_store_task_payload and v = "example_def 0 1"
        and addr = "example_def 1 1" and rest = "[]" and val = "[u32 3]" and ad = 64,
        THEN conjunct2, THEN conjunct2, THEN conjunct2, THEN conjunct1]
    by (simp add: example_defs)
  have r: "lower_mesh_intrinsics (nir_callback_builder MESA_SHADER_MESH 4)
           (nir_instr_type_intrinsic example_load_task_payload) example_state
           = Some (NIR_LOWER_INSTR_DEF r, b') \<Longrightarrow> r = example_def 8 1" for r b'
    by (auto simp: nir_callback_builder_def lower_taskmesh_payload_load_def emit_defs builder_defs
          Let_def example_defs)
  have 5: "\<exists>b' st' s_offset.
         lower_mesh_intrinsics (nir_callback_builder MESA_SHADER_MESH 4)
           (nir_instr_type_intrinsic example_load_task_payload) example_state
           = Some (NIR_LOWER_INSTR_DEF (example_def 8 1), b')
         \<and> nir_exec example_invocation (inserted b') example_exec_state = Some st'
         \<and> effects st' =
              [effect_load_buffer (sv_ring_task_payload example_invocation) 64 s_offset 0
                 {nir_var_mem_task_payload}]
         \<and> ssa_values st' 8 = Some [u32 9]"
  proof -
    from tm [where intrin = example_load_task_payload and addr = "example_def 1 1" and rest = "[]"
        and d = "example_def 2 1" and ad = 64,
        THEN conjunct2, THEN conjunct2, THEN conjunct2, THEN conjunct2]
    obtain r b' st' s_offset where
      h: "lower_mesh_intrinsics (nir_callback_builder MESA_SHADER_MESH 4)
           (nir_instr_type_intrinsic example_load_task_payload) example_state
           = Some (NIR_LOWER_INSTR_DEF r, b')"
        "nir_exec example_invocation (inserted b') example_exec_state = Some st'"
        "effects st' =
              [effect_load_buffer (sv_ring_task_payload example_invocation) 64 s_offset 0
                 {nir_var_mem_task_payload}]"
        "ssa_values st' (index r) = Some [u32 9]"
      by (simp add: example_defs) blast
    from r [OF h(1)] have "r = example_def 8 1" .
    with h show ?thesis by (auto simp: example_def_def)
  qed
  from 1 2 3 4 5 show ?thesis by blast
qed

text \<open>
  C8: a shader that does not read the workgroup id is returned as it is.  Otherwise
  the pass puts the code of \<open>ac_nir_apply_first_task_build\<close> in front of the body,
  removes every instruction with opcode \<open>load_workgroup_id\<close> that was there and
  redirects every use of the values they defined to the value \<open>api\<close> that code
  defines.  Run for an invocation, that code
  gives \<open>api\<close> the value \<open>(hw_workgroup_id.x + first_task, 0, 0)\<close>, where \<open>first_task\<close>
  is 0 when the stride of the indirect buffer is 0 and otherwise the 32-bit word loaded
  from the address of the indirect buffer plus \<open>draw_id * stride\<close> plus 4.
\<close>

theorem ac_nir_apply_first_task_to_task_shader_spec:
  "(SYSTEM_VALUE_WORKGROUP_ID \<notin> info_system_values_read shader \<longrightarrow>
      ac_nir_apply_first_task_to_task_shader shader = Some shader)
   \<and> (SYSTEM_VALUE_WORKGROUP_ID \<in> info_system_values_read shader
       \<and> list_all (nir_workgroup_id_valid (impl_ssa_alloc shader)) (impl_body shader)
       \<and> ac_nir_apply_first_task_build (nir_builder_init shader) = ((hw, api), b) \<longrightarrow>
      (\<exists>shader'. ac_nir_apply_first_task_to_task_shader shader = Some shader'
         \<and> impl_body shader' =
             inserted b
             @ map (nir_instr_map_srcs
                      (nir_src_rewrite_all (nir_workgroup_id_defs (impl_body shader)) api))
                 (filter (\<lambda>i. \<not> nir_instr_has_opcode [nir_intrinsic_load_workgroup_id] i)
                    (impl_body shader))))
   \<and> (ac_nir_apply_first_task_build (nir_builder_init shader) = ((hw, api), b)
       \<and> nir_active st
       \<and> (sv_task_ib_stride ctx \<noteq> 0 \<longrightarrow>
            global_memory ctx
              ((ucast (fst (sv_task_ib_addr ctx)) OR push_bit 32 (ucast (snd (sv_task_ib_addr ctx))))
                 + ucast (sv_draw_id ctx * sv_task_ib_stride ctx) + 4) 1 32 = [u32 first_task]) \<longrightarrow>
      (\<exists>st'. nir_exec ctx (inserted b) st = Some st'
         \<and> ssa_values st' (index hw) =
              Some [u32 (fst (sv_workgroup_id ctx)), u32 (fst (snd (sv_workgroup_id ctx))),
                    u32 (snd (snd (sv_workgroup_id ctx)))]
         \<and> ssa_values st' (index api) =
              Some [u32 (fst (sv_workgroup_id ctx)
                         + (if sv_task_ib_stride ctx = 0 then 0 else first_task)),
                    u32 0, u32 0]))"
proof -
  let ?pass = "ac_nir_apply_first_task_to_task_shader shader"
  have 1: "SYSTEM_VALUE_WORKGROUP_ID \<notin> info_system_values_read shader \<longrightarrow> ?pass = Some shader"
    by (simp add: ac_nir_apply_first_task_to_task_shader_def)
  have 2: "SYSTEM_VALUE_WORKGROUP_ID \<in> info_system_values_read shader
       \<and> list_all (nir_workgroup_id_valid (impl_ssa_alloc shader)) (impl_body shader)
       \<and> ac_nir_apply_first_task_build (nir_builder_init shader) = ((hw, api), b) \<longrightarrow>
      (\<exists>shader'. ?pass = Some shader'
         \<and> impl_body shader' =
             inserted b
             @ map (nir_instr_map_srcs
                      (nir_src_rewrite_all (nir_workgroup_id_defs (impl_body shader)) api))
                 (filter (\<lambda>i. \<not> nir_instr_has_opcode [nir_intrinsic_load_workgroup_id] i)
                    (impl_body shader)))"
  proof
    assume "SYSTEM_VALUE_WORKGROUP_ID \<in> info_system_values_read shader
       \<and> list_all (nir_workgroup_id_valid (impl_ssa_alloc shader)) (impl_body shader)
       \<and> ac_nir_apply_first_task_build (nir_builder_init shader) = ((hw, api), b)"
    then have rd: "SYSTEM_VALUE_WORKGROUP_ID \<in> info_system_values_read shader"
      and valid: "list_all (nir_workgroup_id_valid (impl_ssa_alloc shader)) (impl_body shader)"
      and build: "ac_nir_apply_first_task_build ((nir_builder_init shader)\<lparr>inserted := []\<rparr>) = ((hw, api), b)"
      by (simp_all add: nir_builder_init_inserted)
    let ?a = "impl_ssa_alloc shader"
    let ?D = "nir_workgroup_id_defs (impl_body shader)"
    let ?M = "nir_instr_map_srcs (nir_src_rewrite_all ?D api)"
    let ?s = "\<lparr>hw_workgroup_id = Some hw, api_workgroup_id = Some api\<rparr>"
    note fresh = first_task_build_fresh [OF build, unfolded nir_builder_init_def, simplified]
    have hw: "?a \<le> index hw" using fresh(1) .
    have D: "\<forall>d \<in> set ?D. d < ?a" using valid by (rule nir_workgroup_id_defs_bound)
    have pre: "list_all (\<lambda>i. filter_workgroup_id i \<longrightarrow>
             (\<exists>d. nir_instr_ssa_def i = Some d \<and> index d \<noteq> index hw)) (impl_body shader)"
      unfolding list_all_iff
    proof (intro ballI impI)
      fix i assume "i \<in> set (impl_body shader)" "filter_workgroup_id i"
      with valid have "\<exists>d. nir_instr_ssa_def i = Some d \<and> index d < ?a"
        by (auto simp: list_all_iff intro: nir_workgroup_id_valid_dest)
      with hw show "\<exists>d. nir_instr_ssa_def i = Some d \<and> index d \<noteq> index hw" by auto
    qed
    have keep: "map ?M (inserted b) = inserted b"
    proof (rule map_idI)
      fix i assume i: "i \<in> set (inserted b)"
      show "?M i = i"
      proof (rule nir_instr_map_srcs_ident)
        fix s assume "s \<in> set (nir_instr_srcs i)"
        with i fresh(2) have "?a \<le> index s" by (auto simp: list_all_iff)
        with D have "index s \<notin> set ?D" by auto
        then show "nir_src_rewrite_all ?D api s = s" by (simp add: nir_src_rewrite_all_def)
      qed
    qed
    let ?b0 = "nir_builder_init (shader\<lparr>impl_ssa_alloc := ssa_alloc b,
                            impl_body := inserted b @ impl_body shader\<rparr>)"
    from apply_first_task_loop [OF pre, where api = api and b = "?b0\<lparr>inserted := []\<rparr>"
        and seen = "[] @ inserted b"]
    obtain b' where
      "nir_function_impl_lower_instructions filter_workgroup_id replace_workgroup_id_use_first_task
         ?s (?b0\<lparr>inserted := []\<rparr>) ([] @ inserted b) (impl_body shader)
       = Some (b', map ?M ([] @ inserted b) @ map ?M (filter (\<lambda>i. \<not> filter_workgroup_id i) (impl_body shader)))"
      by blast
    then have "nir_function_impl_lower_instructions filter_workgroup_id replace_workgroup_id_use_first_task
         ?s ?b0 [] (inserted b @ impl_body shader)
       = Some (b', inserted b @ map ?M (filter (\<lambda>i. \<not> filter_workgroup_id i) (impl_body shader)))"
      using first_task_build_loop [OF build, where ?b0.0 = ?b0 and seen = "[]" and todo = "impl_body shader"] keep
      by simp
    then show "\<exists>shader'. ?pass = Some shader'
         \<and> impl_body shader' =
             inserted b
             @ map ?M (filter (\<lambda>i. \<not> nir_instr_has_opcode [nir_intrinsic_load_workgroup_id] i)
                         (impl_body shader))"
      using rd build
      by (simp add: ac_nir_apply_first_task_to_task_shader_def Let_def nir_builder_init_inserted
            nir_shader_lower_instructions_def nir_builder_init_def filter_workgroup_id_opcode)
  qed
  have 3: "ac_nir_apply_first_task_build (nir_builder_init shader) = ((hw, api), b)
       \<and> nir_active st
       \<and> (sv_task_ib_stride ctx \<noteq> 0 \<longrightarrow>
            global_memory ctx
              ((ucast (fst (sv_task_ib_addr ctx)) OR push_bit 32 (ucast (snd (sv_task_ib_addr ctx))))
                 + ucast (sv_draw_id ctx * sv_task_ib_stride ctx) + 4) 1 32 = [u32 first_task]) \<longrightarrow>
      (\<exists>st'. nir_exec ctx (inserted b) st = Some st'
         \<and> ssa_values st' (index hw) =
              Some [u32 (fst (sv_workgroup_id ctx)), u32 (fst (snd (sv_workgroup_id ctx))),
                    u32 (snd (snd (sv_workgroup_id ctx)))]
         \<and> ssa_values st' (index api) =
              Some [u32 (fst (sv_workgroup_id ctx)
                         + (if sv_task_ib_stride ctx = 0 then 0 else first_task)),
                    u32 0, u32 0])"
  proof
    assume "ac_nir_apply_first_task_build (nir_builder_init shader) = ((hw, api), b)
       \<and> nir_active st
       \<and> (sv_task_ib_stride ctx \<noteq> 0 \<longrightarrow>
            global_memory ctx
              ((ucast (fst (sv_task_ib_addr ctx)) OR push_bit 32 (ucast (snd (sv_task_ib_addr ctx))))
                 + ucast (sv_draw_id ctx * sv_task_ib_stride ctx) + 4) 1 32 = [u32 first_task])"
    then have build: "ac_nir_apply_first_task_build ((nir_builder_init shader)\<lparr>inserted := []\<rparr>) = ((hw, api), b)"
      and act: "nir_active st"
      and mem: "sv_task_ib_stride ctx \<noteq> 0 \<longrightarrow>
            global_memory ctx
              ((ucast (fst (sv_task_ib_addr ctx)) OR push_bit 32 (ucast (snd (sv_task_ib_addr ctx))))
                 + ucast (sv_draw_id ctx * sv_task_ib_stride ctx) + 4) 1 32 = [u32 first_task]"
      by (simp_all add: nir_builder_init_inserted)
    from exec_first_task_build [OF act mem build]
    show "\<exists>st'. nir_exec ctx (inserted b) st = Some st'
         \<and> ssa_values st' (index hw) =
              Some [u32 (fst (sv_workgroup_id ctx)), u32 (fst (snd (sv_workgroup_id ctx))),
                    u32 (snd (snd (sv_workgroup_id ctx)))]
         \<and> ssa_values st' (index api) =
              Some [u32 (fst (sv_workgroup_id ctx)
                         + (if sv_task_ib_stride ctx = 0 then 0 else first_task)),
                    u32 0, u32 0]"
      by blast
  qed
  from 1 2 3 show ?thesis by blast
qed

text \<open>
  C8 for the example shader with and without the workgroup id among the system values it
  reads.  Its last instruction used the old workgroup id (value 3) and uses value 21
  afterwards, which for workgroup 1 and a first task of 7 is \<open>(8, 0, 0)\<close>.
\<close>

theorem ac_nir_apply_first_task_to_task_shader_spec_witness:
  "ac_nir_apply_first_task_to_task_shader (example_shader\<lparr>info_system_values_read := {}\<rparr>)
     = Some (example_shader\<lparr>info_system_values_read := {}\<rparr>)
   \<and> (\<exists>shader'. ac_nir_apply_first_task_to_task_shader example_shader = Some shader'
        \<and> length (impl_body shader') = 26
        \<and> last (impl_body shader') =
             nir_instr_type_other 0 None
               [example_def 2 1, \<lparr>index = 21, num_components = 3, bit_size = 32\<rparr>])
   \<and> (\<exists>st'. nir_exec example_invocation
          (inserted (snd (ac_nir_apply_first_task_build (nir_builder_init example_shader))))
          example_exec_state = Some st'
        \<and> ssa_values st' 21 = Some [u32 8, u32 0, u32 0])"
proof -
  let ?X = "ac_nir_apply_first_task_build (nir_builder_init example_shader)"
  have X: "?X = ((fst (fst ?X), snd (fst ?X)), snd ?X)" by simp
  have api: "snd (fst ?X) = \<lparr>index = 21, num_components = 3, bit_size = 32\<rparr>"
    by (simp add: ac_nir_apply_first_task_build_def builder_defs Let_def nir_builder_init_def
          example_shader_def)
  have len: "length (inserted (snd ?X)) = 20"
    by (simp add: ac_nir_apply_first_task_build_def builder_defs Let_def nir_builder_init_def
          example_shader_def)
  have 1: "ac_nir_apply_first_task_to_task_shader (example_shader\<lparr>info_system_values_read := {}\<rparr>)
     = Some (example_shader\<lparr>info_system_values_read := {}\<rparr>)"
    using ac_nir_apply_first_task_to_task_shader_spec
      [where shader = "example_shader\<lparr>info_system_values_read := {}\<rparr>"]
    by simp
  note t = ac_nir_apply_first_task_to_task_shader_spec
      [where shader = example_shader and hw = "fst (fst ?X)" and api = "snd (fst ?X)"
         and b = "snd ?X" and ctx = example_invocation and st = example_exec_state
         and first_task = 7]
  have v: "list_all (nir_workgroup_id_valid (impl_ssa_alloc example_shader)) (impl_body example_shader)"
    by (simp add: example_defs)
  have r: "SYSTEM_VALUE_WORKGROUP_ID \<in> info_system_values_read example_shader"
    by (simp add: example_shader_def)
  have D: "nir_workgroup_id_defs (impl_body example_shader) = [3]"
    by (simp add: nir_workgroup_id_defs_def List.map_filter_simps example_defs)
  from t r v X obtain shader' where
    s: "ac_nir_apply_first_task_to_task_shader example_shader = Some shader'"
      "impl_body shader' = inserted (snd ?X)
         @ map (nir_instr_map_srcs (nir_src_rewrite_all [3] (snd (fst ?X))))
             (filter (\<lambda>i. \<not> nir_instr_has_opcode [nir_intrinsic_load_workgroup_id] i)
                (impl_body example_shader))"
    unfolding D by blast
  have 2: "\<exists>shader'. ac_nir_apply_first_task_to_task_shader example_shader = Some shader'
        \<and> length (impl_body shader') = 26
        \<and> last (impl_body shader') =
             nir_instr_type_other 0 None
               [example_def 2 1, \<lparr>index = 21, num_components = 3, bit_size = 32\<rparr>]"
    using s len api by (simp add: example_defs nir_src_rewrite_all_def)
  have 3: "\<exists>st'. nir_exec example_invocation (inserted (snd ?X)) example_exec_state = Some st'
        \<and> ssa_values st' 21 = Some [u32 8, u32 0, u32 0]"
    using t X example_active api by (simp add: example_invocation_def) blast
  from 1 2 3 show ?thesis by blast
qed

end
